(* ===== verification/VclAst.thy ===== *)
theory VclAst
  imports Prelude
begin

text \<open>
  The abstract syntax that the VCL parser hands to the program
  (\<^verbatim>\<open>vendor/github.com/perbu/vclparser/pkg/ast\<close>): expressions with their \<^verbatim>\<open>String\<close>
  method, statements with the lines of their positions, and declarations. Columns, byte
  offsets and comments are left out: nothing in the modelled code reads them. The lexer and
  the parser themselves are arguments of the functions that call them.
\<close>

section \<open>Expressions\<close>

text \<open>A floating-point literal is kept by its source text.\<close>

datatype Expression =
    Identifier string
  | StringLiteral string
  | IntegerLiteral int
  | FloatLiteral string
  | BooleanLiteral bool
  | DurationLiteral string
  | BinaryExpression Expression string Expression
  | UnaryExpression string Expression
  | CallExpression Expression "Expression list" "(string \<times> Expression) list"
  | MemberExpression Expression Expression
  | IndexExpression Expression Expression
  | ParenthesizedExpression Expression
  | RegexMatchExpression Expression string Expression
  | AssignmentExpression Expression string Expression
  | UpdateExpression string Expression bool
  | ArrayExpression "Expression list"
  | ObjectExpression "(Expression \<times> Expression) list"
  | VariableExpression string
  | TimeExpression string
  | IPExpression string
  | ErrorExpression string

fun Expression_String :: "Expression \<Rightarrow> string" where
  "Expression_String (Identifier n) = ''Identifier('' @ n @ '')''"
| "Expression_String (StringLiteral v) = ''StringLiteral('' @ v @ '')''"
| "Expression_String (IntegerLiteral _) = ''IntegerLiteral''"
| "Expression_String (FloatLiteral _) = ''FloatLiteral''"
| "Expression_String (BooleanLiteral _) = ''BooleanLiteral''"
| "Expression_String (DurationLiteral v) = ''DurationLiteral('' @ v @ '')''"
| "Expression_String (BinaryExpression _ op _) = ''BinaryExpression('' @ op @ '')''"
| "Expression_String (UnaryExpression op _) = ''UnaryExpression('' @ op @ '')''"
| "Expression_String (CallExpression _ _ _) = ''CallExpression''"
| "Expression_String (MemberExpression _ _) = ''MemberExpression''"
| "Expression_String (IndexExpression _ _) = ''IndexExpression''"
| "Expression_String (ParenthesizedExpression _) = ''ParenthesizedExpression''"
| "Expression_String (RegexMatchExpression _ op _) = ''RegexMatchExpression('' @ op @ '')''"
| "Expression_String (AssignmentExpression _ op _) = ''AssignmentExpression('' @ op @ '')''"
| "Expression_String (UpdateExpression op _ _) = ''UpdateExpression('' @ op @ '')''"
| "Expression_String (ArrayExpression _) = ''ArrayExpression''"
| "Expression_String (ObjectExpression _) = ''ObjectExpression''"
| "Expression_String (VariableExpression n) = ''VariableExpression('' @ n @ '')''"
| "Expression_String (TimeExpression v) = ''TimeExpression('' @ v @ '')''"
| "Expression_String (IPExpression v) = ''IPExpression('' @ v @ '')''"
| "Expression_String (ErrorExpression m) = ''ErrorExpression('' @ m @ '')''"

section \<open>Statements\<close>

text \<open>
  Every statement starts with its first and last line. \<open>LeafStatement\<close> stands for the
  statements without nested statements (set, unset, call, return, synthetic, error,
  restart, inline C, new, and expression statements).
\<close>

datatype Statement =
    BlockStatement int int "Statement list"
  | IfStatement int int "Expression option" Statement "Statement option"
  | LeafStatement int int

fun StartLine :: "Statement \<Rightarrow> int" where
  "StartLine (BlockStatement s e b) = s"
| "StartLine (IfStatement s e c t el) = s"
| "StartLine (LeafStatement s e) = s"

fun EndLine :: "Statement \<Rightarrow> int" where
  "EndLine (BlockStatement s e b) = e"
| "EndLine (IfStatement s e c t el) = e"
| "EndLine (LeafStatement s e) = e"

section \<open>Declarations\<close>

record BackendProperty =
  prop_Name :: string
  prop_Value :: Expression

text \<open>
  \<open>OtherDecl\<close> stands for version, import, probe and ACL declarations, by their
  \<^verbatim>\<open>String\<close>. A subroutine has its start line, its name and its body (the first line, the
  last line and the statements of the block), which may be nil.
\<close>

datatype Declaration =
    BackendDecl string "BackendProperty list"
  | IncludeDecl string
  | SubDecl int string "(int \<times> int \<times> Statement list) option"
  | OtherDecl string

record Program =
  VCLVersion :: "string option"
  Declarations :: "Declaration list"

end
