(* ===== verification/GoMaps.thy ===== *)
theory GoMaps
  imports Prelude
begin

text \<open>
  Go maps. A map value is an association list with distinct keys; the order of the list
  stands for the order in which a \<^verbatim>\<open>range\<close> loop over that value visits it, which Go
  leaves open, so a theorem that holds for every list holds for every iteration order.
  Where the code builds a map itself and then ranges over it, the order of that loop is an
  argument \<open>ord\<close> of the model, constrained only by \<open>range_order\<close>.

  The locale \<open>go_dict\<close> is the contract of the map operations; its lemmas are proved from
  the laws alone and interpreted on the association lists of the model.
\<close>

section \<open>The contract of a dictionary\<close>

locale go_dict =
  fixes empty :: "'m"
    and get :: "'m \<Rightarrow> 'k \<Rightarrow> 'v option"
    and put :: "'k \<Rightarrow> 'v \<Rightarrow> 'm \<Rightarrow> 'm"
    and del :: "'k \<Rightarrow> 'm \<Rightarrow> 'm"
    and keys :: "'m \<Rightarrow> 'k list"
    and wf :: "'m \<Rightarrow> bool"
  assumes wf_empty: "wf empty"
    and wf_put: "wf m \<Longrightarrow> wf (put k v m)"
    and wf_del: "wf m \<Longrightarrow> wf (del k m)"
    and get_empty: "get empty k = None"
    and get_put: "get (put k v m) k' = (if k' = k then Some v else get m k')"
    and get_del: "wf m \<Longrightarrow> get (del k m) k' = (if k' = k then None else get m k')"
    and keys_dom: "set (keys m) = dom (get m)"
    and keys_distinct: "wf m \<Longrightarrow> distinct (keys m)"
begin

lemma put_all_wf: "wf m \<Longrightarrow> wf (fold (\<lambda>x. put (f x) (g x)) xs m)"
  by (induction xs arbitrary: m) (auto intro: wf_put)

lemma put_all_dom: "dom (get (fold (\<lambda>x. put (f x) (g x)) xs m)) = dom (get m) \<union> f ` set xs"
proof (induction xs arbitrary: m)
  case Nil
  then show ?case by simp
next
  case (Cons x xs)
  have "dom (get (put (f x) (g x) m)) = insert (f x) (dom (get m))"
    by (auto simp: get_put dom_def)
  with Cons show ?case by auto
qed

lemma put_all_other:
  "k \<notin> f ` set xs \<Longrightarrow> get (fold (\<lambda>x. put (f x) (g x)) xs m) k = get m k"
  by (induction xs arbitrary: m) (auto simp: get_put)

lemma put_all_get:
  assumes "x \<in> set xs" "inj_on f (set xs)"
  shows "get (fold (\<lambda>x. put (f x) (g x)) xs m) (f x) = Some (g x)"
  using assms
proof (induction xs arbitrary: m)
  case Nil
  then show ?case by simp
next
  case (Cons y ys)
  show ?case
  proof (cases "x \<in> set ys")
    case True
    with Cons show ?thesis by simp
  next
    case False
    with Cons.prems have "x = y" by simp
    moreover have "f y \<notin> f ` set ys"
      using Cons.prems False \<open>x = y\<close> by (auto simp: inj_on_def)
    ultimately show ?thesis by (simp add: put_all_other get_put)
  qed
qed

lemma keys_put: "set (keys (put k v m)) = insert k (set (keys m))"
  by (auto simp: keys_dom get_put dom_def)

end

section \<open>Association lists as Go maps\<close>

type_synonym ('k, 'v) gomap = "('k \<times> 'v) list"

definition mget :: "('k, 'v) gomap \<Rightarrow> 'k \<Rightarrow> 'v option" where
  "mget m = map_of m"

definition mput :: "'k \<Rightarrow> 'v \<Rightarrow> ('k, 'v) gomap \<Rightarrow> ('k, 'v) gomap" where
  "mput k v m = AList.update k v m"

definition mdel :: "'k \<Rightarrow> ('k, 'v) gomap \<Rightarrow> ('k, 'v) gomap" where
  "mdel k m = AList.delete k m"

definition mkeys :: "('k, 'v) gomap \<Rightarrow> 'k list" where
  "mkeys m = map fst m"

definition wf_map :: "('k, 'v) gomap \<Rightarrow> bool" where
  "wf_map m \<longleftrightarrow> distinct (map fst m)"

text \<open>Indexing a map with a missing key yields the zero value of the element type.\<close>

definition mget_or :: "'v \<Rightarrow> ('k, 'v) gomap \<Rightarrow> 'k \<Rightarrow> 'v" where
  "mget_or z m k = (case mget m k of None \<Rightarrow> z | Some v \<Rightarrow> v)"

text \<open>The order in which a \<^verbatim>\<open>range\<close> loop visits: any permutation.\<close>

definition range_order :: "('a list \<Rightarrow> 'a list) \<Rightarrow> bool" where
  "range_order ord \<longleftrightarrow> (\<forall>xs. mset (ord xs) = mset xs)"

interpretation am: go_dict "[]" mget mput mdel mkeys wf_map
proof unfold_locales
  show "wf_map ([] :: ('k \<times> 'v) list)" by (simp add: wf_map_def)
  show "wf_map m \<Longrightarrow> wf_map (mput k v m)" for m :: "('k \<times> 'v) list" and k v
    by (simp add: wf_map_def mput_def distinct_update)
  show "wf_map m \<Longrightarrow> wf_map (mdel k m)" for m :: "('k \<times> 'v) list" and k
    by (simp add: wf_map_def mdel_def distinct_delete)
  show "mget [] k = (None :: 'v option)" for k :: 'k by (simp add: mget_def)
  show "mget (mput k v m) k' = (if k' = k then Some v else mget m k')"
    for m :: "('k \<times> 'v) list" and k k' v
    by (simp add: mget_def mput_def update_conv)
  show "mget (mdel k m) k' = (if k' = k then None else mget m k')"
    for m :: "('k \<times> 'v) list" and k k'
    by (simp add: mget_def mdel_def delete_conv)
  show "set (mkeys m) = dom (mget m)" for m :: "('k \<times> 'v) list"
    by (simp add: mkeys_def mget_def dom_map_of_conv_image_fst)
  show "wf_map m \<Longrightarrow> distinct (mkeys m)" for m :: "('k \<times> 'v) list"
    by (simp add: wf_map_def mkeys_def)
qed

lemmas map_laws [simp] = am.get_empty am.get_put am.get_del am.wf_empty am.wf_put am.wf_del

lemma mget_in: "mget m k = Some v \<Longrightarrow> (k, v) \<in> set m"
  by (simp add: mget_def map_of_SomeD)

lemma mget_None_iff: "mget m k = None \<longleftrightarrow> k \<notin> fst ` set m"
  by (simp add: mget_def map_of_eq_None_iff)

lemma wf_map_mget_iff: "wf_map m \<Longrightarrow> mget m k = Some v \<longleftrightarrow> (k, v) \<in> set m"
  by (simp add: wf_map_def mget_def map_of_eq_Some_iff)

lemma mget_perm: "wf_map m \<Longrightarrow> mset m = mset m' \<Longrightarrow> mget m = mget m'"
  unfolding mget_def wf_map_def
  by (metis map_of_eqI set_mset_mset mset_eq_imp_distinct_iff mset_map map_of_inject_set)

lemma range_order_set: "range_order ord \<Longrightarrow> set (ord xs) = set xs"
  by (metis range_order_def set_mset_mset)

lemma range_order_distinct: "range_order ord \<Longrightarrow> distinct (ord xs) = distinct xs"
  by (metis range_order_def mset_eq_imp_distinct_iff)

lemma range_order_length: "range_order ord \<Longrightarrow> length (ord xs) = length xs"
  by (metis range_order_def size_mset)

lemma range_order_id [simp]: "range_order (\<lambda>xs. xs)"
  by (simp add: range_order_def)

lemma range_order_rev [simp]: "range_order rev"
  by (simp add: range_order_def)

end
