(* ===== verification/GoStrings.thy ===== *)
theory GoStrings
  imports Prelude
begin

text \<open>
  The functions of Go's \<^verbatim>\<open>strings\<close>, \<^verbatim>\<open>strconv\<close> and \<^verbatim>\<open>fmt\<close> packages that the program
  calls. A Go string is a sequence of bytes and Isabelle's \<open>char\<close> is a byte, so
  \<^typ>\<open>string\<close> is exactly Go's string, and \<open>length\<close> is Go's \<^verbatim>\<open>len\<close>.
\<close>

section \<open>Bytes\<close>

definition byte :: "char \<Rightarrow> nat" where
  "byte c = of_char c"

abbreviation newline :: char where
  "newline \<equiv> CHR 0x0A"

abbreviation quote_char :: char where
  "quote_char \<equiv> CHR 0x22"

definition is_ascii :: "char \<Rightarrow> bool" where
  "is_ascii c \<longleftrightarrow> byte c < 128"

definition is_digit :: "char \<Rightarrow> bool" where
  "is_digit c \<longleftrightarrow> 48 \<le> byte c \<and> byte c \<le> 57"

definition is_upper :: "char \<Rightarrow> bool" where
  "is_upper c \<longleftrightarrow> 65 \<le> byte c \<and> byte c \<le> 90"

definition is_lower :: "char \<Rightarrow> bool" where
  "is_lower c \<longleftrightarrow> 97 \<le> byte c \<and> byte c \<le> 122"

definition is_alnum :: "char \<Rightarrow> bool" where
  "is_alnum c \<longleftrightarrow> is_digit c \<or> is_upper c \<or> is_lower c"

text \<open>Printable ASCII other than the space: the bytes of a varnishlog or CLI word.\<close>

definition is_graph :: "char \<Rightarrow> bool" where
  "is_graph c \<longleftrightarrow> 32 < byte c \<and> byte c < 127"

definition lower_char :: "char \<Rightarrow> char" where
  "lower_char c = (if is_upper c then char_of (byte c + 32) else c)"

definition upper_char :: "char \<Rightarrow> char" where
  "upper_char c = (if is_lower c then char_of (byte c - 32) else c)"

lemma byte_char_of [simp]: "n < 256 \<Longrightarrow> byte (char_of n) = n"
  by (simp add: byte_def)

lemma byte_less_256 [simp]: "byte c < 256"
  by (simp add: byte_def)

lemma byte_inject: "byte c = byte d \<longleftrightarrow> c = d"
  by (simp add: byte_def)

lemma digit_graph: "is_digit c \<Longrightarrow> is_graph c"
  by (simp add: is_digit_def is_graph_def)

lemma byte_lower_char: "byte (lower_char c) = (if is_upper c then byte c + 32 else byte c)"
  using byte_less_256[of c] by (auto simp: lower_char_def is_upper_def)

lemma lower_char_idem [simp]: "lower_char (lower_char c) = lower_char c"
  unfolding lower_char_def[of "lower_char c"] is_upper_def byte_lower_char
  by (auto simp: is_upper_def)

section \<open>Searching and cutting\<close>

text \<open>\<^verbatim>\<open>strings.HasPrefix\<close>, \<^verbatim>\<open>TrimPrefix\<close>, \<^verbatim>\<open>TrimSuffix\<close>, \<^verbatim>\<open>Contains\<close>.\<close>

definition HasPrefix :: "string \<Rightarrow> string \<Rightarrow> bool" where
  "HasPrefix s p \<longleftrightarrow> prefix p s"

definition TrimPrefix :: "string \<Rightarrow> string \<Rightarrow> string" where
  "TrimPrefix s p = (if prefix p s then drop (length p) s else s)"

definition TrimSuffix :: "string \<Rightarrow> string \<Rightarrow> string" where
  "TrimSuffix s p = (if suffix p s then take (length s - length p) s else s)"

fun Contains :: "string \<Rightarrow> string \<Rightarrow> bool" where
  "Contains [] sub = (sub = [])"
| "Contains (c # cs) sub = (prefix sub (c # cs) \<or> Contains cs sub)"

lemma Contains_iff: "Contains s sub \<longleftrightarrow> (\<exists>ps ss. s = ps @ sub @ ss)"
proof (induction s)
  case Nil
  then show ?case by simp
next
  case (Cons c cs)
  show ?case
  proof
    assume "Contains (c # cs) sub"
    then consider (here) "prefix sub (c # cs)" | (later) "Contains cs sub" by auto
    then show "\<exists>ps ss. c # cs = ps @ sub @ ss"
    proof cases
      case here
      then obtain ss where "c # cs = [] @ sub @ ss" by (auto simp: prefix_def)
      then show ?thesis by blast
    next
      case later
      with Cons.IH obtain ps ss where "cs = ps @ sub @ ss" by blast
      then have "c # cs = (c # ps) @ sub @ ss" by simp
      then show ?thesis by blast
    qed
  next
    assume "\<exists>ps ss. c # cs = ps @ sub @ ss"
    then obtain ps ss where *: "c # cs = ps @ sub @ ss" by blast
    show "Contains (c # cs) sub"
    proof (cases ps)
      case Nil
      with * have "prefix sub (c # cs)" by (simp add: prefix_def)
      then show ?thesis by simp
    next
      case (Cons p ps')
      with * have "cs = ps' @ sub @ ss" by simp
      with Cons.IH show ?thesis by auto
    qed
  qed
qed

lemma Contains_empty [simp]: "Contains s []"
  by (cases s) auto

lemma Contains_refl [simp]: "Contains s s"
  unfolding Contains_iff by (rule exI[of _ "[]"], rule exI[of _ "[]"]) simp

text \<open>\<^verbatim>\<open>strings.Trim(s, c)\<close> for a one-byte cutset.\<close>

definition TrimChar :: "string \<Rightarrow> char \<Rightarrow> string" where
  "TrimChar s c = rev (dropWhile (\<lambda>x. x = c) (rev (dropWhile (\<lambda>x. x = c) s)))"

section \<open>Split and Join\<close>

text \<open>
  \<^verbatim>\<open>strings.Split(s, sep)\<close> for a non-empty separator (the program never passes the empty
  one). The accumulator is the current piece, reversed.
\<close>

fun splitAcc :: "string \<Rightarrow> string \<Rightarrow> string \<Rightarrow> string list" where
  "splitAcc sep acc [] = [rev acc]"
| "splitAcc sep acc (c # cs) =
     (if sep \<noteq> [] \<and> prefix sep (c # cs)
      then rev acc # splitAcc sep [] (drop (length sep - 1) cs)
      else splitAcc sep (c # acc) cs)"

definition Split :: "string \<Rightarrow> string \<Rightarrow> string list" where
  "Split s sep = splitAcc sep [] s"

fun Join :: "string list \<Rightarrow> string \<Rightarrow> string" where
  "Join [] sep = []"
| "Join [x] sep = x"
| "Join (x # y # ys) sep = x @ sep @ Join (y # ys) sep"

text \<open>\<^verbatim>\<open>strings.ReplaceAll\<close> replaces the non-overlapping occurrences left to right.\<close>

definition ReplaceAll :: "string \<Rightarrow> string \<Rightarrow> string \<Rightarrow> string" where
  "ReplaceAll s old new = Join (Split s old) new"

lemma splitAcc_nonempty [simp]: "splitAcc sep acc s \<noteq> []"
  by (induction sep acc s rule: splitAcc.induct) auto

lemma Split_nonempty [simp]: "Split s sep \<noteq> []"
  by (simp add: Split_def)

lemma Join_Cons: "xs \<noteq> [] \<Longrightarrow> Join (x # xs) sep = x @ sep @ Join xs sep"
  by (cases xs) auto

lemma Join_splitAcc: "Join (splitAcc sep acc s) sep = rev acc @ s"
proof (induction sep acc s rule: splitAcc.induct)
  case (1 sep acc)
  then show ?case by simp
next
  case (2 sep acc c cs)
  show ?case
  proof (cases "sep \<noteq> [] \<and> prefix sep (c # cs)")
    case True
    then obtain rest where rest: "c # cs = sep @ rest" and "sep \<noteq> []"
      by (auto simp: prefix_def)
    then have "drop (length sep - 1) cs = rest"
      by (cases sep) auto
    then have "splitAcc sep acc (c # cs) = rev acc # splitAcc sep [] rest"
      using True by simp
    with "2.IH"(1)[OF True] rest \<open>drop (length sep - 1) cs = rest\<close> show ?thesis
      by (simp add: Join_Cons)
  next
    case False
    then have "splitAcc sep acc (c # cs) = splitAcc sep (c # acc) cs"
      by (simp only: splitAcc.simps if_False)
    then show ?thesis using "2.IH"(2)[OF False] by simp
  qed
qed

lemma Join_Split [simp]: "Join (Split s sep) sep = s"
  by (simp add: Split_def Join_splitAcc)

text \<open>For a one-byte separator, the pieces are what lies between the separators.\<close>

lemma splitAcc_char_nosep:
  "c \<notin> set s \<Longrightarrow> splitAcc [c] acc s = [rev acc @ s]"
  by (induction s arbitrary: acc) auto

lemma splitAcc_char_sep:
  "c \<notin> set s \<Longrightarrow> splitAcc [c] acc (s @ c # t) = (rev acc @ s) # splitAcc [c] [] t"
  by (induction s arbitrary: acc) auto

lemma Split_char_nosep [go_str]: "c \<notin> set s \<Longrightarrow> Split s [c] = [s]"
  by (simp add: Split_def splitAcc_char_nosep)

lemma Split_char_sep [go_str]: "c \<notin> set s \<Longrightarrow> Split (s @ c # t) [c] = s # Split t [c]"
  by (simp add: Split_def splitAcc_char_sep)

lemma Split_char_Cons: "Split (c # t) [c] = [] # Split t [c]"
  using Split_char_sep[of c "[]" t] by simp

lemma Split_Join_char:
  "xs \<noteq> [] \<Longrightarrow> (\<And>x. x \<in> set xs \<Longrightarrow> c \<notin> set x) \<Longrightarrow> Split (Join xs [c]) [c] = xs"
proof (induction xs rule: induct_list012)
  case 1
  then show ?case by simp
next
  case (2 x)
  then show ?case by (simp add: Split_char_nosep)
next
  case (3 x y zs)
  have "Split (x @ c # Join (y # zs) [c]) [c] = x # Split (Join (y # zs) [c]) [c]"
    using "3.prems"(2)[of x] by (simp add: Split_char_sep)
  also have "Split (Join (y # zs) [c]) [c] = y # zs"
    using 3 by auto
  finally show ?case by simp
qed

lemma Split_char_append:
  "Split (s @ c # t) [c] = Split s [c] @ Split t [c]"
proof (induction s rule: length_induct)
  case (1 s)
  show ?case
  proof (cases "c \<in> set s")
    case False
    then show ?thesis by (simp add: Split_char_sep Split_char_nosep)
  next
    case True
    then obtain u v where s: "s = u @ c # v" and u: "c \<notin> set u"
      by (metis split_list_first)
    then have "length v < length s" by simp
    with 1 have "Split (v @ c # t) [c] = Split v [c] @ Split t [c]" by blast
    with s u show ?thesis by (simp add: Split_char_sep)
  qed
qed

lemma Split_pieces_char: "x \<in> set (Split s [c]) \<Longrightarrow> c \<notin> set x"
proof (induction s arbitrary: x rule: length_induct)
  case (1 s)
  show ?case
  proof (cases "c \<in> set s")
    case False
    with "1.prems" show ?thesis by (simp add: Split_char_nosep)
  next
    case True
    then obtain u v where s: "s = u @ c # v" and u: "c \<notin> set u"
      by (metis split_list_first)
    then have "length v < length s" by simp
    with "1.IH" have "\<forall>x. x \<in> set (Split v [c]) \<longrightarrow> c \<notin> set x" by blast
    moreover from "1.prems" s u have "x = u \<or> x \<in> set (Split v [c])"
      by (simp add: Split_char_sep)
    ultimately show ?thesis using u by blast
  qed
qed

section \<open>White space\<close>

text \<open>
  \<^verbatim>\<open>unicode.IsSpace\<close> on UTF-8 text: the six ASCII spaces, and the encodings of the
  other white-space code points. A UTF-8 lead byte is never part of the previous code
  point, so scanning byte by byte finds the same code points as Go's decoding loop.
\<close>

definition ascii_space :: "char \<Rightarrow> bool" where
  "ascii_space c \<longleftrightarrow> (9 \<le> byte c \<and> byte c \<le> 13) \<or> byte c = 32"

definition wide_spaces :: "string list" where
  "wide_spaces =
     [[CHR 0xC2, CHR 0x85], [CHR 0xC2, CHR 0xA0], [CHR 0xE1, CHR 0x9A, CHR 0x80],
      [CHR 0xE2, CHR 0x80, CHR 0x80], [CHR 0xE2, CHR 0x80, CHR 0x81],
      [CHR 0xE2, CHR 0x80, CHR 0x82], [CHR 0xE2, CHR 0x80, CHR 0x83],
      [CHR 0xE2, CHR 0x80, CHR 0x84], [CHR 0xE2, CHR 0x80, CHR 0x85],
      [CHR 0xE2, CHR 0x80, CHR 0x86], [CHR 0xE2, CHR 0x80, CHR 0x87],
      [CHR 0xE2, CHR 0x80, CHR 0x88], [CHR 0xE2, CHR 0x80, CHR 0x89],
      [CHR 0xE2, CHR 0x80, CHR 0x8A], [CHR 0xE2, CHR 0x80, CHR 0xA8],
      [CHR 0xE2, CHR 0x80, CHR 0xA9], [CHR 0xE2, CHR 0x80, CHR 0xAF],
      [CHR 0xE2, CHR 0x81, CHR 0x9F], [CHR 0xE3, CHR 0x80, CHR 0x80]]"

text \<open>The number of bytes of the white-space code point at the front, 0 if there is none.\<close>

fun space_len :: "string \<Rightarrow> nat" where
  "space_len [] = 0"
| "space_len (c # cs) =
     (if is_ascii c then (if ascii_space c then 1 else 0)
      else (case List.find (\<lambda>w. prefix w (c # cs)) wide_spaces of
              None \<Rightarrow> 0 | Some w \<Rightarrow> length w))"

text \<open>The same at the end of the string, given reversed.\<close>

fun space_len_rev :: "string \<Rightarrow> nat" where
  "space_len_rev [] = 0"
| "space_len_rev (c # cs) =
     (if is_ascii c then (if ascii_space c then 1 else 0)
      else (case List.find (\<lambda>w. prefix (rev w) (c # cs)) wide_spaces of
              None \<Rightarrow> 0 | Some w \<Rightarrow> length w))"

text \<open>\<^verbatim>\<open>strings.Fields\<close>: the maximal runs without white space.\<close>

fun fieldsAcc :: "string \<Rightarrow> string \<Rightarrow> string list" where
  "fieldsAcc acc [] = (if acc = [] then [] else [rev acc])"
| "fieldsAcc acc (c # cs) =
     (let n = space_len (c # cs)
      in if n = 0 then fieldsAcc (c # acc) cs
         else (if acc = [] then [] else [rev acc]) @ fieldsAcc [] (drop (n - 1) cs))"

definition Fields :: "string \<Rightarrow> string list" where
  "Fields s = fieldsAcc [] s"

text \<open>\<^verbatim>\<open>strings.TrimSpace\<close>.\<close>

fun trimFront :: "(string \<Rightarrow> nat) \<Rightarrow> nat \<Rightarrow> string \<Rightarrow> string" where
  "trimFront sl 0 s = s"
| "trimFront sl (Suc fuel) s = (if sl s = 0 then s else trimFront sl fuel (drop (sl s) s))"

text \<open>Each round removes at least one byte, so the length of the string is enough fuel.\<close>

definition TrimSpace :: "string \<Rightarrow> string" where
  "TrimSpace s =
     (let t = trimFront space_len (length s) s
      in rev (trimFront space_len_rev (length t) (rev t)))"

lemma graph_ascii: "is_graph c \<Longrightarrow> is_ascii c \<and> \<not> ascii_space c"
  by (auto simp: is_graph_def is_ascii_def ascii_space_def)

lemma space_len_graph [simp]: "is_graph c \<Longrightarrow> space_len (c # cs) = 0"
  by (simp add: graph_ascii)

lemma space_len_rev_graph [simp]: "is_graph c \<Longrightarrow> space_len_rev (c # cs) = 0"
  by (simp add: graph_ascii)

lemma ascii_space_char [simp]: "ascii_space (CHR '' '')" "is_ascii (CHR '' '')"
  by (simp_all add: ascii_space_def is_ascii_def byte_def)

lemma fieldsAcc_word:
  "list_all is_graph w \<Longrightarrow> fieldsAcc acc (w @ s) = fieldsAcc (rev w @ acc) s"
  by (induction w arbitrary: acc) (auto simp: Let_def simp del: space_len.simps)

lemma fieldsAcc_space:
  "fieldsAcc acc (CHR '' '' # s) = (if acc = [] then [] else [rev acc]) @ fieldsAcc [] s"
  by simp

lemma fieldsAcc_blanks: "fieldsAcc [] (replicate n (CHR '' '') @ s) = fieldsAcc [] s"
  by (induction n) auto

lemma Fields_word_space:
  assumes "list_all is_graph w" "w \<noteq> []"
  shows "Fields (w @ replicate (Suc n) (CHR '' '') @ s) = w # Fields s"
proof -
  have "Fields (w @ replicate (Suc n) (CHR '' '') @ s) =
        fieldsAcc (rev w) (CHR '' '' # replicate n (CHR '' '') @ s)"
    by (simp add: Fields_def fieldsAcc_word[OF assms(1)] del: fieldsAcc.simps)
  also have "\<dots> = w # fieldsAcc [] (replicate n (CHR '' '') @ s)"
    unfolding fieldsAcc_space using assms(2) by simp
  also have "\<dots> = w # Fields s" by (simp add: fieldsAcc_blanks Fields_def)
  finally show ?thesis .
qed

lemma Fields_word: "list_all is_graph w \<Longrightarrow> w \<noteq> [] \<Longrightarrow> Fields w = [w]"
  using fieldsAcc_word[of w "[]" "[]"] by (simp add: Fields_def)

lemma Fields_Join_words:
  "(\<And>w. w \<in> set ws \<Longrightarrow> list_all is_graph w \<and> w \<noteq> []) \<Longrightarrow> Fields (Join ws '' '') = ws"
proof (induction ws rule: induct_list012)
  case 1
  then show ?case by (simp add: Fields_def)
next
  case (2 x)
  then show ?case by (simp add: Fields_word)
next
  case (3 x y zs)
  have "Fields (x @ replicate (Suc 0) (CHR '' '') @ Join (y # zs) '' '') =
        x # Fields (Join (y # zs) '' '')"
    using "3.prems"[of x] by (intro Fields_word_space) auto
  then show ?case using 3 by simp
qed

lemma trimFront_graph: "sl s = 0 \<Longrightarrow> trimFront sl n s = s"
  by (cases n) auto

lemma TrimSpace_graph:
  assumes "list_all is_graph s"
  shows "TrimSpace s = s"
proof (cases s)
  case Nil
  then show ?thesis by (simp add: TrimSpace_def)
next
  case (Cons c cs)
  with assms have 1: "space_len s = 0" by (simp del: space_len.simps)
  obtain d ds where d: "rev s = d # ds" using Cons by (cases "rev s") auto
  from assms have "list_all is_graph (rev s)" by simp
  then have "is_graph d" by (simp add: d)
  with d have 2: "space_len_rev (rev s) = 0" by (simp del: space_len_rev.simps)
  show ?thesis by (simp add: TrimSpace_def trimFront_graph 1 2 Let_def)
qed

section \<open>Case\<close>

text \<open>
  \<^verbatim>\<open>strings.ToLower\<close>: the ASCII rule on ASCII strings. On other strings Go applies the
  Unicode case tables, which are the argument \<open>uni\<close>.
\<close>

definition ToLower :: "(string \<Rightarrow> string) \<Rightarrow> string \<Rightarrow> string" where
  "ToLower uni s = (if list_all is_ascii s then map lower_char s else uni s)"

section \<open>Numbers\<close>

text \<open>\<^verbatim>\<open>strconv.Itoa\<close>, and \<^verbatim>\<open>fmt\<close>'s \<^verbatim>\<open>%d\<close> and \<^verbatim>\<open>%<width>d\<close>.\<close>

definition digit_char :: "nat \<Rightarrow> char" where
  "digit_char n = char_of (48 + n)"

fun nat_digits :: "nat \<Rightarrow> string" where
  "nat_digits n =
     (if n < 10 then [digit_char n] else nat_digits (n div 10) @ [digit_char (n mod 10)])"

declare nat_digits.simps [simp del]

definition Itoa :: "int \<Rightarrow> string" where
  "Itoa i = (if i < 0 then CHR ''-'' # nat_digits (nat (- i)) else nat_digits (nat i))"

definition padLeft :: "nat \<Rightarrow> string \<Rightarrow> string" where
  "padLeft n s = replicate (n - length s) (CHR '' '') @ s"

definition padRight :: "nat \<Rightarrow> string \<Rightarrow> string" where
  "padRight n s = s @ replicate (n - length s) (CHR '' '')"

text \<open>
  \<^verbatim>\<open>strconv.Atoi\<close>: an optional sign, then one or more digits, within the range of
  \<^verbatim>\<open>int\<close>; any other input is an error.
\<close>

definition digits_val :: "string \<Rightarrow> nat" where
  "digits_val ds = foldl (\<lambda>v c. 10 * v + (byte c - 48)) 0 ds"

definition parse_sign :: "string \<Rightarrow> bool \<times> string" where
  "parse_sign s =
     (case s of [] \<Rightarrow> (False, [])
      | c # cs \<Rightarrow> if c = CHR ''-'' then (True, cs)
                  else if c = CHR ''+'' then (False, cs) else (False, s))"

definition Atoi :: "string \<Rightarrow> int option" where
  "Atoi s =
     (case parse_sign s of (neg, ds) \<Rightarrow>
        if ds = [] \<or> \<not> list_all is_digit ds then None
        else let v = (if neg then - int (digits_val ds) else int (digits_val ds))
             in if in_int64 v then Some v else None)"

lemma digit_char_digit [simp]: "n < 10 \<Longrightarrow> is_digit (digit_char n)"
  by (simp add: digit_char_def is_digit_def)

lemma byte_digit_char [simp]: "n < 10 \<Longrightarrow> byte (digit_char n) = 48 + n"
  by (simp add: digit_char_def)

text \<open>Evaluation on numerals.\<close>

lemma digit_char_numeral:
  "digit_char 0 = CHR ''0''" "digit_char 1 = CHR ''1''" "digit_char (Suc 0) = CHR ''1''" "digit_char 2 = CHR ''2''"
  "digit_char 3 = CHR ''3''" "digit_char 4 = CHR ''4''" "digit_char 5 = CHR ''5''" "digit_char 6 = CHR ''6''"
  "digit_char 7 = CHR ''7''" "digit_char 8 = CHR ''8''" "digit_char 9 = CHR ''9''"
  by code_simp+

lemma nat_digits_step:
  "nat_digits (numeral k) =
     (if numeral k < (10 :: nat) then [digit_char (numeral k)]
      else nat_digits (numeral k div 10) @ [digit_char (numeral k mod 10)])"
  "nat_digits 0 = ''0''" "nat_digits (Suc 0) = ''1''"
  by (simp_all add: nat_digits.simps[of "numeral k"] nat_digits.simps[of 0] nat_digits.simps[of "Suc 0"] digit_char_numeral)

lemmas nat_digits_numeral = nat_digits_step digit_char_numeral

lemma nat_digits_nonempty [simp]: "nat_digits n \<noteq> []"
  by (subst nat_digits.simps) simp

lemma nat_digits_all_digits: "list_all is_digit (nat_digits n)"
proof (induction n rule: nat_digits.induct)
  case (1 n)
  then show ?case by (cases "n < 10") (auto simp: nat_digits.simps[of n])
qed

lemma digits_val_nat_digits: "digits_val (nat_digits n) = n"
proof (induction n rule: nat_digits.induct)
  case (1 n)
  show ?case
  proof (cases "n < 10")
    case True
    then show ?thesis by (simp add: nat_digits.simps[of n] digits_val_def)
  next
    case False
    with 1 have "digits_val (nat_digits (n div 10)) = n div 10" by simp
    with False show ?thesis by (simp add: nat_digits.simps[of n] digits_val_def)
  qed
qed

lemma parse_sign_digit: "ds \<noteq> [] \<Longrightarrow> list_all is_digit ds \<Longrightarrow> parse_sign ds = (False, ds)"
  by (cases ds) (auto simp: parse_sign_def is_digit_def byte_def)

lemma parse_sign_Itoa: "parse_sign (Itoa i) = (i < 0, nat_digits (nat \<bar>i\<bar>))"
proof (cases "i < 0")
  case True
  then show ?thesis by (simp add: Itoa_def parse_sign_def)
next
  case False
  then show ?thesis
    by (simp add: Itoa_def parse_sign_digit[OF nat_digits_nonempty nat_digits_all_digits])
qed

lemma Atoi_Itoa [go_str]: "in_int64 i \<Longrightarrow> Atoi (Itoa i) = Some i"
  by (simp add: Atoi_def parse_sign_Itoa nat_digits_all_digits digits_val_nat_digits Let_def)

lemma Atoi_range: "Atoi s = Some i \<Longrightarrow> in_int64 i"
  by (auto simp: Atoi_def Let_def split: prod.splits if_splits)

lemma Atoi_empty [simp]: "Atoi [] = None"
  by (simp add: Atoi_def parse_sign_def)

lemma Itoa_graph: "list_all is_graph (Itoa i)"
proof -
  have "list_all is_graph (nat_digits n)" for n
    using nat_digits_all_digits[of n] digit_graph by (auto simp: list_all_iff)
  then show ?thesis by (simp add: Itoa_def is_graph_def byte_def)
qed

lemma Itoa_nonempty [simp]: "Itoa i \<noteq> []"
  by (simp add: Itoa_def)

lemma Itoa_no_char: "\<not> is_digit c \<Longrightarrow> c \<noteq> CHR ''-'' \<Longrightarrow> c \<notin> set (Itoa i)"
  using nat_digits_all_digits by (auto simp: Itoa_def list_all_iff)

end
