(* ===== verification/GoPaths.thy ===== *)
theory GoPaths
  imports GoStrings
begin

text \<open>
  The functions of Go's \<^verbatim>\<open>path/filepath\<close> that the program calls, with Unix separators.
  A path is handled by its elements, the pieces between slashes.
\<close>

section \<open>Clean\<close>

text \<open>
  One element of the loop of \<^verbatim>\<open>Clean\<close>: the output stack is reversed. An element
  \<open>..\<close> removes the last real element, is dropped at the root and kept in front of a
  relative path.
\<close>

fun cleanStep :: "bool \<Rightarrow> string \<Rightarrow> string list \<Rightarrow> string list" where
  "cleanStep rooted el out =
     (if el = [] \<or> el = ''.'' then out
      else if el = ''..'' then
        (case out of [] \<Rightarrow> if rooted then [] else [''..'']
         | o1 # os \<Rightarrow> if o1 = ''..'' then ''..'' # out else os)
      else el # out)"

definition IsAbs :: "string \<Rightarrow> bool" where
  "IsAbs path \<longleftrightarrow> HasPrefix path ''/''"

definition cleanElems :: "string \<Rightarrow> string list" where
  "cleanElems path = rev (fold (cleanStep (IsAbs path)) (Split path ''/'') [])"

definition Clean :: "string \<Rightarrow> string" where
  "Clean path =
     (let els = cleanElems path in
      if IsAbs path then ''/'' @ Join els ''/''
      else if els = [] then ''.'' else Join els ''/'')"

definition PathJoin :: "string list \<Rightarrow> string" where
  "PathJoin elems =
     (let els = dropWhile (\<lambda>e. e = []) elems in if els = [] then [] else Clean (Join els ''/''))"

section \<open>Taking paths apart\<close>

text \<open>The part after the last slash, and the part up to and including it.\<close>

definition lastElem :: "string \<Rightarrow> string" where
  "lastElem path = last (Split path ''/'')"

definition upToSlash :: "string \<Rightarrow> string" where
  "upToSlash path = take (length path - length (lastElem path)) path"

definition Dir :: "string \<Rightarrow> string" where
  "Dir path = Clean (upToSlash path)"

definition Base :: "string \<Rightarrow> string" where
  "Base path =
     (if path = [] then ''.''
      else let p = rev (dropWhile (\<lambda>c. c = CHR ''/'') (rev path));
               b = lastElem p
           in if b = [] then ''/'' else b)"

text \<open>The suffix of the last element that starts at its last dot.\<close>

definition Ext :: "string \<Rightarrow> string" where
  "Ext path =
     (let el = lastElem path in
      if CHR ''.'' \<in> set el
      then CHR ''.'' # rev (takeWhile (\<lambda>c. c \<noteq> CHR ''.'') (rev el)) else [])"

text \<open>\<^verbatim>\<open>Abs\<close>, given the result of \<^verbatim>\<open>os.Getwd\<close>.\<close>

definition Abs :: "('e, string) result \<Rightarrow> string \<Rightarrow> ('e, string) result" where
  "Abs cwd path =
     (if IsAbs path then Inr (Clean path)
      else case cwd of Inl e \<Rightarrow> Inl e | Inr wd \<Rightarrow> Inr (PathJoin [wd, path]))"

section \<open>Relative paths\<close>

definition relElems :: "string \<Rightarrow> string list" where
  "relElems p = (if p = [] then [] else if p = ''/'' then [[]] else Split p ''/'')"

fun stripCommon :: "string list \<Rightarrow> string list \<Rightarrow> string list \<times> string list" where
  "stripCommon (b # bs) (t # ts) = (if b = t then stripCommon bs ts else (b # bs, t # ts))"
| "stripCommon bs ts = (bs, ts)"

text \<open>\<open>None\<close> stands for the error that no relative path exists.\<close>

definition Rel :: "string \<Rightarrow> string \<Rightarrow> string option" where
  "Rel basepath targpath =
     (let base = Clean basepath; targ = Clean targpath in
      if targ = base then Some ''.''
      else let base = (if base = ''.'' then [] else base) in
        if IsAbs base \<noteq> IsAbs targ then None
        else let (bs, ts) = stripCommon (relElems base) (relElems targ) in
          if bs \<noteq> [] \<and> ts \<noteq> [] \<and> hd bs = ''..'' then None
          else Some (Join (replicate (length bs) ''..'' @ ts) ''/''))"

section \<open>Facts\<close>

lemma IsAbs_Cons [simp]: "IsAbs (c # p) \<longleftrightarrow> c = CHR ''/''" "\<not> IsAbs []"
  by (auto simp: IsAbs_def HasPrefix_def)

lemma IsAbs_iff: "IsAbs p \<longleftrightarrow> (\<exists>q. p = CHR ''/'' # q)"
  by (cases p) auto

lemma Abs_absolute: "IsAbs wd \<Longrightarrow> Abs (Inr wd) path = Inr p \<Longrightarrow> IsAbs p"
proof -
  have "IsAbs q \<Longrightarrow> IsAbs (Clean q)" for q by (simp add: Clean_def Let_def)
  moreover have "IsAbs wd \<Longrightarrow> IsAbs (Join [wd, path] ''/'')" by (auto simp: IsAbs_iff)
  ultimately show "IsAbs wd \<Longrightarrow> Abs (Inr wd) path = Inr p \<Longrightarrow> IsAbs p"
    by (auto simp: Abs_def PathJoin_def Let_def split: if_splits)
qed

lemma Abs_total: "\<exists>p. Abs (Inr wd) path = Inr p"
  by (auto simp: Abs_def)

definition path_piece :: "string \<Rightarrow> bool" where
  "path_piece x \<longleftrightarrow> x \<noteq> [] \<and> CHR ''/'' \<notin> set x"

lemma cleanStep_pieces:
  assumes "x \<in> set (cleanStep r el out)"
  shows "x \<in> set out \<or> x = ''..'' \<or> x = el \<and> el \<noteq> []"
proof (cases out)
  case Nil
  with assms show ?thesis by (simp split: if_splits)
next
  case (Cons y ys)
  with assms show ?thesis by (simp only: cleanStep.simps list.simps split: if_splits) auto
qed

lemma cleanElems_pieces: "x \<in> set (cleanElems p) \<Longrightarrow> path_piece x"
proof -
  have dots: "path_piece ''..''" by (simp add: path_piece_def)
  have "x \<in> set (fold (cleanStep r) els out) \<Longrightarrow> path_piece x"
    if "\<And>x. x \<in> set els \<Longrightarrow> CHR ''/'' \<notin> set x" "\<And>x. x \<in> set out \<Longrightarrow> path_piece x"
    for r els out x
    using that
  proof (induction els arbitrary: out)
    case (Cons el els)
    have "path_piece y" if "y \<in> set (cleanStep r el out)" for y
      using cleanStep_pieces[OF that] Cons.prems(2)[of el] Cons.prems(3) dots
      by (auto simp del: cleanStep.simps simp: path_piece_def)
    with Cons show ?case by (simp del: cleanStep.simps)
  qed simp
  from this[of "Split p ''/''" "[]"] Split_pieces_char[of _ p "CHR ''/''"]
  show "x \<in> set (cleanElems p) \<Longrightarrow> path_piece x"
    unfolding cleanElems_def by simp
qed

lemma IsAbs_Clean [simp]: "IsAbs (Clean p) = IsAbs p"
proof (cases "IsAbs p")
  case True
  then show ?thesis by (simp add: Clean_def Let_def)
next
  case False
  show ?thesis
  proof (cases "cleanElems p")
    case Nil
    with False show ?thesis by (simp add: Clean_def)
  next
    case (Cons x xs)
    with cleanElems_pieces[of x p] obtain c cs where "x = c # cs" "c \<noteq> CHR ''/''"
      by (cases x) (auto simp: path_piece_def)
    moreover obtain r where "Join (x # xs) ''/'' = x @ r" by (cases xs) auto
    ultimately show ?thesis using False Cons by (simp add: Clean_def)
  qed
qed

text \<open>An absolute path has no relative path from a relative base.\<close>

lemma Rel_mixed: "IsAbs targ \<Longrightarrow> \<not> IsAbs base \<Longrightarrow> Rel base targ = None"
proof -
  assume a: "IsAbs targ" "\<not> IsAbs base"
  then have "Clean targ \<noteq> Clean base" by (metis IsAbs_Clean)
  with a show ?thesis by (auto simp: Rel_def Let_def)
qed

lemma Base_nonempty [simp]: "Base path \<noteq> []"
  by (auto simp: Base_def Let_def)

section \<open>Plain paths\<close>

text \<open>Relative paths whose elements are proper names.\<close>

definition plain_name :: "string \<Rightarrow> bool" where
  "plain_name x \<longleftrightarrow> x \<noteq> [] \<and> CHR ''/'' \<notin> set x \<and> x \<noteq> ''.'' \<and> x \<noteq> ''..''"

lemma clean_plain: "list_all plain_name ds \<Longrightarrow> fold (cleanStep r) ds out = rev ds @ out"
  by (induction ds arbitrary: out) (auto simp: plain_name_def)

lemma Join_plain_relative:
  assumes "ds \<noteq> []" "list_all plain_name ds"
  shows "\<not> IsAbs (Join ds ''/'')" "\<not> IsAbs (Join ds ''/'' @ t)"
proof -
  obtain d ds' where ds: "ds = d # ds'" using assms(1) by (cases ds) auto
  then obtain c cs where "d = c # cs" "c \<noteq> CHR ''/''"
    using assms(2) by (cases d) (auto simp: plain_name_def)
  moreover obtain r where "Join ds ''/'' = d @ r" using ds by (cases ds') auto
  ultimately show "\<not> IsAbs (Join ds ''/'')" "\<not> IsAbs (Join ds ''/'' @ t)" by auto
qed

lemma Split_plain: "ds \<noteq> [] \<Longrightarrow> list_all plain_name ds \<Longrightarrow> Split (Join ds ''/'') ''/'' = ds"
  by (rule Split_Join_char) (auto simp: plain_name_def list_all_iff)

lemma Clean_plain:
  assumes "ds \<noteq> []" "list_all plain_name ds"
  shows "Clean (Join ds ''/'') = Join ds ''/''" "Clean (Join ds ''/'' @ ''/'') = Join ds ''/''"
proof -
  have "cleanElems (Join ds ''/'') = ds"
    using assms by (simp add: cleanElems_def Split_plain clean_plain)
  then show "Clean (Join ds ''/'') = Join ds ''/''"
    using Join_plain_relative[OF assms] assms(1) by (simp add: Clean_def)
  have "Split (Join ds ''/'' @ ''/'') ''/'' = ds @ [[]]"
    using assms Split_char_append[of "Join ds ''/''" "CHR ''/''" "[]"]
    by (simp add: Split_plain Split_char_nosep)
  then have "cleanElems (Join ds ''/'' @ ''/'') = ds"
    using assms by (simp add: cleanElems_def clean_plain)
  then show "Clean (Join ds ''/'' @ ''/'') = Join ds ''/''"
    using Join_plain_relative[OF assms] assms(1) by (simp add: Clean_def)
qed

lemma lastElem_slash: "CHR ''/'' \<notin> set b \<Longrightarrow> lastElem (p @ ''/'' @ b) = b"
  using Split_char_append[of p "CHR ''/''" b] by (simp add: lastElem_def Split_char_nosep)

lemma Dir_plain:
  "ds \<noteq> [] \<Longrightarrow> list_all plain_name ds \<Longrightarrow> CHR ''/'' \<notin> set b \<Longrightarrow> Dir (Join ds ''/'' @ ''/'' @ b) = Join ds ''/''"
  using lastElem_slash[of b "Join ds ''/''"] Clean_plain(2)[of ds]
  by (simp add: Dir_def upToSlash_def)

lemma Base_plain:
  assumes "b \<noteq> []" "CHR ''/'' \<notin> set b"
  shows "Base (p @ ''/'' @ b) = b"
proof -
  obtain c b' where b: "b = b' @ [c]" using assms(1) by (cases b rule: rev_cases) auto
  with assms(2) have "rev (dropWhile (\<lambda>c. c = CHR ''/'') (rev (p @ ''/'' @ b))) = p @ ''/'' @ b"
    by auto
  with assms lastElem_slash show ?thesis by (simp add: Base_def)
qed

lemma Ext_dot:
  assumes "CHR ''.'' \<notin> set e" "CHR ''/'' \<notin> set (b @ ''.'' @ e)"
  shows "Ext (b @ ''.'' @ e) = ''.'' @ e"
proof -
  have "lastElem (b @ ''.'' @ e) = b @ ''.'' @ e"
    using assms(2) by (simp add: lastElem_def Split_char_nosep)
  moreover have "takeWhile (\<lambda>c. c \<noteq> CHR ''.'') (rev e @ CHR ''.'' # rev b) = rev e"
    using assms(1) by (intro takeWhile_append_stop) auto
  ultimately show ?thesis by (simp add: Ext_def)
qed

lemma PathJoin_plain:
  assumes "ds \<noteq> []" "list_all plain_name ds" "plain_name x"
  shows "PathJoin [Join ds ''/'', x] = Join ds ''/'' @ ''/'' @ x"
proof -
  have ne: "Join ds ''/'' \<noteq> []"
    using assms by (cases ds rule: list.exhaust; cases "tl ds") (auto simp: plain_name_def)
  have app: "Join (es @ [x]) ''/'' = Join es ''/'' @ ''/'' @ x" if "es \<noteq> []" for es
    using that by (induction es rule: induct_list012) auto
  have "Clean (Join (ds @ [x]) ''/'') = Join (ds @ [x]) ''/''"
    using assms by (intro Clean_plain) auto
  with ne app[OF assms(1)] show ?thesis by (simp add: PathJoin_def)
qed

section \<open>Joining a directory and a name\<close>

lemma Join_snoc: "es \<noteq> [] \<Longrightarrow> Join (es @ [x]) sep = Join es sep @ sep @ x"
  by (induction es rule: induct_list012) auto

lemma lastElem_Join:
  assumes "CHR ''/'' \<notin> set n"
  shows "lastElem (Join (es @ [n]) ''/'') = n" "lastElem (''/'' @ Join (es @ [n]) ''/'') = n"
proof -
  have "lastElem n = n" using assms by (simp add: lastElem_def Split_char_nosep)
  then show "lastElem (Join (es @ [n]) ''/'') = n"
    using lastElem_slash[OF assms, of "Join es ''/''"] by (cases "es = []") (simp_all add: Join_snoc)
  show "lastElem (''/'' @ Join (es @ [n]) ''/'') = n"
    using lastElem_slash[OF assms, of "[]"] lastElem_slash[OF assms, of "''/'' @ Join es ''/''"]
    by (cases "es = []") (simp_all add: Join_snoc)
qed

text \<open>The last element of a joined path is the name.\<close>

lemma lastElem_PathJoin:
  assumes "plain_name n"
  shows "lastElem (PathJoin [d, n]) = n"
proof -
  have n: "CHR ''/'' \<notin> set n" "n \<noteq> []" using assms by (auto simp: plain_name_def)
  have elems: "\<exists>es. cleanElems p = es @ [n]" if "Split p ''/'' = ps @ [n]" for p ps
    using that assms by (auto simp: cleanElems_def plain_name_def)
  have clean: "lastElem (Clean p) = n" if "Split p ''/'' = ps @ [n]" for p ps
    using elems[OF that] lastElem_Join[OF n(1)] by (auto simp: Clean_def Let_def)
  have s1: "Split n ''/'' = [] @ [n]" using n(1) by (simp add: Split_char_nosep)
  have s2: "Split (d @ ''/'' @ n) ''/'' = Split d ''/'' @ [n]"
    using Split_char_append[of d "CHR ''/''" n] n(1) by (simp add: Split_char_nosep)
  show ?thesis
    using clean[OF s1] clean[OF s2] n(2) by (simp add: PathJoin_def)
qed

lemma PathJoin_distinct: "plain_name n \<Longrightarrow> plain_name n' \<Longrightarrow> n \<noteq> n' \<Longrightarrow> PathJoin [d, n] \<noteq> PathJoin [d', n']"
  using lastElem_PathJoin by metis

lemma PathJoin_nonempty: "plain_name n \<Longrightarrow> PathJoin [d, n] \<noteq> []"
proof
  assume n: "plain_name n" and e: "PathJoin [d, n] = []"
  have "lastElem [] = []" by (simp add: lastElem_def Split_char_nosep)
  with lastElem_PathJoin[OF n, of d] e n show False by (simp add: plain_name_def)
qed

end
