(* ===== verification/VclMod.thy ===== *)
theory VclMod
  imports VclAst GoMaps GoPaths
begin

text \<open>
  Package \<^verbatim>\<open>vclmod\<close> (\<^verbatim>\<open>modifier.go\<close>, \<^verbatim>\<open>include_walker.go\<close>): replacing backend addresses in
  VCL, validating the backends of a test against those of the VCL, and walking the include
  tree. The VCL parser, the renderer, the file system and the working directory are
  parameters.
\<close>

section \<open>Addresses and validation results\<close>

record BackendAddress =
  Host :: string
  Port :: string

text \<open>Messages are kept by their arguments: one constructor per format string.\<close>

datatype VclIssue = NotFoundInVCL string "string list" string

datatype VclWarning = NotUsedInTest string

record ValidationResult =
  vr_Warnings :: "VclWarning list"
  vr_Errors :: "VclIssue list"

definition findClosestMatch :: "(string \<Rightarrow> string) \<Rightarrow> string \<Rightarrow> string list \<Rightarrow> string" where
  "findClosestMatch uni target candidates =
     (let targetLower = ToLower uni target in
      case List.find (\<lambda>c. ToLower uni c = targetLower) candidates of
        Some c \<Rightarrow> c
      | None \<Rightarrow>
          (case List.find (\<lambda>c. Contains (ToLower uni c) targetLower \<or>
                               Contains targetLower (ToLower uni c)) candidates of
             Some c \<Rightarrow> c | None \<Rightarrow> []))"

text \<open>
  The names of the VCL backends, all unused at first. In the code this map is filled by a
  loop over the declarations of one file; the include walker fills it file by file.
\<close>

definition collectBackends :: "Declaration list \<Rightarrow> (string, bool) gomap \<Rightarrow> (string, bool) gomap" where
  "collectBackends decls m =
     fold (\<lambda>decl m. case decl of BackendDecl name props \<Rightarrow> mput name False m | _ \<Rightarrow> m) decls m"

text \<open>
  One iteration over the YAML backends, then the whole check. \<open>ordN\<close> and \<open>ordW\<close> are the
  orders of the two loops over the map of VCL backends.
\<close>

definition checkYamlBackend ::
  "(string \<Rightarrow> string) \<Rightarrow> string list \<Rightarrow> string \<Rightarrow> (string, bool) gomap \<times> VclIssue list \<Rightarrow>
   (string, bool) gomap \<times> VclIssue list" where
  "checkYamlBackend uni vclBackendNames yamlName st =
     (case st of (vclBackends, errors) \<Rightarrow>
        if mget vclBackends yamlName = None
        then (vclBackends,
              errors @ [NotFoundInVCL yamlName vclBackendNames (findClosestMatch uni yamlName vclBackendNames)])
        else (mput yamlName True vclBackends, errors))"

definition validateNames ::
  "(string \<Rightarrow> string) \<Rightarrow> (string list \<Rightarrow> string list) \<Rightarrow>
   ((string \<times> bool) list \<Rightarrow> (string \<times> bool) list) \<Rightarrow>
   (string, bool) gomap \<Rightarrow> (string, BackendAddress) gomap \<Rightarrow> ValidationResult" where
  "validateNames uni ordN ordW vclBackends backends =
     (let vclBackendNames = ordN (mkeys vclBackends);
          (used, errors) = fold (checkYamlBackend uni vclBackendNames) (mkeys backends) (vclBackends, [])
      in \<lparr>vr_Warnings = map (\<lambda>(vclName, u). NotUsedInTest vclName)
                          (filter (\<lambda>(vclName, u). \<not> u) (ordW used)),
          vr_Errors = errors\<rparr>)"

section \<open>Replacing addresses\<close>

definition setProperty :: "BackendAddress \<Rightarrow> BackendProperty \<Rightarrow> BackendProperty" where
  "setProperty addr prop =
     (if prop_Name prop = ''host'' then prop\<lparr>prop_Value := StringLiteral (Host addr)\<rparr>
      else if prop_Name prop = ''port'' then prop\<lparr>prop_Value := StringLiteral (Port addr)\<rparr>
      else prop)"

definition modifyProperties :: "BackendAddress \<Rightarrow> BackendProperty list \<Rightarrow> BackendProperty list" where
  "modifyProperties addr props =
     (let hostFound = list_ex (\<lambda>p. prop_Name p = ''host'') props;
          portFound = list_ex (\<lambda>p. prop_Name p = ''port'') props
      in map (setProperty addr) props @
         (if \<not> hostFound then [\<lparr>prop_Name = ''host'', prop_Value = StringLiteral (Host addr)\<rparr>] else []) @
         (if \<not> portFound then [\<lparr>prop_Name = ''port'', prop_Value = StringLiteral (Port addr)\<rparr>] else []))"

definition modifyDecl :: "(string, BackendAddress) gomap \<Rightarrow> Declaration \<Rightarrow> Declaration" where
  "modifyDecl backends decl =
     (case decl of
        BackendDecl name props \<Rightarrow>
          (case mget backends name of
             None \<Rightarrow> BackendDecl name props
           | Some addr \<Rightarrow> BackendDecl name (modifyProperties addr props))
      | d \<Rightarrow> d)"

definition modifyProgram :: "(string, BackendAddress) gomap \<Rightarrow> Program \<Rightarrow> Program" where
  "modifyProgram backends program =
     program\<lparr>Declarations := map (modifyDecl backends) (Declarations program)\<rparr>"

definition modifyBackendsInAST ::
  "(Program \<Rightarrow> string) \<Rightarrow> (string, BackendAddress) gomap \<Rightarrow> Program \<Rightarrow> string" where
  "modifyBackendsInAST render backends program = render (modifyProgram backends program)"

section \<open>Single files\<close>

datatype 'e ModError =
    ParsingFailed 'e
  | ValidationFailed ValidationResult

definition ValidateBackends ::
  "(string \<Rightarrow> string) \<Rightarrow> (string list \<Rightarrow> string list) \<Rightarrow>
   ((string \<times> bool) list \<Rightarrow> (string \<times> bool) list) \<Rightarrow>
   (string \<Rightarrow> string \<Rightarrow> ('e, Program) result) \<Rightarrow> string \<Rightarrow> string \<Rightarrow>
   (string, BackendAddress) gomap \<Rightarrow> ('e ModError, ValidationResult) result" where
  "ValidateBackends uni ordN ordW parse vclContent vclPath yamlBackends =
     (case parse vclContent vclPath of
        Inl err \<Rightarrow> Inl (ParsingFailed err)
      | Inr root \<Rightarrow>
          let vclBackends = collectBackends (Declarations root) [];
              result = validateNames uni ordN ordW vclBackends yamlBackends
          in if length (vr_Errors result) > 0 then Inl (ValidationFailed result) else Inr result)"

definition ModifyBackends ::
  "(string \<Rightarrow> string \<Rightarrow> ('e, Program) result) \<Rightarrow> (Program \<Rightarrow> string) \<Rightarrow> string \<Rightarrow> string \<Rightarrow>
   (string, BackendAddress) gomap \<Rightarrow> ('e ModError, string) result" where
  "ModifyBackends parse render vclContent vclPath backends =
     (case parse vclContent vclPath of
        Inl err \<Rightarrow> Inl (ParsingFailed err)
      | Inr root \<Rightarrow> Inr (render (root\<lparr>Declarations := map (modifyDecl backends) (Declarations root)\<rparr>)))"

definition ValidateAndModifyBackends ::
  "(string \<Rightarrow> string) \<Rightarrow> (string list \<Rightarrow> string list) \<Rightarrow>
   ((string \<times> bool) list \<Rightarrow> (string \<times> bool) list) \<Rightarrow>
   (string \<Rightarrow> string \<Rightarrow> ('e, Program) result) \<Rightarrow> (Program \<Rightarrow> string) \<Rightarrow> string \<Rightarrow> string \<Rightarrow>
   (string, BackendAddress) gomap \<Rightarrow> ('e ModError, string \<times> ValidationResult) result" where
  "ValidateAndModifyBackends uni ordN ordW parse render vclContent vclPath backends =
     (case parse vclContent vclPath of
        Inl err \<Rightarrow> Inl (ParsingFailed err)
      | Inr root \<Rightarrow>
          let vclBackends = collectBackends (Declarations root) [];
              result = validateNames uni ordN ordW vclBackends backends
          in if length (vr_Errors result) > 0 then Inl (ValidationFailed result)
             else Inr (render (root\<lparr>Declarations := map (modifyDecl backends) (Declarations root)\<rparr>), result))"

section \<open>The include walker\<close>

record ProcessedVCLFile =
  AbsolutePath :: string
  RelativePath :: string
  Content :: string

record 'e WalkEnv =
  env_cwd :: "('e, string) result"
  env_readFile :: "string \<Rightarrow> ('e, string) result"
  env_parse :: "string \<Rightarrow> string \<Rightarrow> ('e, Program) result"
  env_render :: "Program \<Rightarrow> string"

text \<open>
  The fields of the walker that change. \<^verbatim>\<open>includeDepth\<close> is \<open>maxIncludeDepth\<close> minus the
  first argument of \<open>walkFile\<close>: it is incremented around the loop over the includes and
  nowhere else.
\<close>

record includeWalker =
  visitedFiles :: "(string, bool) gomap"
  processedFiles :: "ProcessedVCLFile list"
  vclBackends :: "(string, bool) gomap"

definition maxIncludeDepth :: nat where
  "maxIncludeDepth = 10"

datatype 'e WalkError =
    DepthExceeded string
  | ResolvingPath string 'e
  | ReadingVCL string 'e
  | ParsingVCL string 'e
  | ProcessingInclude string "'e WalkError"

definition includePathOf :: "string \<Rightarrow> string \<Rightarrow> string" where
  "includePathOf absPath path =
     (if \<not> IsAbs path then PathJoin [Dir absPath, path] else path)"

definition processFile ::
  "'e WalkEnv \<Rightarrow> (string, BackendAddress) gomap \<Rightarrow> string \<Rightarrow> string \<Rightarrow> Program \<Rightarrow> ProcessedVCLFile" where
  "processFile env backends mainVCLDir absPath program =
     \<lparr>AbsolutePath = absPath,
      RelativePath = (case Rel mainVCLDir absPath of None \<Rightarrow> Base absPath | Some r \<Rightarrow> r),
      Content = modifyBackendsInAST (env_render env) backends program\<rparr>"

fun walkFile ::
  "nat \<Rightarrow> 'e WalkEnv \<Rightarrow> (string, BackendAddress) gomap \<Rightarrow> string \<Rightarrow> string \<Rightarrow> includeWalker \<Rightarrow>
   ('e WalkError, includeWalker) result" where
  "walkFile 0 env backends mainVCLDir vclPath w = Inl (DepthExceeded vclPath)"
| "walkFile (Suc remaining) env backends mainVCLDir vclPath w =
     (case Abs (env_cwd env) vclPath of
        Inl err \<Rightarrow> Inl (ResolvingPath vclPath err)
      | Inr absPath \<Rightarrow>
          if mget_or False (visitedFiles w) absPath then Inr w
          else
            let w1 = w\<lparr>visitedFiles := mput absPath True (visitedFiles w)\<rparr> in
            case env_readFile env absPath of
              Inl err \<Rightarrow> Inl (ReadingVCL vclPath err)
            | Inr content \<Rightarrow>
                (case env_parse env content absPath of
                   Inl err \<Rightarrow> Inl (ParsingVCL vclPath err)
                 | Inr program \<Rightarrow>
                     let w2 = w1\<lparr>vclBackends := collectBackends (Declarations program) (vclBackends w1),
                                 processedFiles := processedFiles w1 @
                                   [processFile env backends mainVCLDir absPath program]\<rparr>
                     in foldE (\<lambda>decl w.
                          case decl of
                            IncludeDecl path \<Rightarrow>
                              (case walkFile remaining env backends mainVCLDir (includePathOf absPath path) w of
                                 Inl err \<Rightarrow> Inl (ProcessingInclude path err)
                               | Inr w' \<Rightarrow> Inr w')
                          | _ \<Rightarrow> Inr w) (Declarations program) w2))"

datatype 'e ProcessError =
    WalkFailed "'e WalkError"
  | BackendValidationFailed ValidationResult

definition emptyWalker :: includeWalker where
  "emptyWalker = \<lparr>visitedFiles = [], processedFiles = [], vclBackends = []\<rparr>"

definition ProcessVCLWithIncludes ::
  "(string \<Rightarrow> string) \<Rightarrow> (string list \<Rightarrow> string list) \<Rightarrow>
   ((string \<times> bool) list \<Rightarrow> (string \<times> bool) list) \<Rightarrow> 'e WalkEnv \<Rightarrow>
   string \<Rightarrow> (string, BackendAddress) gomap \<Rightarrow>
   ('e ProcessError, ProcessedVCLFile list \<times> ValidationResult) result" where
  "ProcessVCLWithIncludes uni ordN ordW env mainVCLPath backends =
     (case walkFile maxIncludeDepth env backends (Dir mainVCLPath) mainVCLPath emptyWalker of
        Inl err \<Rightarrow> Inl (WalkFailed err)
      | Inr w \<Rightarrow>
          let result = validateNames uni ordN ordW (vclBackends w) backends in
          if length (vr_Errors result) > 0 then Inl (BackendValidationFailed result)
          else Inr (processedFiles w, result))"

section \<open>Backend names\<close>

definition backendNames :: "Declaration list \<Rightarrow> string set" where
  "backendNames decls = {n. \<exists>props. BackendDecl n props \<in> set decls}"

lemma collectBackends_get:
  "mget (collectBackends decls m) n = (if n \<in> backendNames decls then Some False else mget m n)"
proof -
  have "mget (fold (\<lambda>decl m. case decl of BackendDecl name props \<Rightarrow> mput name False m | _ \<Rightarrow> m) decls m) n
      = (if n \<in> backendNames decls then Some False else mget m n)"
    by (induction decls arbitrary: m) (auto simp: backendNames_def split: Declaration.splits)
  then show ?thesis by (simp add: collectBackends_def)
qed

lemma collectBackends_wf: "wf_map m \<Longrightarrow> wf_map (collectBackends decls m)"
proof -
  have "wf_map m \<Longrightarrow>
      wf_map (fold (\<lambda>decl m. case decl of BackendDecl name props \<Rightarrow> mput name False m | _ \<Rightarrow> m) decls m)"
    by (induction decls arbitrary: m) (auto split: Declaration.splits)
  then show "wf_map m \<Longrightarrow> wf_map (collectBackends decls m)" by (simp add: collectBackends_def)
qed

definition notFound :: "(string \<Rightarrow> string) \<Rightarrow> string list \<Rightarrow> string \<Rightarrow> VclIssue" where
  "notFound uni names y = NotFoundInVCL y names (findClosestMatch uni y names)"

lemma checkYaml_step:
  "checkYamlBackend uni names y (m, errs) =
     (if mget m y = None then (m, errs @ [notFound uni names y]) else (mput y True m, errs))"
  by (simp add: checkYamlBackend_def notFound_def)

lemma checkYaml_fold:
  assumes "fold (checkYamlBackend uni names) ys (m, errs) = (m', errs')"
  shows "errs' = errs @ map (notFound uni names) (filter (\<lambda>y. mget m y = None) ys) \<and>
    (\<forall>n. mget m' n = (if n \<in> set ys \<and> mget m n \<noteq> None then Some True else mget m n)) \<and>
    (wf_map m \<longrightarrow> wf_map m')"
  using assms
proof (induction ys arbitrary: m errs)
  case (Cons y ys)
  show ?case
  proof (cases "mget m y = None")
    case True
    then have "fold (checkYamlBackend uni names) ys (m, errs @ [notFound uni names y]) = (m', errs')"
      using Cons.prems by (simp add: checkYaml_step)
    from Cons.IH[OF this] True show ?thesis by auto
  next
    case False
    then have "fold (checkYamlBackend uni names) ys (mput y True m, errs) = (m', errs')"
      using Cons.prems by (auto simp: checkYaml_step)
    moreover have "(\<lambda>x. mget (mput y True m) x = None) = (\<lambda>x. mget m x = None)"
      using False by auto
    ultimately show ?thesis using Cons.IH[of "mput y True m" errs] False by auto
  qed
qed simp

text \<open>The errors and the unused names that validation reports.\<close>

lemma validateNames_spec:
  assumes "range_order ordN" "range_order ordW" "wf_map vcl"
    and "\<And>n. mget vcl n \<noteq> Some True"
  shows "vr_Errors (validateNames uni ordN ordW vcl ys) =
      map (notFound uni (ordN (mkeys vcl))) (filter (\<lambda>y. mget vcl y = None) (mkeys ys))" (is ?A)
    and "distinct (vr_Warnings (validateNames uni ordN ordW vcl ys))" (is ?B)
    and "set (vr_Warnings (validateNames uni ordN ordW vcl ys)) =
      NotUsedInTest ` {n. mget vcl n \<noteq> None \<and> n \<notin> set (mkeys ys)}" (is ?C)
proof -
  let ?names = "ordN (mkeys vcl)"
  obtain m' errs' where f: "fold (checkYamlBackend uni ?names) (mkeys ys) (vcl, []) = (m', errs')"
    by fastforce
  note spec = checkYaml_fold[OF f]
  have v: "validateNames uni ordN ordW vcl ys =
      \<lparr>vr_Warnings = map (\<lambda>(n, u). NotUsedInTest n) (filter (\<lambda>(n, u). \<not> u) (ordW m')), vr_Errors = errs'\<rparr>"
    by (simp add: validateNames_def f)
  from v spec show ?A by simp
  have wf: "wf_map m'" using spec assms(3) by blast
  then have "distinct (map fst (filter (\<lambda>(n, u). \<not> u) (ordW m')))"
    using assms(2) unfolding wf_map_def range_order_def
    by (metis distinct_map_filter mset_eq_imp_distinct_iff mset_map)
  then have "distinct (map NotUsedInTest (map fst (filter (\<lambda>(n, u). \<not> u) (ordW m'))))"
    by (simp add: distinct_map inj_on_def)
  moreover have "map NotUsedInTest (map fst xs) = map (\<lambda>(n, u). NotUsedInTest n) xs"
    for xs :: "(string \<times> bool) list" by auto
  ultimately have "distinct (map (\<lambda>(n, u). NotUsedInTest n) (filter (\<lambda>(n, u). \<not> u) (ordW m')))"
    by metis
  then show ?B using v by simp
  have "set (vr_Warnings (validateNames uni ordN ordW vcl ys)) =
      NotUsedInTest ` {n. mget m' n = Some False}"
    using v range_order_set[OF assms(2)] by (force simp: wf_map_mget_iff[OF wf] image_iff)
  also have "{n. mget m' n = Some False} = {n. mget vcl n \<noteq> None \<and> n \<notin> set (mkeys ys)}"
    using spec assms(4) by (auto split: if_splits)
  finally show ?C .
qed

section \<open>Modified declarations\<close>

text \<open>
  What replacing addresses must achieve on one declaration: every host and port property of
  a named backend carries the new address, both exist, everything else stays in place.
\<close>

definition addressed :: "BackendAddress \<Rightarrow> BackendProperty list \<Rightarrow> bool" where
  "addressed addr props \<longleftrightarrow>
     (\<exists>p \<in> set props. prop_Name p = ''host'') \<and> (\<exists>p \<in> set props. prop_Name p = ''port'') \<and>
     (\<forall>p \<in> set props. (prop_Name p = ''host'' \<longrightarrow> prop_Value p = StringLiteral (Host addr)) \<and>
        (prop_Name p = ''port'' \<longrightarrow> prop_Value p = StringLiteral (Port addr)))"

definition is_address_prop :: "BackendProperty \<Rightarrow> bool" where
  "is_address_prop p \<longleftrightarrow> prop_Name p = ''host'' \<or> prop_Name p = ''port''"

lemma setProperty_name [simp]: "prop_Name (setProperty addr p) = prop_Name p"
  by (simp add: setProperty_def)

lemma modifyProperties_addressed: "addressed addr (modifyProperties addr props)"
proof -
  let ?ps = "modifyProperties addr props"
  have ex: "\<exists>p \<in> set ?ps. prop_Name p = n" if "n = ''host'' \<or> n = ''port''" for n
  proof (cases "\<exists>p \<in> set props. prop_Name p = n")
    case True
    then obtain p where "p \<in> set props" "prop_Name p = n" by blast
    then have "setProperty addr p \<in> set ?ps" "prop_Name (setProperty addr p) = n"
      by (simp_all add: modifyProperties_def Let_def)
    then show ?thesis by blast
  next
    case False
    with that show ?thesis by (auto simp: modifyProperties_def Let_def list_ex_iff)
  qed
  have "\<forall>p \<in> set ?ps. (prop_Name p = ''host'' \<longrightarrow> prop_Value p = StringLiteral (Host addr)) \<and>
        (prop_Name p = ''port'' \<longrightarrow> prop_Value p = StringLiteral (Port addr))"
    by (auto simp: modifyProperties_def Let_def setProperty_def split: if_splits)
  with ex show ?thesis by (auto simp: addressed_def)
qed

lemma modifyProperties_others:
  "filter (\<lambda>p. \<not> is_address_prop p) (modifyProperties addr props) =
   filter (\<lambda>p. \<not> is_address_prop p) props"
proof -
  have "filter (\<lambda>p. \<not> is_address_prop p) (map (setProperty addr) ps) =
      filter (\<lambda>p. \<not> is_address_prop p) ps" for ps
    by (induction ps) (auto simp: is_address_prop_def setProperty_def)
  then show ?thesis by (auto simp: modifyProperties_def Let_def is_address_prop_def)
qed

lemma addressed_fixpoint: "addressed addr props \<Longrightarrow> modifyProperties addr props = props"
proof -
  assume a: "addressed addr props"
  then have "setProperty addr p = p" if "p \<in> set props" for p
    using that by (auto simp: addressed_def setProperty_def)
  then have "map (setProperty addr) props = props" by (simp add: map_idI)
  with a show ?thesis by (auto simp: addressed_def modifyProperties_def Let_def list_ex_iff)
qed

lemma modifyDecl_idem: "modifyDecl backends (modifyDecl backends d) = modifyDecl backends d"
  by (auto simp: modifyDecl_def addressed_fixpoint modifyProperties_addressed split: Declaration.splits option.splits)

section \<open>The walked tree\<close>

definition seen :: "includeWalker \<Rightarrow> string set" where
  "seen w = {p. mget_or False (visitedFiles w) p}"

text \<open>A file of the tree by its absolute path: its content read and parsed.\<close>

definition programAt :: "'e WalkEnv \<Rightarrow> string \<Rightarrow> Program option" where
  "programAt env p =
     (case env_readFile env p of Inl e \<Rightarrow> None
      | Inr content \<Rightarrow> (case env_parse env content p of Inl e \<Rightarrow> None | Inr pr \<Rightarrow> Some pr))"

definition declsAt :: "'e WalkEnv \<Rightarrow> string \<Rightarrow> Declaration list" where
  "declsAt env p = (case programAt env p of None \<Rightarrow> [] | Some pr \<Rightarrow> Declarations pr)"

text \<open>The absolute paths a file includes.\<close>

definition includesOf :: "'e WalkEnv \<Rightarrow> string \<Rightarrow> string set" where
  "includesOf env p =
     {q. \<exists>path. IncludeDecl path \<in> set (declsAt env p) \<and> Abs (env_cwd env) (includePathOf p path) = Inr q}"

inductive included :: "'e WalkEnv \<Rightarrow> string \<Rightarrow> string \<Rightarrow> bool" for env where
  included_refl: "included env p p"
| included_step: "included env p q \<Longrightarrow> r \<in> includesOf env q \<Longrightarrow> included env p r"

lemma included_trans: "included env q r \<Longrightarrow> included env p q \<Longrightarrow> included env p r"
  by (induction rule: included.induct) (auto intro: included_step)

definition faithful :: "'e WalkEnv \<Rightarrow> (string, BackendAddress) gomap \<Rightarrow> string \<Rightarrow> ProcessedVCLFile \<Rightarrow> bool" where
  "faithful env backends dir f \<longleftrightarrow>
     (\<exists>pr. programAt env (AbsolutePath f) = Some pr \<and>
        f = processFile env backends dir (AbsolutePath f) pr)"

text \<open>
  What a successful walk adds: the new files, each once, faithfully processed, with all
  their includes seen, and their backends collected.
\<close>

definition walked ::
  "'e WalkEnv \<Rightarrow> (string, BackendAddress) gomap \<Rightarrow> string \<Rightarrow> includeWalker \<Rightarrow> includeWalker \<Rightarrow>
   ProcessedVCLFile list \<Rightarrow> bool" where
  "walked env backends dir w w' new \<longleftrightarrow>
     processedFiles w' = processedFiles w @ new \<and>
     seen w' = seen w \<union> AbsolutePath ` set new \<and>
     distinct (map AbsolutePath new) \<and> AbsolutePath ` set new \<inter> seen w = {} \<and>
     (\<forall>f \<in> set new. faithful env backends dir f \<and> includesOf env (AbsolutePath f) \<subseteq> seen w') \<and>
     (\<forall>n. mget (vclBackends w') n =
        (if \<exists>f \<in> set new. n \<in> backendNames (declsAt env (AbsolutePath f)) then Some False
         else mget (vclBackends w) n)) \<and>
     (wf_map (vclBackends w) \<longrightarrow> wf_map (vclBackends w'))"

lemma walked_refl: "walked env backends dir w w []"
  by (simp add: walked_def)

lemma walked_trans:
  assumes "walked env backends dir w w1 new" "walked env backends dir w1 w2 new'"
  shows "walked env backends dir w w2 (new @ new')"
proof -
  have disj: "AbsolutePath ` set new \<inter> AbsolutePath ` set new' = {}"
    using assms unfolding walked_def by blast
  show ?thesis unfolding walked_def
  proof (intro conjI)
    show "processedFiles w2 = processedFiles w @ new @ new'"
      "wf_map (vclBackends w) \<longrightarrow> wf_map (vclBackends w2)"
      "seen w2 = seen w \<union> AbsolutePath ` set (new @ new')"
      using assms by (auto simp: walked_def)
    show "distinct (map AbsolutePath (new @ new'))" using assms disj by (auto simp: walked_def)
    show "AbsolutePath ` set (new @ new') \<inter> seen w = {}" using assms by (auto simp: walked_def)
    show "\<forall>f \<in> set (new @ new'). faithful env backends dir f \<and> includesOf env (AbsolutePath f) \<subseteq> seen w2"
      using assms unfolding walked_def by (metis Un_iff le_supI1 set_append)
    show "\<forall>n. mget (vclBackends w2) n =
        (if \<exists>f \<in> set (new @ new'). n \<in> backendNames (declsAt env (AbsolutePath f)) then Some False
         else mget (vclBackends w) n)"
      using assms by (auto simp: walked_def)
  qed
qed

lemma seen_put [simp]: "seen (w\<lparr>visitedFiles := mput p True (visitedFiles w)\<rparr>) = insert p (seen w)"
  by (auto simp: seen_def mget_or_def split: if_splits)

lemma seen_other [simp]:
  "seen (w\<lparr>processedFiles := x\<rparr>) = seen w" "seen (w\<lparr>vclBackends := y\<rparr>) = seen w"
  by (simp_all add: seen_def)

text \<open>The result of walking one path, and of the loop over the includes of \<open>p\<close>.\<close>

definition walkedFrom ::
  "'e WalkEnv \<Rightarrow> (string, BackendAddress) gomap \<Rightarrow> string \<Rightarrow> string \<Rightarrow> includeWalker \<Rightarrow> includeWalker \<Rightarrow>
   ProcessedVCLFile list \<Rightarrow> bool" where
  "walkedFrom env backends dir path w w' new \<longleftrightarrow>
     (\<exists>p. Abs (env_cwd env) path = Inr p \<and> p \<in> seen w' \<and> walked env backends dir w w' new \<and>
        (p \<notin> seen w \<longrightarrow> new \<noteq> [] \<and> AbsolutePath (hd new) = p) \<and>
        (\<forall>f \<in> set new. included env p (AbsolutePath f)))"

definition walkDecl ::
  "(string \<Rightarrow> includeWalker \<Rightarrow> ('e WalkError, includeWalker) result) \<Rightarrow> string \<Rightarrow> Declaration \<Rightarrow>
   includeWalker \<Rightarrow> ('e WalkError, includeWalker) result" where
  "walkDecl walk p decl w =
     (case decl of
        IncludeDecl q \<Rightarrow> (case walk (includePathOf p q) w of
           Inl err \<Rightarrow> Inl (ProcessingInclude q err) | Inr w' \<Rightarrow> Inr w')
      | _ \<Rightarrow> Inr w)"

lemma walkDecl_walked:
  assumes IH: "\<And>path w w'. walk path w = Inr w' \<Longrightarrow> \<exists>new. walkedFrom env backends dir path w w' new"
    and run: "walkDecl walk p decl w = Inr w'" and decl: "decl \<in> set (declsAt env p)"
  shows "\<exists>new. walked env backends dir w w' new \<and>
    (\<forall>f \<in> set new. included env p (AbsolutePath f)) \<and>
    (\<forall>q r. decl = IncludeDecl q \<longrightarrow> Abs (env_cwd env) (includePathOf p q) = Inr r \<longrightarrow> r \<in> seen w')"
proof (cases "\<exists>q. decl = IncludeDecl q")
  case False
  with run have "w' = w" by (auto simp: walkDecl_def split: Declaration.splits)
  with False walked_refl show ?thesis by fastforce
next
  case True
  then obtain q where q: "decl = IncludeDecl q" by blast
  with run have "walk (includePathOf p q) w = Inr w'" by (auto simp: walkDecl_def split: sum.splits)
  from IH[OF this] obtain r new where r: "Abs (env_cwd env) (includePathOf p q) = Inr r"
    "r \<in> seen w'" "walked env backends dir w w' new" "\<forall>f \<in> set new. included env r (AbsolutePath f)"
    unfolding walkedFrom_def by blast
  have "r \<in> includesOf env p" using q r(1) decl by (auto simp: includesOf_def)
  then have "included env p r" by (rule included_step[OF included_refl])
  with r q show ?thesis by (auto intro: included_trans)
qed

lemma walkDecls_walked:
  assumes IH: "\<And>path w w'. walk path w = Inr w' \<Longrightarrow> \<exists>new. walkedFrom env backends dir path w w' new"
    and "foldE (walkDecl walk p) decls w = Inr w'" "set decls \<subseteq> set (declsAt env p)"
  shows "\<exists>new. walked env backends dir w w' new \<and>
    (\<forall>f \<in> set new. included env p (AbsolutePath f)) \<and>
    (\<forall>q r. IncludeDecl q \<in> set decls \<longrightarrow> Abs (env_cwd env) (includePathOf p q) = Inr r \<longrightarrow> r \<in> seen w')"
  using assms(2,3)
proof (induction decls arbitrary: w)
  case Nil
  then show ?case using walked_refl by fastforce
next
  case (Cons decl decls)
  then obtain w1 where w1: "walkDecl walk p decl w = Inr w1" "foldE (walkDecl walk p) decls w1 = Inr w'"
    by (auto split: sum.splits)
  obtain new where n: "walked env backends dir w w1 new"
    "\<forall>f \<in> set new. included env p (AbsolutePath f)"
    "\<forall>q r. decl = IncludeDecl q \<longrightarrow> Abs (env_cwd env) (includePathOf p q) = Inr r \<longrightarrow> r \<in> seen w1"
    using walkDecl_walked[OF IH w1(1)] Cons.prems(2) by auto
  obtain new' where n': "walked env backends dir w1 w' new'"
    "\<forall>f \<in> set new'. included env p (AbsolutePath f)"
    "\<forall>q r. IncludeDecl q \<in> set decls \<longrightarrow> Abs (env_cwd env) (includePathOf p q) = Inr r \<longrightarrow> r \<in> seen w'"
    using Cons.IH[OF w1(2)] Cons.prems(2) by auto
  have "seen w1 \<subseteq> seen w'" using n'(1) by (auto simp: walked_def)
  with n n' walked_trans[OF n(1) n'(1)] show ?case
    by (intro exI[of _ "new @ new'"]) auto
qed

text \<open>The state in which the loop over the includes of \<open>p\<close> starts.\<close>

definition enterFile ::
  "'e WalkEnv \<Rightarrow> (string, BackendAddress) gomap \<Rightarrow> string \<Rightarrow> string \<Rightarrow> Program \<Rightarrow> includeWalker \<Rightarrow> includeWalker" where
  "enterFile env backends dir p pr w =
     w\<lparr>visitedFiles := mput p True (visitedFiles w),
       vclBackends := collectBackends (Declarations pr) (vclBackends w),
       processedFiles := processedFiles w @ [processFile env backends dir p pr]\<rparr>"

lemma walkFile_enter:
  assumes "Abs (env_cwd env) path = Inr p" "p \<notin> seen w" "programAt env p = Some pr"
  shows "walkFile (Suc d) env backends dir path w =
    foldE (walkDecl (walkFile d env backends dir) p) (Declarations pr) (enterFile env backends dir p pr w)"
  using assms unfolding walkDecl_def enterFile_def
  by (auto simp: seen_def programAt_def Let_def split: sum.splits)

lemma enterFile_walked:
  assumes "p \<notin> seen w" "programAt env p = Some pr"
    and n: "walked env backends dir (enterFile env backends dir p pr w) w' new"
    and inc: "\<forall>q r. IncludeDecl q \<in> set (Declarations pr) \<longrightarrow>
         Abs (env_cwd env) (includePathOf p q) = Inr r \<longrightarrow> r \<in> seen w'"
  shows "walked env backends dir w w' (processFile env backends dir p pr # new)"
proof -
  let ?f = "processFile env backends dir p pr"
  have f: "AbsolutePath ?f = p" by (simp add: processFile_def)
  have decls: "declsAt env p = Declarations pr" using assms(2) by (simp add: declsAt_def)
  have seen: "seen (enterFile env backends dir p pr w) = insert p (seen w)"
    by (simp add: enterFile_def)
  note n = n[unfolded walked_def seen]
  show ?thesis unfolding walked_def
  proof (intro conjI)
    show "processedFiles w' = processedFiles w @ ?f # new" using n by (simp add: enterFile_def)
    show "seen w' = seen w \<union> AbsolutePath ` set (?f # new)" using n f by auto
    show "AbsolutePath ` set (?f # new) \<inter> seen w = {}" using n f assms(1) by auto
    show "distinct (map AbsolutePath (?f # new))" using n f by auto
    show "wf_map (vclBackends w) \<longrightarrow> wf_map (vclBackends w')"
      using n by (simp add: enterFile_def collectBackends_wf)
    show "\<forall>g \<in> set (?f # new). faithful env backends dir g \<and> includesOf env (AbsolutePath g) \<subseteq> seen w'"
    proof
      fix g assume "g \<in> set (?f # new)"
      then consider (main) "g = ?f" | (new) "g \<in> set new" by auto
      then show "faithful env backends dir g \<and> includesOf env (AbsolutePath g) \<subseteq> seen w'"
      proof cases
        case main
        with inc f assms(2) decls show ?thesis by (auto simp: faithful_def includesOf_def)
      next
        case new
        with n show ?thesis by blast
      qed
    qed
    show "\<forall>k. mget (vclBackends w') k =
        (if \<exists>g \<in> set (?f # new). k \<in> backendNames (declsAt env (AbsolutePath g)) then Some False
         else mget (vclBackends w) k)"
      using n f decls by (auto simp: enterFile_def collectBackends_get)
  qed
qed

lemma walkFile_walked:
  "walkFile d env backends dir path w = Inr w' \<Longrightarrow> \<exists>new. walkedFrom env backends dir path w w' new"
proof (induction d arbitrary: path w w')
  case 0
  then show ?case by simp
next
  case (Suc d)
  from Suc.prems obtain p where p: "Abs (env_cwd env) path = Inr p" by (auto split: sum.splits)
  show ?case
  proof (cases "p \<in> seen w")
    case True
    with Suc.prems p have "w' = w" by (simp add: seen_def)
    with True p walked_refl show ?thesis by (fastforce simp: walkedFrom_def)
  next
    case False
    with Suc.prems p obtain pr where pr: "programAt env p = Some pr"
      by (auto simp: seen_def programAt_def Let_def split: sum.splits)
    have sub: "set (Declarations pr) \<subseteq> set (declsAt env p)" using pr by (simp add: declsAt_def)
    obtain new where n: "walked env backends dir (enterFile env backends dir p pr w) w' new"
      "\<forall>f \<in> set new. included env p (AbsolutePath f)"
      "\<forall>q r. IncludeDecl q \<in> set (Declarations pr) \<longrightarrow>
         Abs (env_cwd env) (includePathOf p q) = Inr r \<longrightarrow> r \<in> seen w'"
      using walkDecls_walked[OF Suc.IH _ sub] Suc.prems[unfolded walkFile_enter[OF p False pr]] by blast
    let ?f = "processFile env backends dir p pr"
    have "AbsolutePath ?f = p" by (simp add: processFile_def)
    moreover note wk = enterFile_walked[OF False pr n(1,3)]
    moreover have "p \<in> seen w'" using wk calculation(1) unfolding walked_def by auto
    ultimately show ?thesis
      using p n(2) unfolding walkedFrom_def
      by (intro exI[of _ "?f # new"] exI[of _ p]) (auto intro: included_refl)
  qed
qed

section \<open>The walk returns\<close>

text \<open>
  A walk at remaining depth \<open>d\<close> has at least \<open>maxIncludeDepth - d\<close> files seen, the ones
  on the include stack. So the depth bound is never met while the tree has fewer files than
  the bound.
\<close>

definition readable :: "'e WalkEnv \<Rightarrow> string set \<Rightarrow> bool" where
  "readable env S \<longleftrightarrow>
     (\<exists>wd. env_cwd env = Inr wd) \<and> (\<forall>p \<in> S. programAt env p \<noteq> None \<and> includesOf env p \<subseteq> S)"

lemma walkDecls_returns:
  assumes walk: "\<And>path q w. Abs (env_cwd env) path = Inr q \<Longrightarrow> q \<in> S \<Longrightarrow> seen w \<subseteq> S \<Longrightarrow> N \<le> card (seen w) \<Longrightarrow>
      \<exists>w'. walk path w = Inr w' \<and> seen w \<subseteq> seen w' \<and> seen w' \<subseteq> S"
    and S: "finite S" "p \<in> S" "readable env S"
    and "set decls \<subseteq> set (declsAt env p)" "seen w \<subseteq> S" "N \<le> card (seen w)"
  shows "\<exists>w'. foldE (walkDecl walk p) decls w = Inr w' \<and> seen w \<subseteq> seen w' \<and> seen w' \<subseteq> S"
  using assms(5-)
proof (induction decls arbitrary: w)
  case Nil
  then show ?case by auto
next
  case (Cons decl decls)
  have "\<exists>w1. walkDecl walk p decl w = Inr w1 \<and> seen w \<subseteq> seen w1 \<and> seen w1 \<subseteq> S"
  proof (cases "\<exists>q. decl = IncludeDecl q")
    case False
    with Cons.prems show ?thesis by (auto simp: walkDecl_def split: Declaration.splits)
  next
    case True
    then obtain q where q: "decl = IncludeDecl q" by blast
    obtain r where r: "Abs (env_cwd env) (includePathOf p q) = Inr r"
      using S(3) Abs_total unfolding readable_def by metis
    have "r \<in> S" using q r Cons.prems(1) S(2,3) by (auto simp: readable_def includesOf_def)
    from walk[OF r this Cons.prems(2,3)] obtain w1 where
      "walk (includePathOf p q) w = Inr w1" "seen w \<subseteq> seen w1" "seen w1 \<subseteq> S" by blast
    with q show ?thesis by (auto simp: walkDecl_def)
  qed
  then obtain w1 where w1: "walkDecl walk p decl w = Inr w1" "seen w \<subseteq> seen w1" "seen w1 \<subseteq> S" by blast
  have "N \<le> card (seen w1)"
    using Cons.prems(3) w1(2,3) S(1) by (meson card_mono finite_subset le_trans)
  with Cons.IH[of w1] w1 Cons.prems(1) show ?case by fastforce
qed

lemma walkFile_returns:
  assumes S: "finite S" "readable env S" "card S < d + N"
  shows "Abs (env_cwd env) path = Inr p \<Longrightarrow> p \<in> S \<Longrightarrow> seen w \<subseteq> S \<Longrightarrow> N \<le> card (seen w) \<Longrightarrow>
    \<exists>w'. walkFile d env backends dir path w = Inr w' \<and> seen w \<subseteq> seen w' \<and> seen w' \<subseteq> S"
  using S(3)
proof (induction d arbitrary: path p w N)
  case 0
  then have "card (seen w) \<le> card S" using S(1) card_mono by blast
  with 0 show ?case by simp
next
  case (Suc d)
  show ?case
  proof (cases "p \<in> seen w")
    case True
    with Suc.prems show ?thesis by (auto simp: seen_def)
  next
    case False
    from S(2) Suc.prems(2) obtain pr where pr: "programAt env p = Some pr" by (auto simp: readable_def)
    let ?w = "enterFile env backends dir p pr w"
    have seen: "seen ?w = insert p (seen w)" by (simp add: enterFile_def)
    have "finite (seen w)" using Suc.prems(3) S(1) finite_subset by blast
    with False Suc.prems(4) have card: "Suc N \<le> card (seen ?w)" by (simp add: seen)
    have "\<exists>w'. foldE (walkDecl (walkFile d env backends dir) p) (Declarations pr) ?w = Inr w' \<and>
        seen ?w \<subseteq> seen w' \<and> seen w' \<subseteq> S"
    proof (rule walkDecls_returns[OF _ S(1) Suc.prems(2) S(2) _ _ card])
      show "\<exists>w'. walkFile d env backends dir path w = Inr w' \<and> seen w \<subseteq> seen w' \<and> seen w' \<subseteq> S"
        if "Abs (env_cwd env) path = Inr q" "q \<in> S" "seen w \<subseteq> S" "Suc N \<le> card (seen w)" for path q w
        using Suc.IH[OF that] Suc.prems(5) by simp
      show "set (Declarations pr) \<subseteq> set (declsAt env p)" using pr by (simp add: declsAt_def)
      show "seen ?w \<subseteq> S" using seen Suc.prems(2,3) by simp
    qed
    then show ?thesis
      unfolding walkFile_enter[OF Suc.prems(1) False pr] using seen by auto
  qed
qed

section \<open>Properties\<close>

text \<open>
  C28. Replacing backend addresses: a backend named in the test gets exactly the
  mock's address on every host and port property, missing ones are added, and its other
  properties keep their values and order; every other declaration is unchanged; doing it
  twice changes nothing more.
\<close>

theorem modify_sets_addresses:
  "modifyProgram backends (modifyProgram backends pr) = modifyProgram backends pr \<and>
   map (modifyDecl backends) (Declarations pr) = Declarations (modifyProgram backends pr) \<and>
   (\<forall>addr n props. mget backends n = Some addr \<longrightarrow>
      (\<exists>props'. modifyDecl backends (BackendDecl n props) = BackendDecl n props' \<and>
         addressed addr props' \<and>
         filter (\<lambda>p. \<not> is_address_prop p) props' = filter (\<lambda>p. \<not> is_address_prop p) props)) \<and>
   (\<forall>d. (\<forall>n props. d = BackendDecl n props \<longrightarrow> mget backends n = None) \<longrightarrow> modifyDecl backends d = d)"
proof (intro conjI)
  show "modifyProgram backends (modifyProgram backends pr) = modifyProgram backends pr"
    by (simp add: modifyProgram_def modifyDecl_idem)
  show "\<forall>d. (\<forall>n props. d = BackendDecl n props \<longrightarrow> mget backends n = None) \<longrightarrow> modifyDecl backends d = d"
    by (auto simp: modifyDecl_def split: Declaration.split)
qed (auto simp: modifyProgram_def modifyDecl_def modifyProperties_addressed modifyProperties_others)

theorem modify_sets_addresses_witness:
  "\<exists>props'. modifyDecl [(''api'', \<lparr>Host = ''127.0.0.1'', Port = ''8080''\<rparr>)] (BackendDecl ''api'' []) =
       BackendDecl ''api'' props' \<and>
     addressed \<lparr>Host = ''127.0.0.1'', Port = ''8080''\<rparr> props'"
proof -
  have "mget [(''api'', \<lparr>Host = ''127.0.0.1'', Port = ''8080''\<rparr>)] ''api'' =
      Some \<lparr>Host = ''127.0.0.1'', Port = ''8080''\<rparr>" by (simp add: mget_def)
  with modify_sets_addresses[of "[(''api'', \<lparr>Host = ''127.0.0.1'', Port = ''8080''\<rparr>)]"
      "\<lparr>VCLVersion = None, Declarations = []\<rparr>"]
  show ?thesis by blast
qed

text \<open>
  The single-pass routine is the two separate ones: validating and modifying in
  one parse succeeds iff validation does, with the modified source and the same validation
  result, and fails with the same error otherwise.
\<close>

lemma validate_and_modify_agrees:
  "ValidateAndModifyBackends uni ordN ordW parse render src path backends =
     (case ValidateBackends uni ordN ordW parse src path backends of
        Inl err \<Rightarrow> Inl err
      | Inr result \<Rightarrow>
          (case ModifyBackends parse render src path backends of
             Inl err \<Rightarrow> Inl err | Inr vcl \<Rightarrow> Inr (vcl, result)))"
  by (simp add: ValidateAndModifyBackends_def ValidateBackends_def ModifyBackends_def Let_def
      split: sum.splits)

text \<open>
  C32. Backend validation accepts a test iff every backend it defines is declared in
  the VCL; otherwise it reports one error per missing backend. It warns exactly once about
  each VCL backend the test does not define. The iteration order of Go's maps plays no part.
\<close>

theorem validation_accepts_declared:
  assumes "range_order ordN" "range_order ordW" "parse src path = Inr root"
  shows "(is_ok (ValidateBackends uni ordN ordW parse src path ys) \<longleftrightarrow>
       set (mkeys ys) \<subseteq> backendNames (Declarations root)) \<and>
    (\<forall>r. ValidateBackends uni ordN ordW parse src path ys = Inr r \<or>
         ValidateBackends uni ordN ordW parse src path ys = Inl (ValidationFailed r) \<longrightarrow>
       map (\<lambda>e. case e of NotFoundInVCL y names s \<Rightarrow> y) (vr_Errors r) =
         filter (\<lambda>y. y \<notin> backendNames (Declarations root)) (mkeys ys) \<and>
       distinct (vr_Warnings r) \<and>
       set (vr_Warnings r) = NotUsedInTest ` (backendNames (Declarations root) - set (mkeys ys)))"
proof -
  let ?vcl = "collectBackends (Declarations root) []"
  let ?r = "validateNames uni ordN ordW ?vcl ys"
  have get: "mget ?vcl n = (if n \<in> backendNames (Declarations root) then Some False else None)" for n
    by (simp add: collectBackends_get)
  have wf: "wf_map ?vcl" by (simp add: collectBackends_wf)
  have nt: "mget ?vcl n \<noteq> Some True" for n by (simp add: get)
  note spec = validateNames_spec[OF assms(1,2) wf nt, of uni ys]
  have errs: "vr_Errors ?r = map (notFound uni (ordN (mkeys ?vcl)))
      (filter (\<lambda>y. y \<notin> backendNames (Declarations root)) (mkeys ys))"
    using spec(1) by (simp add: get)
  have v: "ValidateBackends uni ordN ordW parse src path ys =
      (if vr_Errors ?r = [] then Inr ?r else Inl (ValidationFailed ?r))"
    using assms(3) by (simp add: ValidateBackends_def Let_def)
  have "vr_Errors ?r = [] \<longleftrightarrow> set (mkeys ys) \<subseteq> backendNames (Declarations root)"
    using errs by (auto simp: filter_empty_conv)
  moreover have "map (\<lambda>e. case e of NotFoundInVCL y names s \<Rightarrow> y) (vr_Errors ?r) =
      filter (\<lambda>y. y \<notin> backendNames (Declarations root)) (mkeys ys)"
    using errs by (simp add: notFound_def comp_def)
  moreover have "set (vr_Warnings ?r) = NotUsedInTest ` (backendNames (Declarations root) - set (mkeys ys))"
    using spec(3) by (auto simp: get split: if_splits)
  ultimately show ?thesis using v spec(2) by (auto simp: is_ok_iff split: if_splits)
qed

definition sample_vcl :: Program where
  "sample_vcl = \<lparr>VCLVersion = Some ''4.1'', Declarations = [BackendDecl ''api'' [], IncludeDecl ''b.vcl'']\<rparr>"

theorem validation_accepts_declared_witness:
  "range_order rev \<and> is_ok (ValidateBackends id rev rev (\<lambda>s p. Inr sample_vcl :: nat + Program) ''src'' ''m.vcl''
     [(''api'', \<lparr>Host = ''h'', Port = ''1''\<rparr>)])"
  using validation_accepts_declared[of rev rev "\<lambda>s p. Inr sample_vcl :: nat + Program" "''src''" "''m.vcl''"
      sample_vcl id "[(''api'', \<lparr>Host = ''h'', Port = ''1''\<rparr>)]"]
  by (auto simp: sample_vcl_def backendNames_def mkeys_def)

text \<open>
  C22. A successful walk of the include tree yields the main file first, then exactly
  the files reachable through includes, each once: every file's content is its source parsed,
  with its backends' addresses replaced, and every backend the test defines is declared in
  one of them.
\<close>

theorem include_walk_complete:
  assumes "range_order ordN" "range_order ordW"
    and "ProcessVCLWithIncludes uni ordN ordW env main backends = Inr (files, result)"
  shows "\<exists>p. Abs (env_cwd env) main = Inr p \<and> files \<noteq> [] \<and> AbsolutePath (hd files) = p \<and>
    distinct (map AbsolutePath files) \<and>
    AbsolutePath ` set files = {q. included env p q} \<and>
    (\<forall>f \<in> set files. \<exists>pr. programAt env (AbsolutePath f) = Some pr \<and>
       Content f = env_render env (modifyProgram backends pr)) \<and>
    set (mkeys backends) \<subseteq> (\<Union>f \<in> set files. backendNames (declsAt env (AbsolutePath f)))"
proof -
  obtain w where w: "walkFile maxIncludeDepth env backends (Dir main) main emptyWalker = Inr w"
    and files: "files = processedFiles w"
    and ok: "vr_Errors (validateNames uni ordN ordW (vclBackends w) backends) = []"
    using assms(3) by (auto simp: ProcessVCLWithIncludes_def Let_def split: sum.splits if_splits)
  have empty: "seen emptyWalker = {}" "processedFiles emptyWalker = []" "vclBackends emptyWalker = []"
    by (simp_all add: emptyWalker_def seen_def mget_or_def)
  obtain p new where p: "Abs (env_cwd env) main = Inr p" "walked env backends (Dir main) emptyWalker w new"
    "new \<noteq> []" "AbsolutePath (hd new) = p" "\<forall>f \<in> set new. included env p (AbsolutePath f)"
    using walkFile_walked[OF w] empty(1) unfolding walkedFrom_def by blast
  note wk = p(2)[unfolded walked_def empty]
  have seen: "seen w = AbsolutePath ` set new" "files = new" using wk files by simp_all
  have closed: "included env a q \<Longrightarrow> a \<in> seen w \<Longrightarrow> q \<in> seen w" for a q
    by (induction rule: included.induct) (use wk seen in auto)
  have "p \<in> seen w" using p(3,4) seen by (metis hd_in_set imageI)
  with closed p(5) seen have paths: "AbsolutePath ` set files = {q. included env p q}" by auto
  have get: "mget (vclBackends w) n = (if \<exists>f \<in> set new. n \<in> backendNames (declsAt env (AbsolutePath f))
      then Some False else None)" for n using wk by simp
  have "set (mkeys backends) \<subseteq> (\<Union>f \<in> set new. backendNames (declsAt env (AbsolutePath f)))"
  proof
    fix y assume y: "y \<in> set (mkeys backends)"
    have "wf_map (vclBackends w)" "\<And>n. mget (vclBackends w) n \<noteq> Some True" using wk get by simp_all
    from validateNames_spec(1)[OF assms(1,2) this, of uni backends] ok
    have "filter (\<lambda>y. mget (vclBackends w) y = None) (mkeys backends) = []" by simp
    with y have "mget (vclBackends w) y \<noteq> None" by (simp add: filter_empty_conv)
    then show "y \<in> (\<Union>f \<in> set new. backendNames (declsAt env (AbsolutePath f)))"
      by (simp add: get split: if_splits)
  qed
  moreover have "\<exists>pr. programAt env (AbsolutePath f) = Some pr \<and>
      Content f = env_render env (modifyProgram backends pr)" if "f \<in> set new" for f
    using wk that unfolding faithful_def processFile_def modifyBackendsInAST_def
    by (metis ProcessedVCLFile.select_convs(3))
  ultimately show ?thesis using p paths seen wk by auto
qed

definition sample_env :: "nat WalkEnv" where
  "sample_env =
     \<lparr>env_cwd = Inr ''/w'', env_readFile = (\<lambda>p. Inr p),
      env_parse = (\<lambda>c p. Inr (if p = ''/w/m.vcl'' then sample_vcl
                            else \<lparr>VCLVersion = None, Declarations = [IncludeDecl ''m.vcl'']\<rparr>)),
      env_render = (\<lambda>pr. Itoa (int (length (Declarations pr))))\<rparr>"

lemma sample_paths:
  "Abs (Inr ''/w'' :: nat + string) ''/w/m.vcl'' = Inr ''/w/m.vcl''"
  "Abs (Inr ''/w'' :: nat + string) ''/w/b.vcl'' = Inr ''/w/b.vcl''"
  "includePathOf ''/w/m.vcl'' ''b.vcl'' = ''/w/b.vcl''"
  "includePathOf ''/w/b.vcl'' ''m.vcl'' = ''/w/m.vcl''"
proof -
  have c: "Clean ''/w/m.vcl'' = ''/w/m.vcl''" "Clean ''/w/b.vcl'' = ''/w/b.vcl''"
    "Dir ''/w/m.vcl'' = ''/w''" "Dir ''/w/b.vcl'' = ''/w''"
    "PathJoin [''/w'', ''m.vcl''] = ''/w/m.vcl''" "PathJoin [''/w'', ''b.vcl''] = ''/w/b.vcl''"
    by code_simp+
  show "Abs (Inr ''/w'' :: nat + string) ''/w/m.vcl'' = Inr ''/w/m.vcl''"
    "Abs (Inr ''/w'' :: nat + string) ''/w/b.vcl'' = Inr ''/w/b.vcl''"
    "includePathOf ''/w/m.vcl'' ''b.vcl'' = ''/w/b.vcl''"
    "includePathOf ''/w/b.vcl'' ''m.vcl'' = ''/w/m.vcl''"
    by (simp_all add: Abs_def includePathOf_def c)
qed

text \<open>Two files that include each other are walked, the main file first.\<close>

lemma sample_walk:
  "map_sum id (\<lambda>(fs, r). map AbsolutePath fs)
     (ProcessVCLWithIncludes id id id sample_env ''/w/m.vcl'' [(''api'', \<lparr>Host = ''h'', Port = ''1''\<rparr>)]) =
   Inr [''/w/m.vcl'', ''/w/b.vcl'']"
  by (simp add: ProcessVCLWithIncludes_def maxIncludeDepth_def numeral_eq_Suc sample_env_def sample_paths
      emptyWalker_def mget_or_def mget_def mput_def Let_def sample_vcl_def processFile_def
      collectBackends_def validateNames_def mkeys_def checkYaml_step)

lemma sample_files:
  obtains files result where
    "ProcessVCLWithIncludes id id id sample_env ''/w/m.vcl'' [(''api'', \<lparr>Host = ''h'', Port = ''1''\<rparr>)] =
       Inr (files, result)"
    "map AbsolutePath files = [''/w/m.vcl'', ''/w/b.vcl'']"
  using sample_walk
  by (cases "ProcessVCLWithIncludes id id id sample_env ''/w/m.vcl'' [(''api'', \<lparr>Host = ''h'', Port = ''1''\<rparr>)]") auto

theorem include_walk_complete_witness:
  "\<exists>files result. ProcessVCLWithIncludes id id id sample_env ''/w/m.vcl''
       [(''api'', \<lparr>Host = ''h'', Port = ''1''\<rparr>)] = Inr (files, result) \<and>
     {q. included sample_env ''/w/m.vcl'' q} = {''/w/m.vcl'', ''/w/b.vcl''}"
proof -
  obtain files result where f:
    "ProcessVCLWithIncludes id id id sample_env ''/w/m.vcl'' [(''api'', \<lparr>Host = ''h'', Port = ''1''\<rparr>)] =
       Inr (files, result)" "map AbsolutePath files = [''/w/m.vcl'', ''/w/b.vcl'']"
    by (rule sample_files)
  have "range_order (id :: string list \<Rightarrow> _)" "range_order (id :: (string \<times> bool) list \<Rightarrow> _)"
    by (simp_all add: range_order_def)
  from include_walk_complete[OF this f(1)] obtain p where
    p: "AbsolutePath (hd files) = p" "files \<noteq> []" "AbsolutePath ` set files = {q. included sample_env p q}"
    by blast
  from f(2) p(1,2) have "p = ''/w/m.vcl''" by (cases files) auto
  moreover have "AbsolutePath ` set files = {''/w/m.vcl'', ''/w/b.vcl''}"
    using f(2) by (simp flip: set_map)
  ultimately have "{q. included sample_env ''/w/m.vcl'' q} = {''/w/m.vcl'', ''/w/b.vcl''}"
    using p(3) by simp
  with f(1) show ?thesis by (intro exI[of _ files] exI[of _ result] conjI)
qed

text \<open>
  C30. The include walk always ends, also on circular includes, and it succeeds on
  every tree of fewer than ten files that can be read and parsed: the depth limit is not met.
\<close>

theorem include_walk_succeeds:
  assumes "Abs (env_cwd env) main = Inr p" "finite S" "p \<in> S" "readable env S"
    and "card S < maxIncludeDepth"
  shows "(\<exists>r. ProcessVCLWithIncludes uni ordN ordW env main backends = Inr r) \<or>
    (\<exists>r. ProcessVCLWithIncludes uni ordN ordW env main backends = Inl (BackendValidationFailed r))"
proof -
  have "seen emptyWalker = {}" by (simp add: emptyWalker_def seen_def mget_or_def)
  with walkFile_returns[OF assms(2,4), of maxIncludeDepth 0 main p emptyWalker backends "Dir main"] assms
  obtain w where "walkFile maxIncludeDepth env backends (Dir main) main emptyWalker = Inr w" by auto
  then show ?thesis by (simp add: ProcessVCLWithIncludes_def Let_def)
qed

theorem include_walk_succeeds_witness:
  "readable sample_env {''/w/m.vcl'', ''/w/b.vcl''} \<and>
   ((\<exists>r. ProcessVCLWithIncludes id id id sample_env ''/w/m.vcl'' [] = Inr r) \<or>
    (\<exists>r. ProcessVCLWithIncludes id id id sample_env ''/w/m.vcl'' [] = Inl (BackendValidationFailed r)))"
proof -
  have r: "readable sample_env {''/w/m.vcl'', ''/w/b.vcl''}"
    by (auto simp: readable_def sample_env_def programAt_def includesOf_def declsAt_def sample_vcl_def sample_paths)
  have "Abs (env_cwd sample_env) ''/w/m.vcl'' = Inr ''/w/m.vcl''" by (simp add: sample_env_def sample_paths)
  from include_walk_succeeds[OF this _ _ r] r show ?thesis by (simp add: maxIncludeDepth_def)
qed

text \<open>
  C38. With a main VCL path that is relative, the path of every processed file
  relative to the main file is just its base name: the directory of the main file is kept
  relative while the files are tracked by absolute paths, between which Go's \<^verbatim>\<open>Rel\<close> finds no
  relative path. Files of the same name in different directories get the same output path.
\<close>

theorem relative_main_flattens_paths:
  assumes "env_cwd env = Inr wd" "IsAbs wd" "\<not> IsAbs main"
    and "ProcessVCLWithIncludes uni ordN ordW env main backends = Inr (files, result)" "f \<in> set files"
  shows "RelativePath f = Base (AbsolutePath f)"
proof -
  obtain w where w: "walkFile maxIncludeDepth env backends (Dir main) main emptyWalker = Inr w"
    and files: "files = processedFiles w"
    using assms(4) by (auto simp: ProcessVCLWithIncludes_def Let_def split: sum.splits if_splits)
  obtain p new where p: "Abs (env_cwd env) main = Inr p" "walked env backends (Dir main) emptyWalker w new"
    "\<forall>f \<in> set new. included env p (AbsolutePath f)"
    using walkFile_walked[OF w] unfolding walkedFrom_def by blast
  have new: "files = new" using p(2) files by (simp add: walked_def emptyWalker_def)
  have "included env a q \<Longrightarrow> IsAbs a \<Longrightarrow> IsAbs q" for a q
    by (induction rule: included.induct) (use assms(1,2) in \<open>auto simp: includesOf_def dest: Abs_absolute\<close>)
  moreover have "IsAbs p" using p(1) assms(1,2) by (auto dest: Abs_absolute)
  ultimately have abs: "IsAbs (AbsolutePath f)" using p(3) assms(5) new by blast
  have "\<not> IsAbs (upToSlash main)"
    using assms(3) by (cases main) (auto simp: upToSlash_def take_Cons split: nat.split)
  then have "\<not> IsAbs (Dir main)" by (simp add: Dir_def)
  then have "Rel (Dir main) (AbsolutePath f) = None" using abs by (rule Rel_mixed[rotated])
  moreover have "faithful env backends (Dir main) f" using p(2) assms(5) new by (auto simp: walked_def)
  ultimately show ?thesis
    unfolding faithful_def processFile_def by (metis (no_types, lifting) ProcessedVCLFile.select_convs(2) option.simps(4))
qed

definition sample_flat_env :: "nat WalkEnv" where
  "sample_flat_env = \<lparr>env_cwd = Inr ''/w'', env_readFile = Inr,
     env_parse = (\<lambda>c p. Inr \<lparr>VCLVersion = None, Declarations = []\<rparr>), env_render = (\<lambda>pr. [])\<rparr>"

theorem relative_main_flattens_paths_witness:
  "\<exists>f result. ProcessVCLWithIncludes id id id sample_flat_env ''m.vcl'' [] = Inr ([f], result) \<and>
     RelativePath f = Base (AbsolutePath f)"
proof -
  have "Abs (Inr ''/w'' :: nat + string) ''m.vcl'' = Inr ''/w/m.vcl''"
  proof -
    have "PathJoin [''/w'', ''m.vcl''] = ''/w/m.vcl''" by code_simp
    then show ?thesis by (simp add: Abs_def)
  qed
  then obtain f result where f: "ProcessVCLWithIncludes id id id sample_flat_env ''m.vcl'' [] = Inr ([f], result)"
    by (simp add: ProcessVCLWithIncludes_def maxIncludeDepth_def numeral_eq_Suc sample_flat_env_def
        emptyWalker_def mget_or_def collectBackends_def validateNames_def mkeys_def Let_def)
  have "RelativePath f = Base (AbsolutePath f)"
    by (rule relative_main_flattens_paths[OF _ _ _ f, of "''/w''"]) (simp_all add: sample_flat_env_def)
  with f show ?thesis by blast
qed

end
