(* ===== verification/TestSpec.thy ===== *)
theory TestSpec
  imports GoPaths GoMaps
begin

text \<open>
  Package \<^verbatim>\<open>testspec\<close> (\<^verbatim>\<open>types.go\<close>, \<^verbatim>\<open>loader.go\<close>): the test specification, its
  validation and defaults, loading a test file, and finding the VCL file of a test. The
  YAML decoder and the file system are parameters.
\<close>

section \<open>Types\<close>

record RequestSpec =
  req_Method :: string
  req_URL :: string
  req_Headers :: "(string, string) gomap"
  req_Body :: string

record RouteSpec =
  rt_Status :: int
  rt_Headers :: "(string, string) gomap"
  rt_Body :: string
  rt_FailureMode :: string
  rt_EchoRequest :: bool

text \<open>\<open>None\<close> is a nil map, where the code distinguishes it.\<close>

record BackendSpec =
  bs_Status :: int
  bs_Headers :: "(string, string) gomap option"
  bs_Body :: string
  bs_FailureMode :: string
  bs_Routes :: "(string, RouteSpec) gomap option"
  bs_EchoRequest :: bool

record ResponseExpectations =
  exp_Status :: int
  exp_Headers :: "(string, string) gomap"
  exp_BodyContains :: string

record BackendCallExpectation =
  bce_Calls :: int

record BackendExpectations =
  be_Name :: string
  be_Calls :: "int option"
  be_Used :: string
  be_PerBackend :: "(string, BackendCallExpectation) gomap"

record CacheExpectations =
  ce_Hit :: "bool option"
  ce_AgeGt :: "int option"
  ce_AgeLt :: "int option"

record ExpectationsSpec =
  es_Response :: ResponseExpectations
  es_Backend :: "BackendExpectations option"
  es_Cache :: "CacheExpectations option"
  es_Cookies :: "(string, string) gomap"

record ScenarioStep =
  st_At :: string
  st_Request :: RequestSpec
  st_Backends :: "(string, BackendSpec) gomap"
  st_Expectations :: ExpectationsSpec

record TestSpec =
  ts_Name :: string
  ts_Request :: RequestSpec
  ts_Backends :: "(string, BackendSpec) gomap"
  ts_Expectations :: ExpectationsSpec
  ts_Scenario :: "ScenarioStep list"

text \<open>
  \<^verbatim>\<open>UnmarshalYAML\<close>: the results of decoding the node into a string and into the
  structure are those of the YAML library. Decoding into the structure writes to it, and
  may do so before it fails.
\<close>

definition UnmarshalYAML ::
  "('e, string) result \<Rightarrow> (BackendExpectations \<Rightarrow> 'e option \<times> BackendExpectations) \<Rightarrow>
   BackendExpectations \<Rightarrow> 'e option \<times> BackendExpectations" where
  "UnmarshalYAML asString asObject b =
     (case asString of Inr simple \<Rightarrow> (None, b\<lparr>be_Name := simple\<rparr>) | Inl e \<Rightarrow> asObject b)"

section \<open>Defaults\<close>

definition IsScenario :: "TestSpec \<Rightarrow> bool" where
  "IsScenario t \<longleftrightarrow> length (ts_Scenario t) > 0"

definition defaultRequest :: "RequestSpec \<Rightarrow> RequestSpec" where
  "defaultRequest r = (if req_Method r = [] then r\<lparr>req_Method := ''GET''\<rparr> else r)"

definition defaultBackend :: "BackendSpec \<Rightarrow> BackendSpec" where
  "defaultBackend spec =
     (let s1 = (if bs_Status spec = 0 then spec\<lparr>bs_Status := 404\<rparr> else spec)
      in if bs_Headers s1 = None then s1\<lparr>bs_Headers := Some []\<rparr> else s1)"

text \<open>A loop that stores a new value under every key it visits.\<close>

definition updateEach :: "('v \<Rightarrow> 'v) \<Rightarrow> ('k, 'v) gomap \<Rightarrow> ('k, 'v) gomap" where
  "updateEach f m = map (\<lambda>(name, spec). (name, f spec)) m"

definition defaultExpectations :: "ExpectationsSpec \<Rightarrow> ExpectationsSpec" where
  "defaultExpectations e =
     (if exp_Status (es_Response e) = 0
      then e\<lparr>es_Response := (es_Response e)\<lparr>exp_Status := 200\<rparr>\<rparr> else e)"

definition defaultStep :: "ScenarioStep \<Rightarrow> ScenarioStep" where
  "defaultStep s =
     s\<lparr>st_Request := defaultRequest (st_Request s),
       st_Backends := updateEach defaultBackend (st_Backends s),
       st_Expectations := defaultExpectations (st_Expectations s)\<rparr>"

definition ApplyDefaults :: "TestSpec \<Rightarrow> TestSpec" where
  "ApplyDefaults t =
     (if length (ts_Scenario t) = 0
      then t\<lparr>ts_Request := defaultRequest (ts_Request t),
             ts_Backends := updateEach defaultBackend (ts_Backends t),
             ts_Expectations := defaultExpectations (ts_Expectations t)\<rparr>
      else t\<lparr>ts_Scenario := map defaultStep (ts_Scenario t)\<rparr>)"

section \<open>Validation\<close>

datatype SpecError =
    NameRequired
  | BothScenarioAndRequest
  | NeitherScenarioNorRequest
  | ResponseStatusRequired
  | ScenarioEmpty
  | StepAtRequired nat
  | StepURLRequired nat
  | StepStatusRequired nat
  | InvalidFailureMode string string

definition validateBackendSpec :: "BackendSpec \<Rightarrow> string \<Rightarrow> SpecError option" where
  "validateBackendSpec spec context =
     (if bs_FailureMode spec \<in> set [[], ''failed'', ''frozen''] then None
      else Some (InvalidFailureMode context (bs_FailureMode spec)))"

fun validateBackends :: "string \<Rightarrow> (string, BackendSpec) gomap \<Rightarrow> SpecError option" where
  "validateBackends pre [] = None"
| "validateBackends pre ((name, spec) # bs) =
     (case validateBackendSpec spec (pre @ ''backends.'' @ name) of
        Some err \<Rightarrow> Some err | None \<Rightarrow> validateBackends pre bs)"

text \<open>The loop over the scenario; \<open>i\<close> is the index of the step, printed from one.\<close>

fun validateSteps :: "nat \<Rightarrow> ScenarioStep list \<Rightarrow> SpecError option" where
  "validateSteps i [] = None"
| "validateSteps i (step # steps) =
     (if st_At step = [] then Some (StepAtRequired (i + 1))
      else if req_URL (st_Request step) = [] then Some (StepURLRequired (i + 1))
      else if exp_Status (es_Response (st_Expectations step)) = 0
      then Some (StepStatusRequired (i + 1))
      else case validateBackends (''scenario step '' @ Itoa (int (i + 1)) @ '': '') (st_Backends step) of
             Some err \<Rightarrow> Some err
           | None \<Rightarrow> validateSteps (i + 1) steps)"

definition validate :: "TestSpec \<Rightarrow> SpecError option" where
  "validate test =
     (if ts_Name test = [] then Some NameRequired
      else
        let isScenario = length (ts_Scenario test) > 0;
            isSingleRequest = req_URL (ts_Request test) \<noteq> []
        in if isScenario \<and> isSingleRequest then Some BothScenarioAndRequest
           else if \<not> isScenario \<and> \<not> isSingleRequest then Some NeitherScenarioNorRequest
           else
             case (if isSingleRequest
                   then if exp_Status (es_Response (ts_Expectations test)) = 0
                        then Some ResponseStatusRequired
                        else validateBackends [] (ts_Backends test)
                   else None) of
               Some err \<Rightarrow> Some err
             | None \<Rightarrow>
                 if isScenario
                 then if length (ts_Scenario test) = 0 then Some ScenarioEmpty
                      else validateSteps 0 (ts_Scenario test)
                 else None)"

section \<open>Loading\<close>

datatype 'e LoadError =
    ReadingFile 'e
  | ParsingDocument nat 'e
  | InTest nat string SpecError
  | NoDocuments string

text \<open>
  The decode loop. \<open>docs\<close> are the results of the successive \<^verbatim>\<open>Decode\<close> calls before
  \<^verbatim>\<open>io.EOF\<close>.
\<close>

fun loadLoop ::
  "('e, TestSpec) result list \<Rightarrow> nat \<Rightarrow> TestSpec list \<Rightarrow> ('e LoadError, TestSpec list) result" where
  "loadLoop [] docNum tests = Inr tests"
| "loadLoop (Inl err # docs) docNum tests = Inl (ParsingDocument (docNum + 1) err)"
| "loadLoop (Inr test # docs) docNum tests =
     (case validate test of
        Some err \<Rightarrow> Inl (InTest (docNum + 1) (ts_Name test) err)
      | None \<Rightarrow> loadLoop docs (docNum + 1) (tests @ [ApplyDefaults test]))"

definition Load ::
  "(string \<Rightarrow> ('e, string) result) \<Rightarrow> (string \<Rightarrow> ('e, TestSpec) result list) \<Rightarrow> string \<Rightarrow>
   ('e LoadError, TestSpec list) result" where
  "Load readFile decode filename =
     (case readFile filename of
        Inl err \<Rightarrow> Inl (ReadingFile err)
      | Inr data \<Rightarrow>
          (case loadLoop (decode data) 0 [] of
             Inl err \<Rightarrow> Inl err
           | Inr tests \<Rightarrow> if length tests = 0 then Inl (NoDocuments filename) else Inr tests))"

datatype ResolveError = VCLFlagNotFound string | NoVCLFile string

definition ResolveVCL :: "(string \<Rightarrow> bool) \<Rightarrow> string \<Rightarrow> string \<Rightarrow> (ResolveError, string) result" where
  "ResolveVCL exists testFilePath cliVCL =
     (if cliVCL \<noteq> []
      then if exists cliVCL then Inr cliVCL else Inl (VCLFlagNotFound cliVCL)
      else
        let testDir = Dir testFilePath;
            testBase = Base testFilePath;
            testName = TrimSuffix testBase (Ext testBase);
            vclPath = PathJoin [testDir, testName @ ''.vcl'']
        in if exists vclPath then Inr vclPath else Inl (NoVCLFile vclPath))"

section \<open>What validation accepts\<close>

definition valid_failure_mode :: "BackendSpec \<Rightarrow> bool" where
  "valid_failure_mode spec \<longleftrightarrow> bs_FailureMode spec \<in> set [[], ''failed'', ''frozen'']"

definition valid_step :: "ScenarioStep \<Rightarrow> bool" where
  "valid_step s \<longleftrightarrow>
     st_At s \<noteq> [] \<and> req_URL (st_Request s) \<noteq> [] \<and>
     exp_Status (es_Response (st_Expectations s)) \<noteq> 0 \<and>
     list_all valid_failure_mode (map snd (st_Backends s))"

text \<open>A single-request test or a scenario, never both, with the required fields.\<close>

definition valid_spec :: "TestSpec \<Rightarrow> bool" where
  "valid_spec t \<longleftrightarrow>
     ts_Name t \<noteq> [] \<and>
     (if ts_Scenario t = []
      then req_URL (ts_Request t) \<noteq> [] \<and> exp_Status (es_Response (ts_Expectations t)) \<noteq> 0 \<and>
           list_all valid_failure_mode (map snd (ts_Backends t))
      else req_URL (ts_Request t) = [] \<and> list_all valid_step (ts_Scenario t))"

lemma validateBackends_None:
  "validateBackends pre bs = None \<longleftrightarrow> list_all valid_failure_mode (map snd bs)"
  by (induction pre bs rule: validateBackends.induct)
     (auto simp: validateBackendSpec_def valid_failure_mode_def split: option.splits)

lemma validateSteps_None: "validateSteps i steps = None \<longleftrightarrow> list_all valid_step steps"
  by (induction i steps rule: validateSteps.induct)
     (auto simp: valid_step_def validateBackends_None split: option.splits)

lemma validate_None: "validate t = None \<longleftrightarrow> valid_spec t"
  by (auto simp: validate_def valid_spec_def Let_def validateBackends_None validateSteps_None
      split: option.splits)

lemma loadLoop_ok:
  "loadLoop (map Inr docs) k acc = Inr ts \<longleftrightarrow>
     list_all valid_spec docs \<and> ts = acc @ map ApplyDefaults docs"
proof (induction docs arbitrary: k acc)
  case (Cons d ds)
  show ?case
    using Cons validate_None[of d] by (cases "validate d") auto
qed auto

lemma loadLoop_all_decoded:
  "loadLoop docs k acc = Inr ts \<Longrightarrow> \<exists>ds. docs = map Inr ds"
proof (induction docs k acc rule: loadLoop.induct)
  case (3 test docs k acc)
  then obtain ds where "docs = map Inr ds" by (auto split: option.splits)
  then show ?case by (intro exI[of _ "test # ds"]) simp
qed auto

lemma loadLoop_prefix:
  "list_all valid_spec good \<Longrightarrow>
   loadLoop (map Inr good @ docs) k acc = loadLoop docs (k + length good) (acc @ map ApplyDefaults good)"
proof (induction good arbitrary: k acc)
  case (Cons g gs)
  then have "validate g = None" by (simp add: validate_None)
  with Cons show ?case by simp
qed simp

section \<open>Defaulted specifications\<close>

lemma updateEach_set: "snd ` set (updateEach f m) = f ` snd ` set m"
  by (force simp: updateEach_def)

lemma updateEach_get [simp]: "mget (updateEach f m) k = map_option f (mget m k)"
  by (simp add: updateEach_def mget_def map_of_map)

lemma updateEach_idem: "(\<And>x. f (f x) = f x) \<Longrightarrow> updateEach f (updateEach f m) = updateEach f m"
  by (simp add: updateEach_def comp_def case_prod_beta)

lemma default_idem [simp]:
  "defaultRequest (defaultRequest r) = defaultRequest r"
  "defaultBackend (defaultBackend b) = defaultBackend b"
  "defaultExpectations (defaultExpectations e) = defaultExpectations e"
  by (auto simp: defaultRequest_def defaultBackend_def defaultExpectations_def Let_def)

lemma defaultStep_idem [simp]: "defaultStep (defaultStep s) = defaultStep s"
  by (simp add: defaultStep_def updateEach_idem)

definition ready_backend :: "BackendSpec \<Rightarrow> bool" where
  "ready_backend b \<longleftrightarrow> bs_Status b \<noteq> 0 \<and> bs_Headers b \<noteq> None"

definition ready_parts :: "RequestSpec \<Rightarrow> (string, BackendSpec) gomap \<Rightarrow> ExpectationsSpec \<Rightarrow> bool" where
  "ready_parts r bs e \<longleftrightarrow>
     req_Method r \<noteq> [] \<and> exp_Status (es_Response e) \<noteq> 0 \<and> list_all ready_backend (map snd bs)"

text \<open>Every part of a test that is used to run a request is filled in.\<close>

definition ready_spec :: "TestSpec \<Rightarrow> bool" where
  "ready_spec t \<longleftrightarrow>
     (if ts_Scenario t = [] then ready_parts (ts_Request t) (ts_Backends t) (ts_Expectations t)
      else list_all (\<lambda>s. ready_parts (st_Request s) (st_Backends s) (st_Expectations s)) (ts_Scenario t))"

lemma ready_default [simp]:
  "ready_parts (defaultRequest r) (updateEach defaultBackend bs) (defaultExpectations e)"
  by (auto simp: ready_parts_def defaultRequest_def defaultExpectations_def updateEach_def
      list_all_iff ready_backend_def defaultBackend_def Let_def split: if_splits)

lemma ApplyDefaults_ready: "ready_spec (ApplyDefaults t)"
  by (auto simp: ApplyDefaults_def ready_spec_def list_all_iff defaultStep_def)

lemma valid_default [simp]:
  "valid_failure_mode (defaultBackend b) = valid_failure_mode b"
  "req_URL (defaultRequest r) = req_URL r"
  "exp_Status (es_Response (defaultExpectations e)) \<noteq> 0"
  by (auto simp: valid_failure_mode_def defaultBackend_def Let_def defaultRequest_def
      defaultExpectations_def)

lemma valid_backends_default [simp]:
  "list_all valid_failure_mode (map snd (updateEach defaultBackend bs)) =
   list_all valid_failure_mode (map snd bs)"
  by (auto simp: list_all_iff updateEach_def)

lemma ApplyDefaults_valid: "valid_spec t \<Longrightarrow> valid_spec (ApplyDefaults t)"
  by (auto simp: ApplyDefaults_def valid_spec_def list_all_iff[of valid_step] valid_step_def
      defaultStep_def)

lemma ApplyDefaults_idem: "ApplyDefaults (ApplyDefaults t) = ApplyDefaults t"
  by (simp add: ApplyDefaults_def updateEach_idem)

section \<open>Properties\<close>

definition sample_request :: RequestSpec where
  "sample_request = \<lparr>req_Method = [], req_URL = ''/'', req_Headers = [], req_Body = []\<rparr>"

definition sample_expectations :: ExpectationsSpec where
  "sample_expectations =
     \<lparr>es_Response = \<lparr>exp_Status = 200, exp_Headers = [], exp_BodyContains = []\<rparr>,
      es_Backend = None, es_Cache = None, es_Cookies = []\<rparr>"

definition sample_test :: TestSpec where
  "sample_test =
     \<lparr>ts_Name = ''t'', ts_Request = sample_request,
      ts_Backends = [(''api'', \<lparr>bs_Status = 0, bs_Headers = None, bs_Body = ''x'',
                        bs_FailureMode = [], bs_Routes = None, bs_EchoRequest = False\<rparr>)],
      ts_Expectations = sample_expectations, ts_Scenario = []\<rparr>"

lemma sample_test_valid [simp]: "valid_spec sample_test"
  by (simp add: valid_spec_def sample_test_def sample_request_def sample_expectations_def
      valid_failure_mode_def)


text \<open>
  Loading stops at the first bad document and reports its number, counted from
  one: a decoding error as such, a validation error with the name of the test.
\<close>

lemma load_reports_first_bad_document:
  assumes "readFile filename = Inr data" "decode data = map Inr good @ bad # rest"
    and "list_all valid_spec good"
  shows "(\<forall>err. bad = Inl err \<longrightarrow>
      Load readFile decode filename = Inl (ParsingDocument (length good + 1) err)) \<and>
    (\<forall>t. bad = Inr t \<longrightarrow> \<not> valid_spec t \<longrightarrow>
      (\<exists>err. validate t = Some err \<and>
        Load readFile decode filename = Inl (InTest (length good + 1) (ts_Name t) err)))"
proof -
  have bad: "\<exists>err. validate t = Some err" if "\<not> valid_spec t" for t
    using that by (simp add: validate_None flip: not_None_eq)
  have "Load readFile decode filename =
      (case loadLoop (bad # rest) (length good) (map ApplyDefaults good) of Inl err \<Rightarrow> Inl err
       | Inr tests \<Rightarrow> if length tests = 0 then Inl (NoDocuments filename) else Inr tests)"
    using assms by (simp add: Load_def loadLoop_prefix)
  then show ?thesis by (auto dest!: bad)
qed

text \<open>
  C34. Every loaded test is ready to run: its name is set, it is a scenario iff it
  has no request URL, every request has a method, every response expectation a status and
  every backend of a request a status and a header map; a second application of the defaults
  changes nothing.
\<close>

theorem loaded_tests_ready:
  assumes "Load readFile decode filename = Inr ts" "t \<in> set ts"
  shows "valid_spec t \<and> ready_spec t \<and> ApplyDefaults t = t \<and>
    (IsScenario t \<longleftrightarrow> req_URL (ts_Request t) = [])"
proof -
  have "\<exists>docs. list_all valid_spec docs \<and> ts = map ApplyDefaults docs"
  proof -
    from assms(1) obtain data where l: "loadLoop (decode data) 0 [] = Inr ts"
      by (auto simp: Load_def split: sum.splits if_splits)
    then obtain ds where "decode data = map Inr ds" using loadLoop_all_decoded by blast
    with l show ?thesis by (auto simp: loadLoop_ok)
  qed
  then obtain d where d: "t = ApplyDefaults d" "valid_spec d"
    using assms(2) by (auto simp: list_all_iff)
  then have "valid_spec t" by (simp add: ApplyDefaults_valid)
  moreover from this have "IsScenario t \<longleftrightarrow> req_URL (ts_Request t) = []"
    by (auto simp: valid_spec_def IsScenario_def)
  ultimately show ?thesis using d by (simp add: ApplyDefaults_ready ApplyDefaults_idem)
qed

theorem loaded_tests_ready_witness:
  "ApplyDefaults sample_test \<in> set [ApplyDefaults sample_test] \<and> ready_spec (ApplyDefaults sample_test)"
proof -
  have "Load (\<lambda>f. Inr ''doc'') (\<lambda>d. [Inr sample_test]) ''t.yaml'' =
      (Inr [ApplyDefaults sample_test] :: (nat LoadError, TestSpec list) result)"
    using validate_None[of sample_test] by (simp add: Load_def)
  from loaded_tests_ready[OF this] show ?thesis by simp
qed

text \<open>
  The VCL file of a test: the command-line flag wins and must exist; otherwise
  it is the file next to the test with its extension replaced by \<^verbatim>\<open>.vcl\<close>. A path is
  returned only if it exists.
\<close>

lemma resolve_vcl_priority:
  "(ResolveVCL exists tf cli = Inr p \<longrightarrow> exists p) \<and>
   (cli \<noteq> [] \<longrightarrow> ResolveVCL exists tf cli = (if exists cli then Inr cli else Inl (VCLFlagNotFound cli))) \<and>
   (ds \<noteq> [] \<and> list_all plain_name ds \<and> list_all is_alnum b \<and> list_all is_alnum ext \<longrightarrow>
      (let v = Join ds ''/'' @ ''/'' @ b @ ''.vcl'' in
       ResolveVCL exists (Join ds ''/'' @ ''/'' @ b @ ''.'' @ ext) [] =
         (if exists v then Inr v else Inl (NoVCLFile v))))"
proof (intro conjI impI)
  show "ResolveVCL exists tf cli = Inr p \<Longrightarrow> exists p"
    by (auto simp: ResolveVCL_def Let_def split: if_splits)
  show "cli \<noteq> [] \<Longrightarrow> ResolveVCL exists tf cli = (if exists cli then Inr cli else Inl (VCLFlagNotFound cli))"
    by (simp add: ResolveVCL_def)
  assume *: "ds \<noteq> [] \<and> list_all plain_name ds \<and> list_all is_alnum b \<and> list_all is_alnum ext"
  let ?t = "Join ds ''/'' @ ''/'' @ b @ ''.'' @ ext"
  have no: "CHR ''/'' \<notin> set b" "CHR ''/'' \<notin> set ext" "CHR ''.'' \<notin> set ext"
    using * by (auto simp: list_all_iff is_alnum_def is_digit_def is_upper_def is_lower_def byte_def)
  have dir: "Dir ?t = Join ds ''/''" using * no by (intro Dir_plain) auto
  have base: "Base ?t = b @ ''.'' @ ext" using no by (intro Base_plain) auto
  have name: "TrimSuffix (b @ ''.'' @ ext) (Ext (b @ ''.'' @ ext)) = b"
    using no Ext_dot[of ext b] by (simp add: TrimSuffix_def suffix_def)
  have "plain_name (b @ ''.vcl'')" using no by (auto simp: plain_name_def Cons_eq_append_conv append_eq_Cons_conv)
  then have "PathJoin [Join ds ''/'', b @ ''.vcl''] = Join ds ''/'' @ ''/'' @ b @ ''.vcl''"
    using * by (intro PathJoin_plain) auto
  with dir base name show "let v = Join ds ''/'' @ ''/'' @ b @ ''.vcl'' in
       ResolveVCL exists ?t [] = (if exists v then Inr v else Inl (NoVCLFile v))"
    by (simp add: ResolveVCL_def Let_def)
qed

end
