(* ===== verification/HttpClient.thy ===== *)
theory HttpClient
  imports TestSpec
begin

text \<open>
  Package \<^verbatim>\<open>client\<close> (\<^verbatim>\<open>client.go\<close>), and the parts of \<^verbatim>\<open>net/http\<close> that the program reads:
  header maps with canonical keys, and the construction of a request. Sending a request
  is the transition \<open>send\<close> of the environment, a parameter with its own state.
\<close>

section \<open>Header maps\<close>

type_synonym Header = "(string, string list) gomap"

definition token_byte :: "char \<Rightarrow> bool" where
  "token_byte c \<longleftrightarrow> is_alnum c \<or> c \<in> set ''!#$%&*+-.^_`|~'' \<or> c = CHR 0x27"

text \<open>The canonical form of a key: upper case at the start and after a hyphen, lower case
  elsewhere. A key with a byte that is not allowed in a token is left alone.\<close>

fun canonicalFrom :: "bool \<Rightarrow> string \<Rightarrow> string" where
  "canonicalFrom up [] = []"
| "canonicalFrom up (c # cs) =
     (if up then upper_char c else lower_char c) # canonicalFrom (c = CHR ''-'') cs"

definition CanonicalHeaderKey :: "string \<Rightarrow> string" where
  "CanonicalHeaderKey key = (if list_all token_byte key then canonicalFrom True key else key)"

definition HeaderGet :: "Header \<Rightarrow> string \<Rightarrow> string" where
  "HeaderGet h key =
     (case mget h (CanonicalHeaderKey key) of None \<Rightarrow> [] | Some [] \<Rightarrow> [] | Some (v # vs) \<Rightarrow> v)"

definition HeaderSet :: "string \<Rightarrow> string \<Rightarrow> Header \<Rightarrow> Header" where
  "HeaderSet key value h = mput (CanonicalHeaderKey key) [value] h"

section \<open>Requests and responses\<close>

record Response =
  resp_Status :: int
  resp_Headers :: Header
  resp_Body :: string

record 'u HttpRequest =
  hr_Method :: string
  hr_URL :: 'u
  hr_Header :: Header
  hr_Body :: "string option"

text \<open>The settings of an \<^verbatim>\<open>http.Client\<close>. The contents of a cookie jar belong to the environment.\<close>

record Client =
  cl_DisableKeepAlives :: bool
  cl_FollowRedirects :: bool
  cl_HasJar :: bool

datatype 'e RequestError =
    InvalidMethod string
  | InvalidURL 'e
  | SendFailed 'e
  | ReadBodyFailed 'e

definition NewRequest ::
  "(string \<Rightarrow> ('e, 'u) result) \<Rightarrow> string \<Rightarrow> string \<Rightarrow> string option \<Rightarrow>
   ('e RequestError, 'u HttpRequest) result" where
  "NewRequest parseURL method url body =
     (let m = (if method = [] then ''GET'' else method) in
      if \<not> list_all token_byte m then Inl (InvalidMethod m)
      else case parseURL url of
             Inl e \<Rightarrow> Inl (InvalidURL e)
           | Inr u \<Rightarrow> Inr \<lparr>hr_Method = m, hr_URL = u, hr_Header = [], hr_Body = body\<rparr>)"

definition defaultClient :: Client where
  "defaultClient = \<lparr>cl_DisableKeepAlives = True, cl_FollowRedirects = False, cl_HasJar = False\<rparr>"

text \<open>
  \<open>send\<close> yields the status, the headers and the result of reading the body.
\<close>

definition MakeRequest ::
  "(string \<Rightarrow> ('e, 'u) result) \<Rightarrow>
   (Client \<Rightarrow> 'u HttpRequest \<Rightarrow> 'w \<Rightarrow> ('e, int \<times> Header \<times> ('e, string) result) result \<times> 'w) \<Rightarrow>
   Client option \<Rightarrow> string \<Rightarrow> RequestSpec \<Rightarrow> 'w \<Rightarrow> ('e RequestError, Response) result \<times> 'w" where
  "MakeRequest parseURL send httpClient varnishURL req w =
     (let url = varnishURL @ req_URL req;
          bodyReader = (if req_Body req \<noteq> [] then Some (req_Body req) else None)
      in case NewRequest parseURL (req_Method req) url bodyReader of
           Inl e \<Rightarrow> (Inl e, w)
         | Inr r \<Rightarrow>
             let httpReq = r\<lparr>hr_Header := fold (\<lambda>(key, value). HeaderSet key value) (req_Headers req) (hr_Header r)\<rparr>;
                 cl = (case httpClient of None \<Rightarrow> defaultClient | Some c \<Rightarrow> c)
             in case send cl httpReq w of
                  (Inl e, w') \<Rightarrow> (Inl (SendFailed e), w')
                | (Inr (status, hdrs, body), w') \<Rightarrow>
                    (case body of
                       Inl e \<Rightarrow> (Inl (ReadBodyFailed e), w')
                     | Inr b \<Rightarrow>
                         (Inr \<lparr>resp_Status = status, resp_Headers = hdrs, resp_Body = b\<rparr>, w')))"

section \<open>Canonical keys\<close>

lemma case_char_bytes:
  "byte (upper_char c) = (if is_lower c then byte c - 32 else byte c)"
  "byte (lower_char c) = (if is_upper c then byte c + 32 else byte c)"
  by (auto simp: upper_char_def lower_char_def is_lower_def is_upper_def)

lemma case_char_hyphen [simp]:
  "upper_char c = CHR ''-'' \<longleftrightarrow> c = CHR ''-''" "lower_char c = CHR ''-'' \<longleftrightarrow> c = CHR ''-''"
proof -
  have h: "byte (CHR ''-'') = 45" by (simp add: byte_def)
  show "upper_char c = CHR ''-'' \<longleftrightarrow> c = CHR ''-''" "lower_char c = CHR ''-'' \<longleftrightarrow> c = CHR ''-''"
    by (auto simp: byte_inject[symmetric] case_char_bytes is_lower_def is_upper_def h simp del: byte_char_of)
qed

lemma case_char_idem [simp]:
  "upper_char (upper_char c) = upper_char c"
  "upper_char (lower_char c) = upper_char c" "lower_char (upper_char c) = lower_char c"
  by (auto simp: byte_inject[symmetric] case_char_bytes is_lower_def is_upper_def)

lemma canonicalFrom_idem: "canonicalFrom up (canonicalFrom up s) = canonicalFrom up s"
  by (induction up s rule: canonicalFrom.induct) auto

lemma canonicalFrom_lower: "canonicalFrom up (map lower_char s) = canonicalFrom up s"
  by (induction up s rule: canonicalFrom.induct) auto

lemma token_byte_case [simp]:
  "token_byte (upper_char c) = token_byte c" "token_byte (lower_char c) = token_byte c"
proof -
  have "is_alnum (upper_char c) = is_alnum c" "is_alnum (lower_char c) = is_alnum c"
    by (auto simp: is_alnum_def is_digit_def is_lower_def is_upper_def case_char_bytes)
  moreover have "\<not> is_alnum c \<Longrightarrow> upper_char c = c" "\<not> is_alnum c \<Longrightarrow> lower_char c = c"
    by (auto simp: is_alnum_def upper_char_def lower_char_def)
  ultimately show "token_byte (upper_char c) = token_byte c" "token_byte (lower_char c) = token_byte c"
    unfolding token_byte_def by metis+
qed

lemma token_byte_canonicalFrom: "list_all token_byte (canonicalFrom up s) = list_all token_byte s"
  by (induction up s rule: canonicalFrom.induct) auto

lemma CanonicalHeaderKey_idem [simp]: "CanonicalHeaderKey (CanonicalHeaderKey k) = CanonicalHeaderKey k"
  by (simp add: CanonicalHeaderKey_def token_byte_canonicalFrom canonicalFrom_idem)

lemma CanonicalHeaderKey_case:
  assumes "list_all token_byte k" "map lower_char k = map lower_char k'"
  shows "CanonicalHeaderKey k = CanonicalHeaderKey k'"
proof -
  have "list_all token_byte (map lower_char k) = list_all token_byte k" for k
    by (simp add: list.pred_map comp_def)
  with assms have "list_all token_byte k'" by metis
  with assms show ?thesis
    by (metis CanonicalHeaderKey_def canonicalFrom_lower)
qed

lemma HeaderGet_Set: "HeaderGet (HeaderSet k v h) k' =
  (if CanonicalHeaderKey k' = CanonicalHeaderKey k then v else HeaderGet h k')"
  by (simp add: HeaderGet_def HeaderSet_def)

lemma HeaderSet_all_other:
  "CanonicalHeaderKey k \<notin> CanonicalHeaderKey ` fst ` set hs \<Longrightarrow>
   HeaderGet (fold (\<lambda>(key, value). HeaderSet key value) hs h) k = HeaderGet h k"
  by (induction hs arbitrary: h) (auto simp: HeaderGet_Set)

lemma HeaderSet_all:
  assumes "distinct (map (CanonicalHeaderKey \<circ> fst) hs)" "(k, v) \<in> set hs"
    "CanonicalHeaderKey k' = CanonicalHeaderKey k"
  shows "HeaderGet (fold (\<lambda>(key, value). HeaderSet key value) hs h) k' = v"
  using assms
proof (induction hs arbitrary: h)
  case (Cons x hs)
  show ?case
  proof (cases "x = (k, v)")
    case True
    with Cons.prems have "CanonicalHeaderKey k' \<notin> CanonicalHeaderKey ` fst ` set hs"
      by (auto simp: image_image comp_def)
    with True Cons.prems show ?thesis by (simp add: HeaderSet_all_other HeaderGet_Set)
  next
    case False
    with Cons show ?thesis by auto
  qed
qed simp

section \<open>Properties\<close>

text \<open>
  C37. The request sent for a request specification: its URL is the Varnish URL
  followed by the path, its method defaults to GET, its body is absent iff empty, a header of
  the specification is found under its name in any case, and when no client is passed no
  redirect is followed and no connection is kept. The response is passed on unchanged.
\<close>

theorem make_request_sends_spec:
  assumes "list_all token_byte (req_Method req)" "parseURL (varnishURL @ req_URL req) = Inr u"
    and "distinct (map (CanonicalHeaderKey \<circ> fst) (req_Headers req))"
  shows "\<exists>c r. MakeRequest parseURL send cl varnishURL req w =
        (case send c r w of
           (Inl e, w') \<Rightarrow> (Inl (SendFailed e), w')
         | (Inr (status, hdrs, Inl e), w') \<Rightarrow> (Inl (ReadBodyFailed e), w')
         | (Inr (status, hdrs, Inr b), w') \<Rightarrow>
             (Inr \<lparr>resp_Status = status, resp_Headers = hdrs, resp_Body = b\<rparr>, w')) \<and>
      hr_URL r = u \<and>
      hr_Method r = (if req_Method req = [] then ''GET'' else req_Method req) \<and>
      hr_Body r = (if req_Body req = [] then None else Some (req_Body req)) \<and>
      (\<forall>k v k'. (k, v) \<in> set (req_Headers req) \<and> list_all token_byte k \<and>
         map lower_char k' = map lower_char k \<longrightarrow> HeaderGet (hr_Header r) k' = v) \<and>
      (cl = None \<longrightarrow> cl_DisableKeepAlives c \<and> \<not> cl_FollowRedirects c)"
proof -
  let ?m = "if req_Method req = [] then ''GET'' else req_Method req"
  let ?b = "if req_Body req \<noteq> [] then Some (req_Body req) else None"
  let ?r = "\<lparr>hr_Method = ?m, hr_URL = u,
      hr_Header = fold (\<lambda>(key, value). HeaderSet key value) (req_Headers req) [], hr_Body = ?b\<rparr>"
  let ?c = "case cl of None \<Rightarrow> defaultClient | Some c \<Rightarrow> c"
  have "list_all token_byte ?m" using assms(1)
    by (simp add: token_byte_def is_alnum_def is_upper_def byte_def)
  then have "NewRequest parseURL (req_Method req) (varnishURL @ req_URL req) ?b =
      Inr \<lparr>hr_Method = ?m, hr_URL = u, hr_Header = [], hr_Body = ?b\<rparr>"
    using assms(2) by (simp add: NewRequest_def)
  then have "MakeRequest parseURL send cl varnishURL req w =
      (case send ?c ?r w of
           (Inl e, w') \<Rightarrow> (Inl (SendFailed e), w')
         | (Inr (status, hdrs, Inl e), w') \<Rightarrow> (Inl (ReadBodyFailed e), w')
         | (Inr (status, hdrs, Inr b), w') \<Rightarrow>
             (Inr \<lparr>resp_Status = status, resp_Headers = hdrs, resp_Body = b\<rparr>, w'))"
    by (auto simp: MakeRequest_def Let_def split: prod.split sum.split)
  moreover have "HeaderGet (hr_Header ?r) k' = v"
    if "(k, v) \<in> set (req_Headers req)" "list_all token_byte k" "map lower_char k' = map lower_char k"
    for k v k'
    using HeaderSet_all[OF assms(3) that(1)] CanonicalHeaderKey_case[OF that(2) that(3)[symmetric]]
    by simp
  ultimately show ?thesis
    by (intro exI[of _ ?c] exI[of _ ?r]) (auto simp: defaultClient_def)
qed

definition sample_send :: "Client \<Rightarrow> string HttpRequest \<Rightarrow> string list \<Rightarrow>
    (string, int \<times> Header \<times> (string, string) result) result \<times> string list" where
  "sample_send c r w = (Inr (200, [], Inr (HeaderGet (hr_Header r) ''HOST'')), hr_URL r # w)"

definition sample_host_request :: RequestSpec where
  "sample_host_request =
     \<lparr>req_Method = [], req_URL = ''/x'', req_Headers = [(''host'', ''h'')], req_Body = []\<rparr>"

theorem make_request_sends_spec_witness:
  "MakeRequest Inr sample_send None ''http://h'' sample_host_request [] =
     (Inr \<lparr>resp_Status = 200, resp_Headers = [], resp_Body = ''h''\<rparr>, [''http://h/x''])"
proof -
  have tok: "list_all token_byte ''host''" "map lower_char ''HOST'' = map lower_char ''host''"
    by code_simp+
  have pre: "list_all token_byte (req_Method sample_host_request)"
      "Inr (''http://h'' @ req_URL sample_host_request) = (Inr ''http://h/x'' :: string + string)"
      "distinct (map (CanonicalHeaderKey \<circ> fst) (req_Headers sample_host_request))"
    by (simp_all add: sample_host_request_def)
  have hdr: "(''host'', ''h'') \<in> set (req_Headers sample_host_request)"
    by (simp add: sample_host_request_def)
  obtain c r where
    *: "MakeRequest Inr sample_send None ''http://h'' sample_host_request [] =
        (case sample_send c r [] of
           (Inl e, w') \<Rightarrow> (Inl (SendFailed e), w')
         | (Inr (status, hdrs, Inl e), w') \<Rightarrow> (Inl (ReadBodyFailed e), w')
         | (Inr (status, hdrs, Inr b), w') \<Rightarrow>
             (Inr \<lparr>resp_Status = status, resp_Headers = hdrs, resp_Body = b\<rparr>, w'))"
      and "hr_URL r = ''http://h/x''"
      and "\<forall>k v k'. (k, v) \<in> set (req_Headers sample_host_request) \<and> list_all token_byte k \<and>
         map lower_char k' = map lower_char k \<longrightarrow> HeaderGet (hr_Header r) k' = v"
    using make_request_sends_spec[where parseURL = Inr and varnishURL = "''http://h''" and send = sample_send
        and cl = None and w = "[]", OF pre]
    by (elim exE conjE) (rule that)
  moreover from this(3) tok hdr have "HeaderGet (hr_Header r) ''HOST'' = ''h''" by blast
  ultimately show ?thesis by (simp add: sample_send_def)
qed

end
