(* ===== verification/MockBackend.thy ===== *)
theory MockBackend
  imports HttpClient "HOL-Library.Word"
begin

text \<open>
  Package \<^verbatim>\<open>backend\<close> (\<^verbatim>\<open>mock.go\<close>): the HTTP server that plays a backend. The handler is
  modelled by the calls it makes on its response writer; concurrent requests are a step
  relation whose steps are the atomic actions of the handler (the atomic counter, the read
  of the configuration under its lock, the answer) and of the other methods.
\<close>

section \<open>State\<close>

record RouteConfig =
  rc_Status :: int
  rc_Headers :: "(string, string) gomap"
  rc_Body :: string
  rc_FailureMode :: string
  rc_EchoRequest :: bool

record Config =
  cfg_Status :: int
  cfg_Headers :: "(string, string) gomap"
  cfg_Body :: string
  cfg_FailureMode :: string
  cfg_Routes :: "(string, RouteConfig) gomap option"
  cfg_EchoRequest :: bool

text \<open>
  \<open>mb_addr\<close> is the address of the listener once started, \<open>mb_stopped\<close> whether the shutdown
  channel is closed, \<open>mb_serving\<close> whether the server accepts connections.
\<close>

record MockBackend =
  mb_addr :: "string option"
  mb_serving :: bool
  mb_callCount :: "32 word"
  mb_config :: Config
  mb_stopped :: bool

definition mock_New :: "Config \<Rightarrow> MockBackend" where
  "mock_New config =
     \<lparr>mb_addr = None, mb_serving = False, mb_callCount = 0, mb_config = config, mb_stopped = False\<rparr>"

text \<open>\<open>listen\<close> is the result of \<^verbatim>\<open>net.Listen\<close> on a random port of 127.0.0.1.\<close>

definition mock_Start :: "('e, string) result \<Rightarrow> MockBackend \<Rightarrow> ('e, string) result \<times> MockBackend" where
  "mock_Start listen m =
     (case listen of
        Inl err \<Rightarrow> (Inl err, m)
      | Inr addr \<Rightarrow> (Inr addr, m\<lparr>mb_addr := Some addr, mb_serving := True\<rparr>))"

definition getRouteConfig :: "Config \<Rightarrow> string \<Rightarrow> RouteConfig" where
  "getRouteConfig config path =
     (case (case cfg_Routes config of None \<Rightarrow> None | Some routes \<Rightarrow> mget routes path) of
        Some route \<Rightarrow> route
      | None \<Rightarrow>
          \<lparr>rc_Status = cfg_Status config, rc_Headers = cfg_Headers config, rc_Body = cfg_Body config,
           rc_FailureMode = cfg_FailureMode config, rc_EchoRequest = cfg_EchoRequest config\<rparr>)"

section \<open>The handler\<close>

record EchoResponse =
  echo_Method :: string
  echo_URL :: string
  echo_Path :: string
  echo_Query :: "(string, string list) gomap"
  echo_Headers :: Header
  echo_Body :: string

record Incoming =
  in_Method :: string
  in_URL :: string
  in_Path :: string
  in_Query :: "(string, string list) gomap"
  in_Header :: Header
  in_Body :: string

text \<open>
  What a handler does with its connection: the header map, status and body it writes, an
  error page, a closed connection, waiting without an answer, or the panic of
  \<^verbatim>\<open>WriteHeader\<close> on a status outside 100..999. Hijacking the connection may be
  unsupported or fail.
\<close>

datatype Outcome =
    Responds int Header string
  | ErrorPage int string
  | ClosesConnection
  | Waits
  | Panics int

datatype Hijack = NotHijacker | HijackFails string | Hijacked

definition setHeaders :: "(string, string) gomap \<Rightarrow> Header \<Rightarrow> Header" where
  "setHeaders hs h = fold (\<lambda>(key, value). HeaderSet key value) hs h"

definition respond ::
  "(EchoResponse \<Rightarrow> string) \<Rightarrow> Hijack \<Rightarrow> RouteConfig \<Rightarrow> Incoming \<Rightarrow> Outcome" where
  "respond encode hijack routeConfig r =
     (if rc_EchoRequest routeConfig then
        Responds 200 (HeaderSet ''Content-Type'' ''application/json'' [])
          (encode \<lparr>echo_Method = in_Method r, echo_URL = in_URL r, echo_Path = in_Path r,
                   echo_Query = in_Query r, echo_Headers = in_Header r, echo_Body = in_Body r\<rparr>)
      else if rc_FailureMode routeConfig = ''frozen'' then Waits
      else if rc_FailureMode routeConfig = ''failed'' then
        (case hijack of
           NotHijacker \<Rightarrow> ErrorPage 500 ''hijacking not supported''
         | HijackFails e \<Rightarrow> ErrorPage 500 e
         | Hijacked \<Rightarrow> ClosesConnection)
      else
        let h1 = setHeaders (rc_Headers routeConfig) [];
            body = rc_Body routeConfig;
            h2 = (if body \<noteq> [] then HeaderSet ''Content-Length'' (Itoa (int (length body))) h1 else h1)
        in if rc_Status routeConfig < 100 \<or> rc_Status routeConfig > 999
           then Panics (rc_Status routeConfig)
           else Responds (rc_Status routeConfig) h2 body)"

definition handleRequest ::
  "(EchoResponse \<Rightarrow> string) \<Rightarrow> Hijack \<Rightarrow> Incoming \<Rightarrow> MockBackend \<Rightarrow> Outcome \<times> MockBackend" where
  "handleRequest encode hijack r m =
     (let m1 = m\<lparr>mb_callCount := mb_callCount m + 1\<rparr>
      in (respond encode hijack (getRouteConfig (mb_config m1) (in_Path r)) r, m1))"

section \<open>The other methods\<close>

definition GetCallCount :: "MockBackend \<Rightarrow> int" where
  "GetCallCount m = sint (mb_callCount m)"

definition ResetCallCount :: "MockBackend \<Rightarrow> MockBackend" where
  "ResetCallCount m = m\<lparr>mb_callCount := 0\<rparr>"

definition UpdateConfig :: "Config \<Rightarrow> MockBackend \<Rightarrow> MockBackend" where
  "UpdateConfig newConfig m = m\<lparr>mb_config := newConfig\<rparr>"

definition mock_Stop :: "MockBackend \<Rightarrow> MockBackend" where
  "mock_Stop m =
     (let m1 = (if mb_stopped m then m else m\<lparr>mb_stopped := True\<rparr>)
      in if mb_addr m1 \<noteq> None then m1\<lparr>mb_serving := False\<rparr> else m1)"

section \<open>Concurrent requests\<close>

text \<open>
  A request in flight: counted, then with the configuration it read. An answer ends it; a
  waiting handler ends when the backend stops or its client disconnects.
\<close>

datatype Phase = Counted Incoming | Configured Incoming RouteConfig

record MockSys =
  ms_mock :: MockBackend
  ms_handlers :: "nat \<Rightarrow> Phase option"

datatype MockEvent =
    Arrive nat Incoming
  | ReadConfig nat
  | Answer nat Outcome
  | Release nat bool
  | Update Config
  | Reset
  | Stop

inductive mock_step ::
  "(EchoResponse \<Rightarrow> string) \<Rightarrow> Hijack \<Rightarrow> MockSys \<Rightarrow> MockEvent \<Rightarrow> MockSys \<Rightarrow> bool" for encode hijack where
  arrive: "mb_serving (ms_mock s) \<Longrightarrow> ms_handlers s i = None \<Longrightarrow>
    mock_step encode hijack s (Arrive i r)
      (s\<lparr>ms_mock := (ms_mock s)\<lparr>mb_callCount := mb_callCount (ms_mock s) + 1\<rparr>,
         ms_handlers := (ms_handlers s)(i := Some (Counted r))\<rparr>)"
| read_config: "ms_handlers s i = Some (Counted r) \<Longrightarrow>
    mock_step encode hijack s (ReadConfig i)
      (s\<lparr>ms_handlers := (ms_handlers s)
           (i := Some (Configured r (getRouteConfig (mb_config (ms_mock s)) (in_Path r))))\<rparr>)"
| answer: "ms_handlers s i = Some (Configured r rc) \<Longrightarrow> respond encode hijack rc r = out \<Longrightarrow> out \<noteq> Waits \<Longrightarrow>
    mock_step encode hijack s (Answer i out) (s\<lparr>ms_handlers := (ms_handlers s)(i := None)\<rparr>)"
| release: "ms_handlers s i = Some (Configured r rc) \<Longrightarrow> respond encode hijack rc r = Waits \<Longrightarrow>
    mb_stopped (ms_mock s) \<or> disconnected \<Longrightarrow>
    mock_step encode hijack s (Release i disconnected) (s\<lparr>ms_handlers := (ms_handlers s)(i := None)\<rparr>)"
| update: "mock_step encode hijack s (Update c) (s\<lparr>ms_mock := UpdateConfig c (ms_mock s)\<rparr>)"
| reset: "mock_step encode hijack s Reset (s\<lparr>ms_mock := ResetCallCount (ms_mock s)\<rparr>)"
| stop: "mock_step encode hijack s Stop (s\<lparr>ms_mock := mock_Stop (ms_mock s)\<rparr>)"

inductive_cases mock_stepE: "mock_step encode hijack s e s'"
inductive_cases answerE: "mock_step encode hijack s (Answer i out) s'"
inductive_cases releaseE: "mock_step encode hijack s (Release i d) s'"

inductive mock_run ::
  "(EchoResponse \<Rightarrow> string) \<Rightarrow> Hijack \<Rightarrow> MockSys \<Rightarrow> MockEvent list \<Rightarrow> MockSys \<Rightarrow> bool" for encode hijack where
  run_nil: "mock_run encode hijack s [] s"
| run_snoc: "mock_run encode hijack s es t \<Longrightarrow> mock_step encode hijack t e u \<Longrightarrow>
    mock_run encode hijack s (es @ [e]) u"

definition mock_init :: "MockBackend \<Rightarrow> MockSys" where
  "mock_init m = \<lparr>ms_mock = m, ms_handlers = (\<lambda>i. None)\<rparr>"

text \<open>The step relation as a function: every step is determined by its event.\<close>

fun mock_exec :: "(EchoResponse \<Rightarrow> string) \<Rightarrow> Hijack \<Rightarrow> MockEvent \<Rightarrow> MockSys \<Rightarrow> MockSys option" where
  "mock_exec encode hijack (Arrive i r) s =
     (if mb_serving (ms_mock s) \<and> ms_handlers s i = None
      then Some (s\<lparr>ms_mock := (ms_mock s)\<lparr>mb_callCount := mb_callCount (ms_mock s) + 1\<rparr>,
                   ms_handlers := (ms_handlers s)(i := Some (Counted r))\<rparr>)
      else None)"
| "mock_exec encode hijack (ReadConfig i) s =
     (case ms_handlers s i of
        Some (Counted r) \<Rightarrow>
          Some (s\<lparr>ms_handlers := (ms_handlers s)
             (i := Some (Configured r (getRouteConfig (mb_config (ms_mock s)) (in_Path r))))\<rparr>)
      | _ \<Rightarrow> None)"
| "mock_exec encode hijack (Answer i out) s =
     (case ms_handlers s i of
        Some (Configured r rc) \<Rightarrow>
          if respond encode hijack rc r = out \<and> out \<noteq> Waits
          then Some (s\<lparr>ms_handlers := (ms_handlers s)(i := None)\<rparr>) else None
      | _ \<Rightarrow> None)"
| "mock_exec encode hijack (Release i disconnected) s =
     (case ms_handlers s i of
        Some (Configured r rc) \<Rightarrow>
          if respond encode hijack rc r = Waits \<and> (mb_stopped (ms_mock s) \<or> disconnected)
          then Some (s\<lparr>ms_handlers := (ms_handlers s)(i := None)\<rparr>) else None
      | _ \<Rightarrow> None)"
| "mock_exec encode hijack (Update c) s = Some (s\<lparr>ms_mock := UpdateConfig c (ms_mock s)\<rparr>)"
| "mock_exec encode hijack Reset s = Some (s\<lparr>ms_mock := ResetCallCount (ms_mock s)\<rparr>)"
| "mock_exec encode hijack Stop s = Some (s\<lparr>ms_mock := mock_Stop (ms_mock s)\<rparr>)"

fun mock_exec_all ::
  "(EchoResponse \<Rightarrow> string) \<Rightarrow> Hijack \<Rightarrow> MockEvent list \<Rightarrow> MockSys \<Rightarrow> MockSys option" where
  "mock_exec_all encode hijack [] s = Some s"
| "mock_exec_all encode hijack (e # es) s =
     (case mock_exec encode hijack e s of None \<Rightarrow> None | Some t \<Rightarrow> mock_exec_all encode hijack es t)"

text \<open>The requests that arrived after the last reset.\<close>

fun arrivals :: "MockEvent list \<Rightarrow> nat" where
  "arrivals [] = 0"
| "arrivals (Arrive i r # es) = (if Reset \<in> set es then arrivals es else arrivals es + 1)"
| "arrivals (e # es) = arrivals es"

section \<open>Facts about runs\<close>

lemma run_Cons:
  "mock_step encode hijack s e t \<Longrightarrow> mock_run encode hijack t es u \<Longrightarrow> mock_run encode hijack s (e # es) u"
proof (induction es arbitrary: u rule: rev_induct)
  case Nil
  then have "t = u" by (auto elim: mock_run.cases)
  with Nil show ?case using run_snoc[OF run_nil] by fastforce
next
  case (snoc x xs)
  from snoc.prems(2) obtain v where "mock_run encode hijack t xs v" "mock_step encode hijack v x u"
    by (auto elim: mock_run.cases)
  with snoc show ?case using run_snoc by fastforce
qed

lemma mock_exec_step: "mock_exec encode hijack e s = Some t \<longleftrightarrow> mock_step encode hijack s e t"
  by (cases e) (auto elim!: mock_stepE intro: mock_step.intros split: option.splits Phase.splits if_splits)

lemma mock_exec_all_run:
  "mock_exec_all encode hijack es s = Some t \<Longrightarrow> mock_run encode hijack s es t"
proof (induction es arbitrary: s)
  case (Cons e es)
  then show ?case by (auto simp: mock_exec_step intro: run_Cons split: option.splits)
qed (simp add: run_nil)

definition current :: "MockEvent list \<Rightarrow> Config \<Rightarrow> Config" where
  "current es c = fold (\<lambda>e c. case e of Update c' \<Rightarrow> c' | _ \<Rightarrow> c) es c"

lemma arrivals_snoc:
  "arrivals (es @ [e]) = (case e of Arrive i r \<Rightarrow> arrivals es + 1 | Reset \<Rightarrow> 0 | _ \<Rightarrow> arrivals es)"
proof (induction es)
  case (Cons a es)
  then show ?case by (cases a) (auto split: MockEvent.split)
qed (simp split: MockEvent.split)

lemmas mock_defs = UpdateConfig_def ResetCallCount_def mock_Stop_def Let_def

lemma run_counts:
  "mock_run encode hijack s es t \<Longrightarrow> mb_callCount (ms_mock s) = 0 \<Longrightarrow>
   mb_callCount (ms_mock t) = of_nat (arrivals es)"
  by (induction rule: mock_run.induct) (auto elim!: mock_stepE simp: arrivals_snoc mock_defs)

lemma run_config:
  "mock_run encode hijack s es t \<Longrightarrow> mb_config (ms_mock t) = current es (mb_config (ms_mock s))"
  by (induction rule: mock_run.induct) (auto elim!: mock_stepE simp: current_def mock_defs)

lemma run_stopped:
  "mock_run encode hijack s es t \<Longrightarrow> mb_stopped (ms_mock t) \<longleftrightarrow> mb_stopped (ms_mock s) \<or> Stop \<in> set es"
  by (induction rule: mock_run.induct) (auto elim!: mock_stepE simp: mock_defs)

text \<open>Every handler in flight arrived, and has the configuration of the moment it read it.\<close>

definition served_from :: "Config \<Rightarrow> MockEvent list \<Rightarrow> nat \<Rightarrow> Incoming \<Rightarrow> RouteConfig \<Rightarrow> bool" where
  "served_from c es i r rc \<longleftrightarrow>
     (\<exists>es1 es2. es = es1 @ ReadConfig i # es2 \<and> Arrive i r \<in> set es1 \<and>
        rc = getRouteConfig (current es1 c) (in_Path r))"

lemma served_from_snoc: "served_from c es i r rc \<Longrightarrow> served_from c (es @ [e]) i r rc"
  unfolding served_from_def by (metis append.assoc append_Cons)

definition handlers_ok :: "Config \<Rightarrow> MockEvent list \<Rightarrow> MockSys \<Rightarrow> bool" where
  "handlers_ok c es t \<longleftrightarrow>
     (\<forall>i r. ms_handlers t i = Some (Counted r) \<longrightarrow> Arrive i r \<in> set es) \<and>
     (\<forall>i r rc. ms_handlers t i = Some (Configured r rc) \<longrightarrow> served_from c es i r rc)"

lemma handlers_ok_snoc:
  assumes "handlers_ok c es t"
    and "\<And>i. ms_handlers u i = None \<or> ms_handlers u i = ms_handlers t i \<or>
      (\<exists>r. ms_handlers u i = Some (Counted r) \<and> e = Arrive i r) \<or>
      (\<exists>r rc. ms_handlers u i = Some (Configured r rc) \<and> served_from c (es @ [e]) i r rc)"
  shows "handlers_ok c (es @ [e]) u"
  unfolding handlers_ok_def
proof (intro conjI allI impI)
  fix i r assume "ms_handlers u i = Some (Counted r)"
  with assms(2)[of i] assms(1) show "Arrive i r \<in> set (es @ [e])" by (auto simp: handlers_ok_def)
next
  fix i r rc assume "ms_handlers u i = Some (Configured r rc)"
  with assms(2)[of i] assms(1) served_from_snoc show "served_from c (es @ [e]) i r rc"
    by (fastforce simp: handlers_ok_def)
qed

lemma run_handlers:
  "mock_run encode hijack s es t \<Longrightarrow> s = mock_init m \<Longrightarrow> handlers_ok (mb_config m) es t"
proof (induction rule: mock_run.induct)
  case (run_nil s)
  then show ?case by (simp add: handlers_ok_def mock_init_def)
next
  case (run_snoc s es t e u)
  have IH: "handlers_ok (mb_config m) es t" using run_snoc by simp
  have cur: "mb_config (ms_mock t) = current es (mb_config m)"
    using run_config[OF run_snoc.hyps(1)] run_snoc.prems by (simp add: mock_init_def)
  have read: "served_from (mb_config m) (es @ [ReadConfig i]) i r
      (getRouteConfig (mb_config (ms_mock t)) (in_Path r))" if "ms_handlers t i = Some (Counted r)" for i r
    unfolding served_from_def using that IH cur
    by (intro exI[of _ es] exI[of _ "[]"]) (simp add: handlers_ok_def)
  from run_snoc.hyps(2) show ?case
    by cases (rule handlers_ok_snoc[OF IH], use read in simp)+
qed

section \<open>Properties\<close>

definition sample_config :: Config where
  "sample_config = \<lparr>cfg_Status = 200, cfg_Headers = [(''x-a'', ''1'')], cfg_Body = ''hi'', cfg_FailureMode = [],
     cfg_Routes = Some [(''/slow'', \<lparr>rc_Status = 0, rc_Headers = [], rc_Body = [], rc_FailureMode = ''frozen'',
       rc_EchoRequest = False\<rparr>)], cfg_EchoRequest = False\<rparr>"

definition sample_incoming :: "string \<Rightarrow> Incoming" where
  "sample_incoming path = \<lparr>in_Method = ''GET'', in_URL = path, in_Path = path, in_Query = [],
     in_Header = [], in_Body = []\<rparr>"

definition sample_mock :: MockBackend where
  "sample_mock = snd (mock_Start (Inr ''127.0.0.1:1'' :: nat + string) (mock_New sample_config))"

text \<open>A run in which a waiting request and an answered one interleave with an update.\<close>

definition sample_events :: "MockEvent list" where
  "sample_events = [Arrive 0 (sample_incoming ''/slow''), ReadConfig 0, Update (sample_config\<lparr>cfg_Status := 503\<rparr>),
     Arrive 1 (sample_incoming ''/'')]"

lemma sample_run:
  "\<exists>t. mock_run encode hijack (mock_init sample_mock) sample_events t \<and>
     (\<exists>rc. ms_handlers t 0 = Some (Configured (sample_incoming ''/slow'') rc) \<and> rc_FailureMode rc = ''frozen'' \<and>
        \<not> rc_EchoRequest rc)"
proof -
  have "\<exists>t. mock_exec_all encode hijack sample_events (mock_init sample_mock) = Some t \<and>
     (\<exists>rc. ms_handlers t 0 = Some (Configured (sample_incoming ''/slow'') rc) \<and> rc_FailureMode rc = ''frozen'' \<and>
        \<not> rc_EchoRequest rc)"
    by (simp add: sample_events_def mock_init_def sample_mock_def mock_Start_def mock_New_def sample_config_def
       sample_incoming_def getRouteConfig_def mget_def UpdateConfig_def)
  then show ?thesis by (blast intro: mock_exec_all_run)
qed

text \<open>
  C25. The call counter counts the requests that arrived since the last reset,
  however requests, updates and resets interleave: modulo the 32 bits of the counter, and
  exactly while there are fewer than 2 to the 31.
\<close>

theorem call_count_since_reset:
  assumes "mock_run encode hijack (mock_init m) es t" "mb_callCount m = 0"
  shows "mb_callCount (ms_mock t) = of_nat (arrivals es) \<and>
    (arrivals es < 2 ^ 31 \<longrightarrow> GetCallCount (ms_mock t) = int (arrivals es))"
proof -
  have c: "mb_callCount (ms_mock t) = of_nat (arrivals es)"
    using run_counts[OF assms(1)] assms(2) by (simp add: mock_init_def)
  have "sint (of_nat n :: 32 word) = int n" if "n < 2 ^ 31" for n
    using that by (simp add: signed_of_nat signed_take_bit_int_eq_self)
  with c show ?thesis by (simp add: GetCallCount_def)
qed

theorem call_count_since_reset_witness:
  "\<exists>t. mock_run (\<lambda>e. []) Hijacked (mock_init sample_mock) sample_events t \<and>
     GetCallCount (ms_mock t) = 2"
proof -
  obtain t where t: "mock_run (\<lambda>e. []) Hijacked (mock_init sample_mock) sample_events t"
    using sample_run by blast
  have "mb_callCount sample_mock = 0" by (simp add: sample_mock_def mock_Start_def mock_New_def)
  from call_count_since_reset[OF t this] t show ?thesis by (auto simp: sample_events_def)
qed

text \<open>
  C29. An answered request was counted before, and its answer is the one for the
  configuration that was current at the moment the handler read it, after the request
  arrived: a concurrent update is seen entirely or not at all.
\<close>

theorem answers_use_current_config:
  assumes "mock_run encode hijack (mock_init m) es t" "mock_step encode hijack t (Answer i out) u"
  shows "\<exists>es1 es2 r. es = es1 @ ReadConfig i # es2 \<and> Arrive i r \<in> set es1 \<and>
    out = respond encode hijack (getRouteConfig (current es1 (mb_config m)) (in_Path r)) r"
proof -
  from assms(2) obtain r rc where h: "ms_handlers t i = Some (Configured r rc)"
    "respond encode hijack rc r = out" by (auto elim: answerE)
  from run_handlers[OF assms(1) refl] h(1) have "served_from (mb_config m) es i r rc"
    by (simp add: handlers_ok_def)
  with h(2) show ?thesis unfolding served_from_def by blast
qed

theorem answers_use_current_config_witness:
  "\<exists>es1 es2 r. sample_events @ [ReadConfig 1] = es1 @ ReadConfig 1 # es2 \<and> Arrive 1 r \<in> set es1 \<and>
     Responds 503 (setHeaders [(''Content-Length'', ''2'')] (setHeaders [(''x-a'', ''1'')] [])) ''hi'' =
       respond (\<lambda>e. []) Hijacked (getRouteConfig (current es1 (mb_config sample_mock)) (in_Path r)) r"
proof -
  let ?out = "Responds 503 (setHeaders [(''Content-Length'', ''2'')] (setHeaders [(''x-a'', ''1'')] [])) ''hi''"
  have two: "Itoa 2 = ''2''" by code_simp
  have "\<exists>t u. mock_exec_all (\<lambda>e. []) Hijacked (sample_events @ [ReadConfig 1]) (mock_init sample_mock) = Some t \<and>
      mock_exec (\<lambda>e. []) Hijacked (Answer 1 ?out) t = Some u"
    by (simp add: sample_events_def mock_init_def sample_mock_def mock_Start_def mock_New_def sample_config_def
       sample_incoming_def getRouteConfig_def mget_def UpdateConfig_def respond_def setHeaders_def Let_def two)
  then obtain t u where "mock_run (\<lambda>e. []) Hijacked (mock_init sample_mock) (sample_events @ [ReadConfig 1]) t"
    "mock_step (\<lambda>e. []) Hijacked t (Answer 1 ?out) u"
    unfolding mock_exec_step using mock_exec_all_run by blast
  then show ?thesis by (rule answers_use_current_config)
qed

text \<open>
  A frozen request is never answered: it ends only when its client disconnects
  or after the backend was stopped; and stopping the backend lets every waiting handler end.
\<close>

lemma frozen_until_stopped:
  assumes "mock_run encode hijack (mock_init m) es t" "\<not> mb_stopped m"
    and "ms_handlers t i = Some (Configured r rc)" "rc_FailureMode rc = ''frozen''" "\<not> rc_EchoRequest rc"
  shows "(\<forall>out u. \<not> mock_step encode hijack t (Answer i out) u) \<and>
    (\<forall>u. mock_step encode hijack t (Release i False) u \<longrightarrow> Stop \<in> set es) \<and>
    (Stop \<in> set es \<longrightarrow> (\<exists>u. mock_step encode hijack t (Release i False) u \<and> ms_handlers u i = None))"
proof -
  have waits: "respond encode hijack rc r = Waits" using assms(4,5) by (simp add: respond_def)
  have stopped: "mb_stopped (ms_mock t) \<longleftrightarrow> Stop \<in> set es"
    using run_stopped[OF assms(1)] assms(2) by (simp add: mock_init_def)
  show ?thesis
  proof (intro conjI allI impI)
    show "\<not> mock_step encode hijack t (Answer i out) u" for out u
      using waits assms(3) by (auto elim: answerE)
    show "Stop \<in> set es" if "mock_step encode hijack t (Release i False) u" for u
      using that stopped by (auto elim: releaseE)
    assume "Stop \<in> set es"
    with stopped have "mock_step encode hijack t (Release i False) (t\<lparr>ms_handlers := (ms_handlers t)(i := None)\<rparr>)"
      using waits assms(3) by (auto intro: release)
    then show "\<exists>u. mock_step encode hijack t (Release i False) u \<and> ms_handlers u i = None"
      by (intro exI[of _ "t\<lparr>ms_handlers := (ms_handlers t)(i := None)\<rparr>"]) simp
  qed
qed

text \<open>
  C36. The answer to one request: it is counted; an exact route for its path replaces
  the top-level response; echo mode returns the request itself; a failing backend closes the
  connection; otherwise the configured status, headers and body are sent with the length of
  a non-empty body, unless the status is one that \<^verbatim>\<open>WriteHeader\<close> rejects by panicking.
\<close>

theorem mock_response_spec:
  assumes "rc = (case Option.bind (cfg_Routes (mb_config m)) (\<lambda>routes. mget routes (in_Path r)) of
        Some route \<Rightarrow> route
      | None \<Rightarrow> RouteConfig.make (cfg_Status (mb_config m)) (cfg_Headers (mb_config m)) (cfg_Body (mb_config m))
                  (cfg_FailureMode (mb_config m)) (cfg_EchoRequest (mb_config m)))"
    and "handleRequest encode Hijacked r m = (out, m')"
  shows "m' = m\<lparr>mb_callCount := mb_callCount m + 1\<rparr> \<and>
    (rc_EchoRequest rc \<longrightarrow> (\<exists>h. out = Responds 200 h (encode (EchoResponse.make (in_Method r) (in_URL r)
        (in_Path r) (in_Query r) (in_Header r) (in_Body r))))) \<and>
    (\<not> rc_EchoRequest rc \<and> rc_FailureMode rc = ''failed'' \<longrightarrow> out = ClosesConnection) \<and>
    (\<not> rc_EchoRequest rc \<and> rc_FailureMode rc = ''frozen'' \<longrightarrow> out = Waits) \<and>
    (\<not> rc_EchoRequest rc \<and> rc_FailureMode rc = [] \<and> 100 \<le> rc_Status rc \<and> rc_Status rc \<le> 999 \<longrightarrow>
       (\<exists>h. out = Responds (rc_Status rc) h (rc_Body rc) \<and>
          (rc_Body rc \<noteq> [] \<longrightarrow> HeaderGet h ''Content-Length'' = Itoa (int (length (rc_Body rc)))) \<and>
          (distinct (map (CanonicalHeaderKey \<circ> fst) (rc_Headers rc)) \<longrightarrow>
            (\<forall>(k, v) \<in> set (rc_Headers rc). CanonicalHeaderKey k \<noteq> CanonicalHeaderKey ''Content-Length'' \<longrightarrow>
               HeaderGet h k = v)))) \<and>
    (\<not> rc_EchoRequest rc \<and> rc_FailureMode rc = [] \<and> \<not> (100 \<le> rc_Status rc \<and> rc_Status rc \<le> 999) \<longrightarrow>
       out = Panics (rc_Status rc))"
proof -
  have rc: "rc = getRouteConfig (mb_config m) (in_Path r)"
    using assms(1) by (auto simp: getRouteConfig_def RouteConfig.defs split: option.splits)
  then have out: "out = respond encode Hijacked rc r" "m' = m\<lparr>mb_callCount := mb_callCount m + 1\<rparr>"
    using assms(2) by (auto simp: handleRequest_def Let_def)
  have hdrs: "distinct (map (CanonicalHeaderKey \<circ> fst) hs) \<Longrightarrow> (k, v) \<in> set hs \<Longrightarrow>
      HeaderGet (setHeaders hs []) k = v" for hs k v
    unfolding setHeaders_def by (rule HeaderSet_all) auto
  show ?thesis
    using out hdrs by (auto simp: respond_def Let_def EchoResponse.defs HeaderGet_Set)
qed

theorem mock_response_spec_witness:
  "snd (handleRequest (\<lambda>e. []) Hijacked (sample_incoming ''/slow'') sample_mock) =
     sample_mock\<lparr>mb_callCount := mb_callCount sample_mock + 1\<rparr> \<and>
   fst (handleRequest (\<lambda>e. []) Hijacked (sample_incoming ''/slow'') sample_mock) = Waits"
proof -
  let ?rc = "\<lparr>rc_Status = 0, rc_Headers = [], rc_Body = [], rc_FailureMode = ''frozen'', rc_EchoRequest = False\<rparr>"
  have "?rc = (case Option.bind (cfg_Routes (mb_config sample_mock)) (\<lambda>routes. mget routes (in_Path (sample_incoming ''/slow''))) of
        Some route \<Rightarrow> route
      | None \<Rightarrow> RouteConfig.make (cfg_Status (mb_config sample_mock)) (cfg_Headers (mb_config sample_mock))
                  (cfg_Body (mb_config sample_mock)) (cfg_FailureMode (mb_config sample_mock))
                  (cfg_EchoRequest (mb_config sample_mock)))"
    by (simp add: sample_mock_def mock_Start_def mock_New_def sample_config_def sample_incoming_def mget_def)
  from mock_response_spec[OF this prod.collapse[symmetric]] show ?thesis by simp
qed

end
