(* ===== verification/AdmWire.thy ===== *)
theory AdmWire
  imports GoStrings GoMaps
begin

text \<open>
  Package \<^verbatim>\<open>varnishadm\<close>, the connection (\<^verbatim>\<open>varnishadm.go\<close>, \<^verbatim>\<open>const.go\<close>): framing of the
  Varnish CLI protocol, running a command, authentication, the banner and the transcript.

  A connection delivers its bytes in segments of any size; a read returns at most one of
  them. When no segment is left, a read fails (the peer closed or the deadline passed). What
  the peer sends in reply to a line is the field \<open>cn_peer\<close>.
\<close>

section \<open>Constants and responses\<close>

definition ClisSyntax :: int where "ClisSyntax = 100"
definition ClisUnknown :: int where "ClisUnknown = 101"
definition ClisAuth :: int where "ClisAuth = 107"
definition ClisOk :: int where "ClisOk = 200"
definition ClisComms :: int where "ClisComms = 400"

record VarnishResponse =
  statusCode :: int
  payload :: string

definition NewVarnishResponse :: "int \<Rightarrow> string \<Rightarrow> VarnishResponse" where
  "NewVarnishResponse st pl = \<lparr>statusCode = st, payload = pl\<rparr>"

definition truncatePayload :: "string \<Rightarrow> nat \<Rightarrow> string" where
  "truncatePayload pl maxLen =
     (if length pl \<le> maxLen then pl
      else take maxLen pl @ ''... (truncated, '' @ Itoa (int (length pl)) @ '' bytes total)'')"

section \<open>The connection\<close>

record Conn =
  cn_in :: "string list"
  cn_out :: "string list"
  cn_peer :: "string \<Rightarrow> string list"
  cn_open :: bool

text \<open>
  A \<^verbatim>\<open>bufio.Reader\<close> has a buffer of 4096 bytes. With an empty buffer, a read of at least
  that size goes to the connection directly, a smaller one fills the buffer by one read.
  \<open>readFull\<close> is \<^verbatim>\<open>io.ReadFull\<close>: it reads until it has \<open>n\<close> bytes.
\<close>

definition bufSize :: nat where "bufSize = 4096"

definition cut :: "nat \<Rightarrow> string \<Rightarrow> string list \<Rightarrow> string list" where
  "cut n seg segs = (if length seg \<le> n then segs else drop n seg # segs)"

function readFull :: "nat \<Rightarrow> string \<Rightarrow> string list \<Rightarrow> (string \<times> string \<times> string list) option" where
  "readFull n buf segs =
     (if n = 0 then Some ([], buf, segs)
      else if buf \<noteq> [] then
        (case readFull (n - length (take n buf)) (drop n buf) segs of
           None \<Rightarrow> None | Some (bytes, buf', segs') \<Rightarrow> Some (take n buf @ bytes, buf', segs'))
      else
        (case segs of
           [] \<Rightarrow> None
         | seg # rest \<Rightarrow>
             if n \<ge> bufSize then
               (case readFull (n - length (take n seg)) [] (cut n seg rest) of
                  None \<Rightarrow> None | Some (bytes, buf', segs') \<Rightarrow> Some (take n seg @ bytes, buf', segs'))
             else readFull n (take bufSize seg) (cut bufSize seg rest)))"
  by pat_completeness auto
termination
proof (relation "measures [\<lambda>(n, buf, segs). n, \<lambda>(n, buf, segs). sum_list (map (Suc \<circ> length) segs)]")
  fix n :: nat and buf :: string and segs rest :: "string list" and seg :: string
  show "n \<noteq> 0 \<Longrightarrow> buf \<noteq> [] \<Longrightarrow> ((n - length (take n buf), drop n buf, segs), n, buf, segs)
      \<in> measures [\<lambda>(n, buf, segs). n, \<lambda>(n, buf, segs). sum_list (map (Suc \<circ> length) segs)]"
    by (cases buf) auto
  show "n \<noteq> 0 \<Longrightarrow> \<not> buf \<noteq> [] \<Longrightarrow> segs = seg # rest \<Longrightarrow> bufSize \<le> n \<Longrightarrow>
      ((n - length (take n seg), [], cut n seg rest), n, buf, segs)
      \<in> measures [\<lambda>(n, buf, segs). n, \<lambda>(n, buf, segs). sum_list (map (Suc \<circ> length) segs)]"
    by (cases seg) (auto simp: cut_def)
  show "n \<noteq> 0 \<Longrightarrow> \<not> buf \<noteq> [] \<Longrightarrow> segs = seg # rest \<Longrightarrow> \<not> bufSize \<le> n \<Longrightarrow>
      ((n, take bufSize seg, cut bufSize seg rest), n, buf, segs)
      \<in> measures [\<lambda>(n, buf, segs). n, \<lambda>(n, buf, segs). sum_list (map (Suc \<circ> length) segs)]"
    by (auto simp: cut_def bufSize_def)
qed simp

declare readFull.simps [simp del]

section \<open>Reading a response\<close>

datatype ReadError =
    SetDeadlineFailed
  | HeaderReadFailed
  | MissingSpace
  | MissingHeaderNewline
  | InvalidStatus string
  | InvalidLength string
  | BodyReadFailed
  | MissingTrailingNewline

datatype 'a outcome = Ok 'a | Err ReadError | Crash

text \<open>
  Go's \<^verbatim>\<open>make([]byte, n)\<close> and \<^verbatim>\<open>b[i]\<close>: both panic, here \<open>None\<close>, the first on a negative
  length, the second on an index outside the slice.
\<close>

definition makeBytes :: "int \<Rightarrow> string option" where
  "makeBytes n = (if n < 0 then None else Some (replicate (nat n) (CHR 0x00)))"

definition byteAt :: "string \<Rightarrow> int \<Rightarrow> char option" where
  "byteAt b i = (if 0 \<le> i \<and> i < int (length b) then Some (b ! nat i) else None)"

text \<open>
  \<^verbatim>\<open>readFromConnection\<close> makes a new buffered reader, so bytes left in its buffer are lost.
\<close>

definition readFromConnection :: "Conn \<Rightarrow> (string \<times> int) outcome \<times> Conn" where
  "readFromConnection conn =
     (if \<not> cn_open conn then (Err SetDeadlineFailed, conn)
      else case readFull 13 [] (cn_in conn) of
        None \<Rightarrow> (Err HeaderReadFailed, conn\<lparr>cn_in := []\<rparr>)
      | Some (header, buf, segs) \<Rightarrow>
          let conn1 = conn\<lparr>cn_in := segs\<rparr> in
          if header ! 3 \<noteq> CHR '' '' then (Err MissingSpace, conn1)
          else if header ! 12 \<noteq> newline then (Err MissingHeaderNewline, conn1)
          else
            let statusStr = TrimSpace (take 3 header) in
            case Atoi statusStr of
              None \<Rightarrow> (Err (InvalidStatus statusStr), conn1)
            | Some status \<Rightarrow>
                let lengthStr = TrimSpace (take 8 (drop 4 header)) in
                case Atoi lengthStr of
                  None \<Rightarrow> (Err (InvalidLength lengthStr), conn1)
                | Some bodyLen \<Rightarrow>
                    case makeBytes (bodyLen + 1) of
                      None \<Rightarrow> (Crash, conn1)
                    | Some space \<Rightarrow>
                        (case readFull (length space) buf segs of
                           None \<Rightarrow> (Err BodyReadFailed, conn\<lparr>cn_in := []\<rparr>)
                         | Some (bodyWithNewline, buf', segs') \<Rightarrow>
                             let conn2 = conn\<lparr>cn_in := segs'\<rparr> in
                             case byteAt bodyWithNewline bodyLen of
                               None \<Rightarrow> (Crash, conn2)
                             | Some c \<Rightarrow>
                                 if c \<noteq> newline then (Err MissingTrailingNewline, conn2)
                                 else (Ok (take (nat bodyLen) bodyWithNewline, status), conn2)))"

section \<open>The server\<close>

record Server =
  sv_Port :: nat
  sv_Secret :: string
  sv_listening :: bool
  sv_banner :: string
  sv_bannerReceived :: bool
  sv_environment :: string
  sv_version :: string
  sv_transcript :: "string list option"

definition server_New :: "nat \<Rightarrow> string \<Rightarrow> Server" where
  "server_New port secret =
     \<lparr>sv_Port = port, sv_Secret = secret, sv_listening = False, sv_banner = [],
      sv_bannerReceived = False, sv_environment = [], sv_version = [], sv_transcript = None\<rparr>"

datatype 'e ListenError = ListenerExists | ListenFailed 'e

text \<open>\<open>listen\<close> is the port \<^verbatim>\<open>net.Listen\<close> bound, or its error.\<close>

definition server_Listen ::
  "(nat \<Rightarrow> ('e, nat) result) \<Rightarrow> Server \<Rightarrow> ('e ListenError, nat) result \<times> Server" where
  "server_Listen listen v =
     (if sv_listening v then (Inl ListenerExists, v)
      else case listen (sv_Port v) of
        Inl e \<Rightarrow> (Inl (ListenFailed e), v)
      | Inr actualPort \<Rightarrow>
          (Inr (actualPort mod 2 ^ 16),
           v\<lparr>sv_listening := True, sv_Port := actualPort mod 2 ^ 16\<rparr>))"

definition writeTranscript :: "string \<Rightarrow> string \<Rightarrow> int \<Rightarrow> string \<Rightarrow> Server \<Rightarrow> Server" where
  "writeTranscript timestamp direction status content v =
     (case sv_transcript v of
        None \<Rightarrow> v
      | Some lines \<Rightarrow>
          let escaped = ReplaceAll content [newline] [CHR 0x5C, CHR ''n''];
              escapedContent =
                (if length escaped > 500
                 then take 500 escaped @ ''... ('' @ Itoa (int (length content)) @ '' bytes total)''
                 else escaped)
          in v\<lparr>sv_transcript := Some (lines @
               [timestamp @ '' '' @ direction @ '' '' @ Itoa status @ '' '' @
                Itoa (int (length content)) @ '' '' @ escapedContent @ [newline]])\<rparr>)"

section \<open>Running a command\<close>

datatype RunError =
    EmptyCommand
  | WriteDeadlineFailed
  | ReadFailed ReadError
  | ServerCrash

text \<open>
  A write to an open connection writes the whole line; the reply of the peer follows. The
  clock is the argument \<open>now\<close>.
\<close>

definition run ::
  "string \<Rightarrow> string \<Rightarrow> Server \<Rightarrow> Conn \<Rightarrow> (RunError, VarnishResponse) result \<times> Server \<times> Conn" where
  "run now cmd v conn =
     (if cmd = [] then (Inl EmptyCommand, v, conn)
      else
        let cmdForLog = (if HasPrefix cmd ''auth '' then ''auth <redacted>'' else cmd);
            v1 = writeTranscript now ''>>>'' 0 cmdForLog v
        in if \<not> cn_open conn then (Inl WriteDeadlineFailed, v1, conn)
           else
             let conn1 = conn\<lparr>cn_out := cn_out conn @ [cmd @ [newline]],
                              cn_in := cn_in conn @ cn_peer conn (cmd @ [newline])\<rparr>
             in case readFromConnection conn1 of
                  (Ok (body, status), conn2) \<Rightarrow>
                    (Inr \<lparr>statusCode = status, payload = body\<rparr>,
                     writeTranscript now ''<<<'' status body v1, conn2)
                | (Err e, conn2) \<Rightarrow> (Inl (ReadFailed e), writeTranscript now ''<<<'' 0 [] v1, conn2)
                | (Crash, conn2) \<Rightarrow> (Inl ServerCrash, v1, conn2))"

section \<open>The banner\<close>

definition word_char :: "char \<Rightarrow> bool" where
  "word_char c \<longleftrightarrow> is_alnum c \<or> c = CHR ''_''"

definition regex_space :: "char \<Rightarrow> bool" where
  "regex_space c \<longleftrightarrow> c \<in> set [CHR 0x09, CHR 0x0A, CHR 0x0C, CHR 0x0D, CHR '' '']"

text \<open>
  The environment line: a word, then one or more non-empty parts after commas, up to white
  space at the end of the line. The version: the text from the first
  \<^verbatim>\<open>varnish-\<close> that is followed by something on its line, to the end of that line.
\<close>

definition envLine :: "string \<Rightarrow> string option" where
  "envLine line =
     (let body = takeWhile (\<lambda>c. c \<noteq> CHR 0x0D) line;
          rest = dropWhile (\<lambda>c. c \<noteq> CHR 0x0D) line
      in case Split body '','' of
           w # p # ps \<Rightarrow>
             if w \<noteq> [] \<and> list_all word_char w \<and> list_all (\<lambda>x. x \<noteq> []) (p # ps) \<and> list_all regex_space rest
             then Some body else None
         | _ \<Rightarrow> None)"

fun firstEnv :: "string list \<Rightarrow> string" where
  "firstEnv [] = []"
| "firstEnv (l # ls) = (case envLine l of Some e \<Rightarrow> e | None \<Rightarrow> firstEnv ls)"

definition line_end :: "char \<Rightarrow> bool" where
  "line_end c \<longleftrightarrow> c = newline \<or> c = CHR 0x0D"

fun findVersion :: "string \<Rightarrow> string" where
  "findVersion [] = []"
| "findVersion (c # cs) =
     (let rest = drop 8 (c # cs) in
      if HasPrefix (c # cs) ''varnish-'' \<and> rest \<noteq> [] \<and> \<not> line_end (hd rest)
      then ''varnish-'' @ takeWhile (\<lambda>c. \<not> line_end c) rest
      else findVersion cs)"

definition parseBanner :: "string \<Rightarrow> string \<times> string" where
  "parseBanner banner = (firstEnv (Split banner [newline]), findVersion banner)"

section \<open>Authentication\<close>

definition hexDigit :: "nat \<Rightarrow> char" where
  "hexDigit d = ''0123456789abcdef'' ! d"

definition hexEncode :: "string \<Rightarrow> string" where
  "hexEncode bs = concat (map (\<lambda>c. [hexDigit (byte c div 16), hexDigit (byte c mod 16)]) bs)"

datatype BannerError =
    ChallengeReadFailed ReadError
  | ChallengeCrash
  | NotAChallenge int string
  | AuthFailed RunError
  | AuthRejected int string

text \<open>\<open>sha256\<close> is the hash function; the event published on success goes to the broker.\<close>

definition readBanner ::
  "(string \<Rightarrow> string) \<Rightarrow> string \<Rightarrow> Server \<Rightarrow> Conn \<Rightarrow> BannerError option \<times> Server \<times> Conn" where
  "readBanner sha256 now v conn =
     (case readFromConnection conn of
        (Err e, conn1) \<Rightarrow> (Some (ChallengeReadFailed e), v, conn1)
      | (Crash, conn1) \<Rightarrow> (Some ChallengeCrash, v, conn1)
      | (Ok (pl, st), conn1) \<Rightarrow>
          let v1 = writeTranscript now ''<<<'' st ''<auth challenge>'' v in
          if st \<noteq> ClisAuth then (Some (NotAChallenge st (TrimChar pl newline)), v1, conn1)
          else
            let challenge = hd (Split pl [newline]);
                authenticator = sha256 (challenge @ [newline] @ sv_Secret v @ challenge @ [newline]);
                authCmd = ''auth '' @ hexEncode authenticator
            in case run now authCmd v1 conn1 of
                 (Inl e, v2, conn2) \<Rightarrow> (Some (AuthFailed e), v2, conn2)
               | (Inr resp, v2, conn2) \<Rightarrow>
                   if statusCode resp \<noteq> ClisOk
                   then (Some (AuthRejected (statusCode resp) (payload resp)), v2, conn2)
                   else
                     let (env, ver) = parseBanner (payload resp) in
                     (None,
                      v2\<lparr>sv_banner := payload resp, sv_bannerReceived := True,
                         sv_environment := env, sv_version := ver\<rparr>, conn2))"

text \<open>
  \<^verbatim>\<open>handleConnection\<close>: after the banner, the queued commands are run in order, each
  answered to its requester, until one fails.
\<close>

fun serveCommands ::
  "string \<Rightarrow> string list \<Rightarrow> Server \<Rightarrow> Conn \<Rightarrow> VarnishResponse list \<times> RunError option \<times> Server \<times> Conn" where
  "serveCommands now [] v conn = ([], None, v, conn)"
| "serveCommands now (cmd # cmds) v conn =
     (case run now cmd v conn of
        (Inl e, v1, conn1) \<Rightarrow> ([], Some e, v1, conn1)
      | (Inr resp, v1, conn1) \<Rightarrow>
          (case serveCommands now cmds v1 conn1 of
             (resps, e, v2, conn2) \<Rightarrow> (resp # resps, e, v2, conn2)))"

definition handleConnection ::
  "(string \<Rightarrow> string) \<Rightarrow> string \<Rightarrow> string list \<Rightarrow> Server \<Rightarrow> Conn \<Rightarrow>
   (BannerError, VarnishResponse list \<times> RunError option) result \<times> Server \<times> Conn" where
  "handleConnection sha256 now cmds v conn =
     (let v0 = v\<lparr>sv_bannerReceived := False, sv_banner := []\<rparr> in
      case readBanner sha256 now v0 conn of
        (Some e, v1, conn1) \<Rightarrow> (Inl e, v1, conn1)
      | (None, v1, conn1) \<Rightarrow>
          (case serveCommands now cmds v1 conn1 of
             (resps, e, v2, conn2) \<Rightarrow> (Inr (resps, e), v2, conn2)))"

section \<open>Reading is independent of the segmentation\<close>

lemma cut_append: "cut n seg (ms @ rest) = cut n seg ms @ rest"
  by (simp add: cut_def)

lemma cut_concat: "concat (cut n seg segs) = drop n seg @ concat segs"
  by (simp add: cut_def)

lemma cut_nonempty: "list_all (\<lambda>s. s \<noteq> []) segs \<Longrightarrow> list_all (\<lambda>s. s \<noteq> []) (cut n seg segs)"
  by (simp add: cut_def)

text \<open>
  With enough bytes in the buffer and the segments \<open>ms\<close>, exactly the first \<open>n\<close> bytes are
  returned and the segments after \<open>ms\<close> are untouched.
\<close>

lemma readFull_spec:
  assumes "n \<le> length (buf @ concat ms)" "list_all (\<lambda>s. s \<noteq> []) ms"
  shows "\<exists>buf' ms'. readFull n buf (ms @ rest) = Some (take n (buf @ concat ms), buf', ms' @ rest) \<and>
    buf' @ concat ms' = drop n (buf @ concat ms) \<and> list_all (\<lambda>s. s \<noteq> []) ms'"
  using assms
proof (induction n buf "ms @ rest" arbitrary: ms rule: readFull.induct)
  case (1 n buf)
  consider (zero) "n = 0" | (buf) "n \<noteq> 0" "buf \<noteq> []" | (seg) "n \<noteq> 0" "buf = []" by blast
  then show ?case
  proof cases
    case zero
    then show ?thesis using 1(5) by (auto simp: readFull.simps)
  next
    case buf
    have "n - length (take n buf) \<le> length (drop n buf @ concat ms)" using 1(4) by auto
    from 1(1)[OF buf this 1(5)] obtain buf' ms' where
      *: "readFull (n - length (take n buf)) (drop n buf) (ms @ rest) =
          Some (take (n - length (take n buf)) (drop n buf @ concat ms), buf', ms' @ rest)"
      "buf' @ concat ms' = drop (n - length (take n buf)) (drop n buf @ concat ms)"
      "list_all (\<lambda>s. s \<noteq> []) ms'" by blast
    have "take n buf @ take (n - length (take n buf)) (drop n buf @ concat ms) = take n (buf @ concat ms)"
      "drop (n - length (take n buf)) (drop n buf @ concat ms) = drop n (buf @ concat ms)"
      by (cases "n \<le> length buf"; simp)+
    with * buf show ?thesis by (subst readFull.simps) simp
  next
    case seg
    with 1(4) obtain s ss where ms: "ms = s # ss" by (cases ms) auto
    have ne: "list_all (\<lambda>s. s \<noteq> []) (cut k s ss)" for k using 1(5) ms by (simp add: cut_nonempty)
    show ?thesis
    proof (cases "n \<ge> bufSize")
      case True
      have "n - length (take n s) \<le> length ([] @ concat (cut n s ss))"
        using 1(4) seg ms by (simp add: cut_concat)
      from 1(2)[OF seg(1) _ _ True _ this ne] seg ms obtain buf' ms' where
        *: "readFull (n - length (take n s)) [] (cut n s ss @ rest) =
          Some (take (n - length (take n s)) (concat (cut n s ss)), buf', ms' @ rest)"
        "buf' @ concat ms' = drop (n - length (take n s)) (concat (cut n s ss))"
        "list_all (\<lambda>s. s \<noteq> []) ms'" by (auto simp: cut_append)
      have "take n s @ take (n - length (take n s)) (drop n s @ concat ss) = take n (s @ concat ss)"
        "drop (n - length (take n s)) (drop n s @ concat ss) = drop n (s @ concat ss)"
        by (cases "n \<le> length s"; simp)+
      with * seg ms True show ?thesis by (subst readFull.simps) (simp add: cut_append cut_concat)
    next
      case False
      have all: "take bufSize s @ concat (cut bufSize s ss) = concat ms"
        by (simp add: cut_concat ms)
      then have "n \<le> length (take bufSize s @ concat (cut bufSize s ss))" using 1(4) seg by simp
      from 1(3)[OF seg(1) _ _ False _ this ne] seg ms obtain buf' ms' where
        *: "readFull n (take bufSize s) (cut bufSize s ss @ rest) =
          Some (take n (take bufSize s @ concat (cut bufSize s ss)), buf', ms' @ rest)"
        "buf' @ concat ms' = drop n (take bufSize s @ concat (cut bufSize s ss))"
        "list_all (\<lambda>s. s \<noteq> []) ms'" by (auto simp: cut_append)
      have "readFull n buf (ms @ rest) = readFull n (take bufSize s) (cut bufSize s ss @ rest)"
        using seg ms False by (subst readFull.simps) (simp add: cut_append)
      with * seg show ?thesis unfolding all by auto
    qed
  qed
qed

lemma readFull_exact:
  assumes "buf @ concat ms = h @ t" "length h = n" "list_all (\<lambda>s. s \<noteq> []) ms"
  obtains buf' ms' where "readFull n buf (ms @ rest) = Some (h, buf', ms' @ rest)"
    "buf' @ concat ms' = t" "list_all (\<lambda>s. s \<noteq> []) ms'"
  using readFull_spec[of n buf ms rest] assms by auto

text \<open>With too few bytes the read fails, in every segmentation.\<close>

lemma readFull_short: "length (buf @ concat segs) < n \<Longrightarrow> readFull n buf segs = None"
proof (induction n buf segs rule: readFull.induct)
  case (1 n buf segs)
  show ?case
  proof (cases "buf = []")
    case False
    have "length (drop n buf @ concat segs) < n - length (take n buf)" using 1(4) by auto
    with 1(1) 1(4) False show ?thesis by (subst readFull.simps) simp
  next
    case True
    show ?thesis
    proof (cases segs)
      case Nil
      with True 1(4) show ?thesis by (subst readFull.simps) simp
    next
      case (Cons seg rest)
      have "length ([] @ concat (cut n seg rest)) < n - length (take n seg)"
        "length (take bufSize seg @ concat (cut bufSize seg rest)) < n"
        using 1(4) True Cons by (auto simp: cut_concat)
      with 1(2,3) 1(4) True Cons show ?thesis by (subst readFull.simps) simp
    qed
  qed
qed

section \<open>The format of a response\<close>

text \<open>The frame that varnishd sends: status and length left-aligned in 3 and 8 columns.\<close>

definition encodeResponse :: "int \<Rightarrow> string \<Rightarrow> string" where
  "encodeResponse status body =
     padRight 3 (Itoa status) @ '' '' @ padRight 8 (Itoa (int (length body))) @ [newline] @ body @ [newline]"

definition framable :: "int \<Rightarrow> string \<Rightarrow> bool" where
  "framable status body \<longleftrightarrow> 0 \<le> status \<and> status < 1000 \<and> length body < 10 ^ 8"

lemma trimFront_blanks:
  "(\<And>t. sl (CHR '' '' # t) = 1) \<Longrightarrow> sl s = 0 \<Longrightarrow> n \<le> k \<Longrightarrow>
   trimFront sl k (replicate n (CHR '' '') @ s) = s"
proof (induction n arbitrary: k)
  case 0
  then show ?case by (cases k) auto
next
  case (Suc n)
  then obtain k' where "k = Suc k'" by (cases k) auto
  with Suc show ?case by simp
qed

lemma TrimSpace_padRight:
  assumes "list_all is_graph w" "w \<noteq> []"
  shows "TrimSpace (padRight n w) = w"
proof -
  obtain c cs where c: "w = c # cs" using assms(2) by (cases w) auto
  then have front: "space_len (w @ t) = 0" for t using assms(1) by (simp del: space_len.simps)
  obtain d ds where d: "rev w = d # ds" using assms(2) by (cases "rev w") auto
  have "list_all is_graph (rev w)" using assms(1) by simp
  then have rear: "space_len_rev (rev w) = 0" by (simp add: d del: space_len_rev.simps)
  show ?thesis
    unfolding TrimSpace_def padRight_def Let_def
    by (simp add: trimFront_graph front trimFront_blanks[of space_len_rev, OF _ rear])
qed

lemma nat_digits_length: "n < 10 ^ k \<Longrightarrow> 0 < k \<Longrightarrow> length (nat_digits n) \<le> k"
proof (induction k arbitrary: n)
  case (Suc k)
  show ?case
  proof (cases "n < 10")
    case True
    then show ?thesis by (subst nat_digits.simps) simp
  next
    case False
    then have "0 < k" using Suc.prems by (cases k) auto
    moreover have "n div 10 < 10 ^ k" using Suc.prems by auto
    ultimately have "length (nat_digits (n div 10)) \<le> k" using Suc.IH by blast
    then show ?thesis using False by (subst nat_digits.simps) simp
  qed
qed simp

lemma encode_header:
  assumes "framable status body"
  shows "length (padRight 3 (Itoa status)) = 3" "length (padRight 8 (Itoa (int (length body)))) = 8"
proof -
  have "length (Itoa status) \<le> 3" "length (Itoa (int (length body))) \<le> 8"
    using assms nat_digits_length[of "nat status" 3] nat_digits_length[of "length body" 8]
    by (auto simp: framable_def Itoa_def)
  then show "length (padRight 3 (Itoa status)) = 3" "length (padRight 8 (Itoa (int (length body)))) = 8"
    by (simp_all add: padRight_def)
qed

text \<open>A frame is read back whatever its segmentation, and nothing after it is touched.\<close>

lemma read_encoded:
  assumes f: "framable status body" and opn: "cn_open conn"
    and segs: "cn_in conn = ms @ rest" "concat ms = encodeResponse status body" "list_all (\<lambda>s. s \<noteq> []) ms"
  shows "readFromConnection conn = (Ok (body, status), conn\<lparr>cn_in := rest\<rparr>)"
proof -
  let ?st = "padRight 3 (Itoa status)" and ?ln = "padRight 8 (Itoa (int (length body)))"
  let ?header = "?st @ '' '' @ ?ln @ [newline]"
  note len = encode_header[OF f]
  have enc: "concat ms = ?header @ (body @ [newline])" "length ?header = 13"
    using segs(2) len by (simp_all add: encodeResponse_def)
  obtain buf ms1 where 1: "readFull 13 [] (cn_in conn) = Some (?header, buf, ms1 @ rest)"
    "buf @ concat ms1 = body @ [newline]" "list_all (\<lambda>s. s \<noteq> []) ms1"
    unfolding segs(1) by (rule readFull_exact[of "[]" ms ?header "body @ [newline]" 13]) (use enc segs(3) in simp_all)
  obtain buf2 ms2 where 2: "readFull (length body + 1) buf (ms1 @ rest) = Some (body @ [newline], buf2, ms2 @ rest)"
    "buf2 @ concat ms2 = []" "list_all (\<lambda>s. s \<noteq> []) ms2"
    by (rule readFull_exact[of buf ms1 "body @ [newline]" "[]" "length body + 1"]) (use 1(2,3) in simp_all)
  then have ms2: "ms2 = []" by (cases ms2) auto
  have st: "TrimSpace (take 3 ?header) = Itoa status" "TrimSpace (take 8 (drop 4 ?header)) = Itoa (int (length body))"
    using len by (simp_all add: TrimSpace_padRight Itoa_graph)
  have "in_int64 status" "in_int64 (int (length body))" using f by (auto simp: framable_def in_int64_def)
  then have at: "Atoi (TrimSpace (take 3 ?header)) = Some status"
    "Atoi (TrimSpace (take 8 (drop 4 ?header))) = Some (int (length body))"
    unfolding st by (simp_all only: Atoi_Itoa)
  have ix: "?header ! 3 = CHR '' ''" "?header ! 12 = newline" using len by (simp_all add: nth_append)
  have "readFromConnection conn = (Ok (take (length body) (body @ [newline]), status), conn\<lparr>cn_in := rest\<rparr>)"
    unfolding readFromConnection_def 1(1) option.case prod.case Let_def ix at
    using opn 2(1) ms2 by (simp add: nth_append makeBytes_def byteAt_def nat_add_distrib)
  then show ?thesis by simp
qed

text \<open>
  The outcome of a read as a function of the bytes that are there, for every input.
\<close>

definition frameOutcome :: "string \<Rightarrow> (string \<times> int) outcome" where
  "frameOutcome bytes =
     (if length bytes < 13 then Err HeaderReadFailed
      else if bytes ! 3 \<noteq> CHR '' '' then Err MissingSpace
      else if bytes ! 12 \<noteq> newline then Err MissingHeaderNewline
      else case Atoi (TrimSpace (take 3 bytes)) of
        None \<Rightarrow> Err (InvalidStatus (TrimSpace (take 3 bytes)))
      | Some status \<Rightarrow>
          (case Atoi (TrimSpace (take 8 (drop 4 bytes))) of
             None \<Rightarrow> Err (InvalidLength (TrimSpace (take 8 (drop 4 bytes))))
           | Some n \<Rightarrow>
               if n < 0 then Crash
               else if length bytes < 14 + nat n then Err BodyReadFailed
               else if bytes ! (13 + nat n) \<noteq> newline then Err MissingTrailingNewline
               else Ok (take (nat n) (drop 13 bytes), status)))"

lemma read_outcome:
  assumes "cn_open conn" "list_all (\<lambda>s. s \<noteq> []) (cn_in conn)"
  shows "fst (readFromConnection conn) = frameOutcome (concat (cn_in conn))"
proof (cases "length (concat (cn_in conn)) < 13")
  case True
  then have "readFull 13 [] (cn_in conn) = None" by (intro readFull_short) simp
  with True assms(1) show ?thesis by (simp add: readFromConnection_def frameOutcome_def)
next
  case False
  let ?bytes = "concat (cn_in conn)"
  obtain buf segs where hd: "readFull 13 [] (cn_in conn) = Some (take 13 ?bytes, buf, segs)"
    "buf @ concat segs = drop 13 ?bytes" "list_all (\<lambda>s. s \<noteq> []) segs"
    using readFull_spec[of 13 "[]" "cn_in conn" "[]"] False assms(2) by auto
  have body: "(case readFull (Suc (nat n)) buf segs of None \<Rightarrow> None | Some (b, x) \<Rightarrow> Some b) =
      (if length ?bytes < 14 + nat n then None else Some (take (Suc (nat n)) (drop 13 ?bytes)))" for n
  proof (cases "length ?bytes < 14 + nat n")
    case True
    then have "length (buf @ concat segs) < Suc (nat n)" unfolding hd(2) by simp
    with True show ?thesis by (simp add: readFull_short)
  next
    case short: False
    then have "Suc (nat n) \<le> length (buf @ concat segs)" unfolding hd(2) by simp
    from readFull_spec[OF this hd(3), of "[]"] short show ?thesis by (auto simp: hd(2))
  qed
  have tk: "take 3 (take 13 ?bytes) = take 3 ?bytes" "take 8 (drop 4 (take 13 ?bytes)) = take 8 (drop 4 ?bytes)"
    by (simp_all add: drop_take)
  have out: "fst (case makeBytes (n + 1) of None \<Rightarrow> (Crash, conn\<lparr>cn_in := segs\<rparr>)
      | Some space \<Rightarrow> (case readFull (length space) buf segs of None \<Rightarrow> (Err BodyReadFailed, conn\<lparr>cn_in := []\<rparr>)
          | Some (b, buf', segs') \<Rightarrow> (case byteAt b n of None \<Rightarrow> (Crash, conn\<lparr>cn_in := segs'\<rparr>)
              | Some c \<Rightarrow> if c \<noteq> newline then (Err MissingTrailingNewline, conn\<lparr>cn_in := segs'\<rparr>)
                  else (Ok (take (nat n) b, st), conn\<lparr>cn_in := segs'\<rparr>)))) =
     (if n < 0 then Crash
      else if length ?bytes < 14 + nat n then Err BodyReadFailed
      else if ?bytes ! (13 + nat n) \<noteq> newline then Err MissingTrailingNewline
      else Ok (take (nat n) (drop 13 ?bytes), st))" for n st
  proof (cases "n < 0")
    case True
    then consider "n + 1 < 0" | "n = -1" by linarith
    then show ?thesis
      by cases (simp_all add: makeBytes_def byteAt_def readFull.simps[of 0])
  next
    case False
    then have "makeBytes (n + 1) = Some (replicate (Suc (nat n)) (CHR 0x00))"
      by (simp add: makeBytes_def nat_add_distrib)
    with body[of n] False show ?thesis
      by (auto simp: byteAt_def less_Suc_eq_le split: option.splits if_splits)
  qed
  have ix: "take 13 ?bytes ! 3 = ?bytes ! 3" "take 13 ?bytes ! 12 = ?bytes ! 12" by simp_all
  note unf = readFromConnection_def frameOutcome_def hd(1) option.case prod.case Let_def tk ix
  show ?thesis
  proof (cases "Atoi (TrimSpace (take 3 ?bytes))")
    case None
    show ?thesis unfolding unf None using False assms(1) by simp
  next
    case (Some st)
    show ?thesis
    proof (cases "Atoi (TrimSpace (take 8 (drop 4 ?bytes)))")
      case None
      show ?thesis unfolding unf Some None using False assms(1) by simp
    next
      case len: (Some n)
      show ?thesis unfolding unf Some len if_distrib[of fst] fst_conv out[of n st] using False assms(1) by simp
    qed
  qed
qed

lemma frame_parts:
  assumes "13 \<le> length bytes" "bytes ! 3 = CHR '' ''" "bytes ! 12 = newline"
  shows "bytes = take 3 bytes @ '' '' @ take 8 (drop 4 bytes) @ [newline] @ drop 13 bytes"
proof -
  have "bytes = take 3 bytes @ bytes ! 3 # drop 4 bytes"
    using id_take_nth_drop[of 3 bytes] assms(1) by simp
  moreover have "drop 4 bytes = take 8 (drop 4 bytes) @ bytes ! 12 # drop 13 bytes"
    using id_take_nth_drop[of 8 "drop 4 bytes"] assms(1) by simp
  ultimately show ?thesis using assms(2,3) by simp
qed

lemma read_crash_iff:
  assumes "cn_open conn" "list_all (\<lambda>s. s \<noteq> []) (cn_in conn)"
  shows "fst (readFromConnection conn) = Crash \<longleftrightarrow>
    (\<exists>st ln rest status n. concat (cn_in conn) = st @ '' '' @ ln @ [newline] @ rest \<and>
       length st = 3 \<and> length ln = 8 \<and>
       Atoi (TrimSpace st) = Some status \<and> Atoi (TrimSpace ln) = Some n \<and> n < 0)" (is "?l \<longleftrightarrow> ?r")
proof
  let ?b = "concat (cn_in conn)"
  assume ?l
  then have "13 \<le> length ?b" "?b ! 3 = CHR '' ''" "?b ! 12 = newline"
    "\<exists>status. Atoi (TrimSpace (take 3 ?b)) = Some status"
    "\<exists>n. Atoi (TrimSpace (take 8 (drop 4 ?b))) = Some n \<and> n < 0"
    unfolding read_outcome[OF assms]
    by (auto simp: frameOutcome_def split: if_splits option.splits)
  with frame_parts[of ?b] show ?r
    by (intro exI[of _ "take 3 ?b"] exI[of _ "take 8 (drop 4 ?b)"] exI[of _ "drop 13 ?b"]) auto
next
  assume ?r
  then show ?l unfolding read_outcome[OF assms] by (auto simp: frameOutcome_def nth_append)
qed

lemma read_ok_iff:
  assumes "cn_open conn" "list_all (\<lambda>s. s \<noteq> []) (cn_in conn)"
  shows "fst (readFromConnection conn) = Ok (body, status) \<longleftrightarrow>
    (\<exists>st ln rest. concat (cn_in conn) = st @ '' '' @ ln @ [newline] @ body @ [newline] @ rest \<and>
       length st = 3 \<and> length ln = 8 \<and>
       Atoi (TrimSpace st) = Some status \<and> Atoi (TrimSpace ln) = Some (int (length body)))" (is "?l \<longleftrightarrow> ?r")
proof
  let ?b = "concat (cn_in conn)"
  assume ?l
  then obtain n where *: "13 \<le> length ?b" "?b ! 3 = CHR '' ''" "?b ! 12 = newline"
    "Atoi (TrimSpace (take 3 ?b)) = Some status" "Atoi (TrimSpace (take 8 (drop 4 ?b))) = Some n"
    "0 \<le> n" "14 + nat n \<le> length ?b" "?b ! (13 + nat n) = newline" "body = take (nat n) (drop 13 ?b)"
    unfolding read_outcome[OF assms]
    by (auto simp: frameOutcome_def not_less split: if_splits option.splits)
  have "drop 13 ?b = body @ newline # drop (Suc (nat n)) (drop 13 ?b)"
    using id_take_nth_drop[of "nat n" "drop 13 ?b"] * by (simp add: add.commute)
  moreover have "int (length body) = n" using * by simp
  ultimately show ?r using frame_parts[of ?b] *
    by (intro exI[of _ "take 3 ?b"] exI[of _ "take 8 (drop 4 ?b)"]
        exI[of _ "drop (Suc (nat n)) (drop 13 ?b)"]) simp
next
  assume ?r
  then show ?l unfolding read_outcome[OF assms] by (auto simp: frameOutcome_def nth_append)
qed

section \<open>Commands and their replies\<close>

lemma transcript_only [simp]:
  "sv_Secret (writeTranscript now dir st c v) = sv_Secret v"
  "sv_Port (writeTranscript now dir st c v) = sv_Port v"
  by (simp_all add: writeTranscript_def Let_def split: option.split)

text \<open>A peer that answers every line with one frame, in any segmentation.\<close>

definition answers :: "(string \<Rightarrow> VarnishResponse) \<Rightarrow> Conn \<Rightarrow> bool" where
  "answers reply conn \<longleftrightarrow>
     cn_open conn \<and>
     (\<forall>cmd. concat (cn_peer conn (cmd @ [newline])) = encodeResponse (statusCode (reply cmd)) (payload (reply cmd)) \<and>
        list_all (\<lambda>s. s \<noteq> []) (cn_peer conn (cmd @ [newline])) \<and>
        framable (statusCode (reply cmd)) (payload (reply cmd)))"

lemma run_answered:
  assumes "answers reply conn" "cn_in conn = []" "cmd \<noteq> []"
  shows "run now cmd v conn =
    (Inr (reply cmd),
     writeTranscript now ''<<<'' (statusCode (reply cmd)) (payload (reply cmd))
       (writeTranscript now ''>>>'' 0 (if HasPrefix cmd ''auth '' then ''auth <redacted>'' else cmd) v),
     conn\<lparr>cn_out := cn_out conn @ [cmd @ [newline]]\<rparr>)"
proof -
  let ?c = "conn\<lparr>cn_out := cn_out conn @ [cmd @ [newline]], cn_in := cn_in conn @ cn_peer conn (cmd @ [newline])\<rparr>"
  have "readFromConnection ?c = (Ok (payload (reply cmd), statusCode (reply cmd)), ?c\<lparr>cn_in := []\<rparr>)"
    by (rule read_encoded[of _ _ _ "cn_peer conn (cmd @ [newline])"]) (use assms in \<open>auto simp: answers_def\<close>)
  moreover have "?c\<lparr>cn_in := []\<rparr> = conn\<lparr>cn_out := cn_out conn @ [cmd @ [newline]]\<rparr>"
    using assms(2) by (cases conn) simp
  ultimately show ?thesis
    using assms by (simp add: run_def Let_def answers_def)
qed

lemma answers_out [simp]: "answers reply (conn\<lparr>cn_out := x\<rparr>) = answers reply conn"
  by (simp add: answers_def)

lemma serve_answered:
  assumes "answers reply conn" "cn_in conn = []" "list_all (\<lambda>c. c \<noteq> []) cmds"
  shows "\<exists>v'. serveCommands now cmds v conn =
    (map reply cmds, None, v', conn\<lparr>cn_out := cn_out conn @ map (\<lambda>c. c @ [newline]) cmds\<rparr>)"
  using assms
proof (induction cmds arbitrary: v conn)
  case (Cons cmd cmds)
  let ?conn = "conn\<lparr>cn_out := cn_out conn @ [cmd @ [newline]]\<rparr>"
  note r = run_answered[OF Cons.prems(1,2), of cmd now v]
  obtain v' where "serveCommands now cmds
       (writeTranscript now ''<<<'' (statusCode (reply cmd)) (payload (reply cmd))
         (writeTranscript now ''>>>'' 0 (if HasPrefix cmd ''auth '' then ''auth <redacted>'' else cmd) v)) ?conn =
      (map reply cmds, None, v', ?conn\<lparr>cn_out := cn_out ?conn @ map (\<lambda>c. c @ [newline]) cmds\<rparr>)"
    using Cons.IH[of ?conn] Cons.prems by auto
  with r Cons.prems show ?case by simp
qed simp

section \<open>Properties\<close>

text \<open>
  C23. A response frame is read back exactly, however the network splits it into
  segments and whatever its body contains; bytes that arrive in later segments are left for
  the next read.
\<close>

theorem cli_frame_roundtrip:
  assumes "framable status body" "cn_open conn"
    and "cn_in conn = ms @ rest" "concat ms = encodeResponse status body" "list_all (\<lambda>s. s \<noteq> []) ms"
  shows "readFromConnection conn = (Ok (body, status), conn\<lparr>cn_in := rest\<rparr>)"
  using assms by (rule read_encoded)

definition sample_conn :: Conn where
  "sample_conn = \<lparr>cn_in = [''200 '', ''2       '' @ [newline, CHR ''o''], ''k'' @ [newline]],
     cn_out = [], cn_peer = (\<lambda>l. []), cn_open = True\<rparr>"

theorem cli_frame_roundtrip_witness:
  "framable 200 ''ok'' \<and> readFromConnection sample_conn = (Ok (''ok'', 200), sample_conn\<lparr>cn_in := []\<rparr>)"
proof -
  have f: "framable 200 ''ok''" by (simp add: framable_def)
  have "encodeResponse 200 ''ok'' = ''200 2       '' @ [newline] @ ''ok'' @ [newline]" by code_simp
  then have "readFromConnection sample_conn = (Ok (''ok'', 200), sample_conn\<lparr>cn_in := []\<rparr>)"
    by (intro cli_frame_roundtrip[OF f, of _ "cn_in sample_conn"]) (simp_all add: sample_conn_def)
  with f show ?thesis by blast
qed

text \<open>
  Commands and responses stay paired: against a peer that answers every line,
  the queued commands are written in order, one line each, every requester gets the answer to
  its own command, and nothing is left unread.
\<close>

lemma commands_answered_in_order:
  assumes "answers reply conn" "cn_in conn = []" "list_all (\<lambda>c. c \<noteq> []) cmds"
  shows "\<exists>v'. serveCommands now cmds v conn =
    (map reply cmds, None, v', conn\<lparr>cn_out := cn_out conn @ map (\<lambda>c. c @ [newline]) cmds\<rparr>)"
  using assms by (rule serve_answered)

definition sample_reply :: "string \<Rightarrow> VarnishResponse" where
  "sample_reply cmd = (if cmd = ''ping'' then \<lparr>statusCode = 200, payload = ''PONG''\<rparr>
                       else \<lparr>statusCode = 101, payload = ''?''\<rparr>)"

definition sample_peer :: Conn where
  "sample_peer = \<lparr>cn_in = [], cn_out = [],
     cn_peer = (\<lambda>l. [encodeResponse (statusCode (sample_reply (butlast l))) (payload (sample_reply (butlast l)))]),
     cn_open = True\<rparr>"

lemma sample_peer_answers: "answers sample_reply sample_peer"
  by (auto simp: answers_def sample_peer_def sample_reply_def framable_def encodeResponse_def padRight_def)

text \<open>
  A text as one line of at most 500 bytes, each newline written as a backslash and an n, and
  the length of the text after the cut.
\<close>

definition onOneLine :: "string \<Rightarrow> string" where
  "onOneLine text =
     (let line = concat (map (\<lambda>c. if c = newline then [CHR 0x5C, CHR ''n''] else [c]) text) in
      if length line \<le> 500 then line
      else take 500 line @ ''... ('' @ Itoa (int (length text)) @ '' bytes total)'')"

lemma ReplaceAll_char: "ReplaceAll s [c] new = concat (map (\<lambda>x. if x = c then new else [x]) s)"
proof -
  have ne: "splitAcc [c] acc s \<noteq> []" for acc s
    by (induction "[c]" acc s rule: splitAcc.induct) auto
  have "Join (splitAcc [c] acc s) new = rev acc @ concat (map (\<lambda>x. if x = c then new else [x]) s)" for acc
    by (induction s arbitrary: acc) (auto simp: Join_Cons ne HasPrefix_def)
  from this[of "[]"] show ?thesis by (simp add: ReplaceAll_def Split_def)
qed

text \<open>
  C33. Authentication answers a challenge with the hash of challenge, newline, secret,
  challenge, newline, in hexadecimal, as the first command, and succeeds iff varnishd accepts
  it. The transcript then holds exactly three lines: a placeholder for the challenge, a
  placeholder for the answer, and varnishd's reply to it (its status, length and text on one
  line). Nothing else of the exchange is logged, so the secret reaches the transcript only
  through what varnishd replies.
\<close>

theorem authentication_answers_challenge:
  assumes "answers reply conn" "newline \<notin> set challenge" "framable 107 (challenge @ [newline] @ more_text)"
    and "cn_in conn = ms" "concat ms = encodeResponse 107 (challenge @ [newline] @ more_text)"
    and "list_all (\<lambda>s. s \<noteq> []) ms" "sv_transcript v = Some []"
    and "cmd = ''auth '' @ hexEncode (sha256 (challenge @ [newline] @ sv_Secret v @ challenge @ [newline]))"
  shows "\<exists>e v'. readBanner sha256 now v conn = (e, v', conn\<lparr>cn_in := [], cn_out := cn_out conn @ [cmd @ [newline]]\<rparr>) \<and>
    (e = None \<longleftrightarrow> statusCode (reply cmd) = 200) \<and>
    (e = None \<longrightarrow> sv_banner v' = payload (reply cmd) \<and> sv_bannerReceived v' \<and>
       (sv_environment v', sv_version v') = parseBanner (payload (reply cmd))) \<and>
    sv_transcript v' = Some
      [now @ '' <<< 107 16 <auth challenge>'' @ [newline],
       now @ '' >>> 0 15 auth <redacted>'' @ [newline],
       now @ '' <<< '' @ Itoa (statusCode (reply cmd)) @ '' '' @ Itoa (int (length (payload (reply cmd)))) @
         '' '' @ onOneLine (payload (reply cmd)) @ [newline]]"
proof -
  let ?pl = "challenge @ [newline] @ more_text"
  let ?v1 = "writeTranscript now ''<<<'' 107 ''<auth challenge>'' v"
  let ?v2 = "writeTranscript now ''>>>'' 0 ''auth <redacted>'' ?v1"
  let ?v3 = "writeTranscript now ''<<<'' (statusCode (reply cmd)) (payload (reply cmd)) ?v2"
  let ?c1 = "conn\<lparr>cn_in := []\<rparr>"
  have open': "cn_open conn" using assms(1) by (simp add: answers_def)
  have rd: "readFromConnection conn = (Ok (?pl, 107), ?c1)"
    using read_encoded[OF assms(3) open', of ms "[]"] assms(4-6) by simp
  have ch: "hd (Split ?pl [newline]) = challenge"
    using assms(2) by (simp add: Split_char_sep)
  have "answers reply ?c1" using assms(1) by (simp add: answers_def)
  from run_answered[OF this, of cmd now ?v1] assms(8)
  have rn: "run now cmd ?v1 ?c1 = (Inr (reply cmd), ?v3, ?c1\<lparr>cn_out := cn_out conn @ [cmd @ [newline]]\<rparr>)"
    by (simp add: HasPrefix_def)
  have t: "Itoa 107 = ''107''" "Itoa 16 = ''16''" "Itoa 15 = ''15''" "Itoa 0 = ''0''"
    "ReplaceAll ''<auth challenge>'' [newline] [CHR 0x5C, CHR ''n''] = ''<auth challenge>''"
    "ReplaceAll ''auth <redacted>'' [newline] [CHR 0x5C, CHR ''n''] = ''auth <redacted>''"
    by code_simp+
  have "sv_transcript ?v3 = Some [now @ '' <<< 107 16 <auth challenge>'' @ [newline],
      now @ '' >>> 0 15 auth <redacted>'' @ [newline],
      now @ '' <<< '' @ Itoa (statusCode (reply cmd)) @ '' '' @ Itoa (int (length (payload (reply cmd)))) @
         '' '' @ onOneLine (payload (reply cmd)) @ [newline]]"
    using assms(7) by (simp add: writeTranscript_def Let_def t onOneLine_def ReplaceAll_char)
  then show ?thesis
    unfolding readBanner_def rd prod.case outcome.case Let_def ch
    using rn[unfolded assms(8)] assms(8)
    by (auto simp: ClisAuth_def ClisOk_def split: prod.split)
qed

text \<open>
  C39. What a read makes of the bytes a peer sends depends on the bytes alone, not on their
  segmentation. It returns a body and a status iff the bytes begin with a header (three
  columns holding the status, a space, eight columns holding the length, a newline), that many
  bytes of body and a newline. It crashes the process iff the bytes begin with such a header
  whose length is negative, whatever follows: the length is not checked before the body is
  allocated and indexed. Every other input is reported as an error.
\<close>

theorem cli_frame_verdicts:
  assumes "cn_open conn" "list_all (\<lambda>s. s \<noteq> []) (cn_in conn)"
  shows "(fst (readFromConnection conn) = Ok (body, status) \<longleftrightarrow>
      (\<exists>st ln rest. concat (cn_in conn) = st @ '' '' @ ln @ [newline] @ body @ [newline] @ rest \<and>
         length st = 3 \<and> length ln = 8 \<and>
         Atoi (TrimSpace st) = Some status \<and> Atoi (TrimSpace ln) = Some (int (length body)))) \<and>
    (fst (readFromConnection conn) = Crash \<longleftrightarrow>
      (\<exists>st ln rest status n. concat (cn_in conn) = st @ '' '' @ ln @ [newline] @ rest \<and>
         length st = 3 \<and> length ln = 8 \<and>
         Atoi (TrimSpace st) = Some status \<and> Atoi (TrimSpace ln) = Some n \<and> n < 0))"
  using read_ok_iff[OF assms] read_crash_iff[OF assms] by blast

definition negative_conn :: Conn where
  "negative_conn = \<lparr>cn_in = [''200 -'', ''17     '' @ [newline, CHR ''o''], ''k''], cn_out = [],
     cn_peer = (\<lambda>l. []), cn_open = True\<rparr>"

theorem cli_frame_verdicts_witness:
  "fst (readFromConnection negative_conn) = Crash"
proof -
  have "cn_open negative_conn" "list_all (\<lambda>s. s \<noteq> []) (cn_in negative_conn)"
    by (simp_all add: negative_conn_def)
  note crash = cli_frame_verdicts[OF this, THEN conjunct2, THEN iffD2]
  have num: "Atoi (TrimSpace ''200'') = Some 200" "Atoi (TrimSpace ''-17     '') = Some (- 17)" by code_simp+
  show ?thesis
    by (rule crash, rule exI[of _ "''200''"], rule exI[of _ "''-17     ''"], rule exI[of _ "''ok''"])
      (simp add: negative_conn_def num)
qed

definition sample_auth_conn :: Conn where
  "sample_auth_conn = sample_peer\<lparr>cn_in := [encodeResponse 107 (''abc'' @ [newline] @ ''Authentication required.'')],
     cn_peer := (\<lambda>l. [encodeResponse 200 ''varnish-7.7.3''])\<rparr>"

theorem authentication_answers_challenge_witness:
  "\<exists>v'. readBanner id ''t'' (server_New 0 ''s''\<lparr>sv_transcript := Some []\<rparr>) sample_auth_conn =
     (None, v', sample_auth_conn\<lparr>cn_in := [], cn_out := [''auth 6162630a736162630a'' @ [newline]]\<rparr>) \<and>
     sv_version v' = ''varnish-7.7.3''"
proof -
  let ?v = "server_New 0 ''s''\<lparr>sv_transcript := Some []\<rparr>"
  let ?cmd = "''auth '' @ hexEncode (id (''abc'' @ [newline] @ sv_Secret ?v @ ''abc'' @ [newline]))"
  have ans: "answers (\<lambda>c. \<lparr>statusCode = 200, payload = ''varnish-7.7.3''\<rparr>) sample_auth_conn"
    by (simp add: answers_def sample_auth_conn_def sample_peer_def framable_def encodeResponse_def)
  have fr: "framable 107 (''abc'' @ [newline] @ ''Authentication required.'')" by (simp add: framable_def)
  obtain e v' where r: "readBanner id ''t'' ?v sample_auth_conn =
      (e, v', sample_auth_conn\<lparr>cn_in := [], cn_out := cn_out sample_auth_conn @ [?cmd @ [newline]]\<rparr>)"
    "e = None" "(sv_environment v', sv_version v') = parseBanner ''varnish-7.7.3''"
    using authentication_answers_challenge[OF ans _ fr refl _ _ _ refl, of ?v id "''t''"]
    by (auto simp: sample_auth_conn_def encodeResponse_def server_New_def)
  have "?cmd = ''auth 6162630a736162630a''" by (simp add: server_New_def) code_simp
  moreover have "parseBanner ''varnish-7.7.3'' = ([], ''varnish-7.7.3'')" by code_simp
  moreover have "cn_out sample_auth_conn = []" by (simp add: sample_auth_conn_def sample_peer_def)
  ultimately show ?thesis using r by auto
qed

end
