(* ===== verification/AdmParsers.thy ===== *)
theory AdmParsers
  imports AdmWire
begin

text \<open>
  Package \<^verbatim>\<open>varnishadm\<close>, the parsers of command output (\<^verbatim>\<open>parsers.go\<close>, \<^verbatim>\<open>types.go\<close>, the end
  of \<^verbatim>\<open>commands.go\<close>). Each regular expression is a function that finds its leftmost match.
\<close>

section \<open>vcl.list\<close>

record VCLEntry =
  ve_Name :: string
  ve_Status :: string
  ve_Temperature :: string
  ve_Labels :: int
  ve_LabelTarget :: string
  ve_Returns :: int

text \<open>\<^verbatim>\<open>\(([^)]+)\)\<close>\<close>

fun parenInner :: "string \<Rightarrow> string option" where
  "parenInner [] = None"
| "parenInner (c # cs) =
     (if c = CHR ''('' \<and> takeWhile (\<lambda>x. x \<noteq> CHR '')'') cs \<noteq> [] \<and> CHR '')'' \<in> set cs
      then Some (takeWhile (\<lambda>x. x \<noteq> CHR '')'') cs)
      else parenInner cs)"

text \<open>\<^verbatim>\<open>(\d+)\s+word\<close>\<close>

fun numBefore :: "string \<Rightarrow> string \<Rightarrow> string option" where
  "numBefore word [] = None"
| "numBefore word (c # cs) =
     (let ds = takeWhile is_digit (c # cs);
          r1 = dropWhile is_digit (c # cs);
          sp = takeWhile regex_space r1;
          r2 = dropWhile regex_space r1
      in if ds \<noteq> [] \<and> sp \<noteq> [] \<and> HasPrefix r2 word then Some ds else numBefore word cs)"

definition countOf :: "string \<Rightarrow> string \<Rightarrow> int" where
  "countOf word inner =
     (if Contains inner word
      then (case numBefore word inner of
              None \<Rightarrow> 0 | Some ds \<Rightarrow> (case Atoi ds of None \<Rightarrow> 0 | Some n \<Rightarrow> n))
      else 0)"

definition parseParenthesesContent :: "string \<Rightarrow> int \<times> int" where
  "parseParenthesesContent content =
     (case parenInner content of
        None \<Rightarrow> (0, 0)
      | Some inner \<Rightarrow> (countOf ''label'' inner, countOf ''return'' inner))"

definition emptyVCLEntry :: VCLEntry where
  "emptyVCLEntry = \<lparr>ve_Name = [], ve_Status = [], ve_Temperature = [], ve_Labels = 0,
     ve_LabelTarget = [], ve_Returns = 0\<rparr>"

definition parseVCLLine :: "string \<Rightarrow> VCLEntry option" where
  "parseVCLLine line =
     (let parts = Fields line in
      if length parts < 4 then None
      else
        let entry = emptyVCLEntry\<lparr>ve_Status := parts ! 0, ve_Temperature := parts ! 1\<rparr>;
            tail = drop 3 parts;
            nameParts = takeWhile (\<lambda>p. \<not> Contains p ''('') tail;
            parenParts = dropWhile (\<lambda>p. \<not> Contains p ''('') tail
        in if parenParts = [] then Some (entry\<lparr>ve_Name := Join tail '' ''\<rparr>)
           else
             let nameStr = Join nameParts '' '';
                 e1 = (if Contains nameStr ''->'' then
                         (case Split nameStr ''->'' of
                            [l, t] \<Rightarrow> entry\<lparr>ve_Name := TrimSpace l, ve_LabelTarget := TrimSpace t\<rparr>
                          | _ \<Rightarrow> entry)
                       else entry\<lparr>ve_Name := nameStr\<rparr>);
                 parenPart = Join parenParts '' '';
                 (labels, returns) = parseParenthesesContent parenPart
             in Some (e1\<lparr>ve_Labels := labels, ve_Returns := returns\<rparr>))"

datatype ParseError = BadVCLLine string | BadTLSLine string nat | BadListenLine string | BadPort string

text \<open>The loop over the lines of a payload, skipping blank ones.\<close>

fun parseLines :: "(string \<Rightarrow> (ParseError, 'a) result) \<Rightarrow> string list \<Rightarrow> (ParseError, 'a list) result" where
  "parseLines parse [] = Inr []"
| "parseLines parse (line # ls) =
     (let l = TrimSpace line in
      if l = [] then parseLines parse ls
      else case parse l of
        Inl e \<Rightarrow> Inl e
      | Inr entry \<Rightarrow> (case parseLines parse ls of Inl e \<Rightarrow> Inl e | Inr es \<Rightarrow> Inr (entry # es)))"

definition parseVCLList :: "string \<Rightarrow> (ParseError, VCLEntry list) result" where
  "parseVCLList pl =
     parseLines (\<lambda>l. case parseVCLLine l of None \<Rightarrow> Inl (BadVCLLine l) | Some e \<Rightarrow> Inr e)
       (Split (TrimSpace pl) [newline])"

section \<open>tls.cert.list\<close>

text \<open>\<open>'t\<close> is the type of times; \<open>parseTime\<close> is \<^verbatim>\<open>time.Parse\<close> with the fixed layout.\<close>

record 't TLSCertEntry =
  tc_Frontend :: string
  tc_State :: string
  tc_Hostname :: string
  tc_CertificateID :: string
  tc_Expiration :: "'t option"
  tc_OCSPStapling :: bool

definition parseTLSCertLine ::
  "(string \<Rightarrow> string) \<Rightarrow> (string \<Rightarrow> 't option) \<Rightarrow> string \<Rightarrow> (ParseError, 't TLSCertEntry) result" where
  "parseTLSCertLine uni parseTime line =
     (let parts = Fields line in
      if length parts < 10 then Inl (BadTLSLine line (length parts))
      else
        let ocsp = ToLower uni (parts ! 9) in
        Inr \<lparr>tc_Frontend = parts ! 0, tc_State = parts ! 1, tc_Hostname = parts ! 2,
             tc_CertificateID = parts ! 3,
             tc_Expiration = parseTime (Join (take 5 (drop 4 parts)) '' ''),
             tc_OCSPStapling = (ocsp = ''enabled'' \<or> ocsp = ''true'')\<rparr>)"

definition parseTLSCertList ::
  "(string \<Rightarrow> string) \<Rightarrow> (string \<Rightarrow> 't option) \<Rightarrow> string \<Rightarrow> (ParseError, 't TLSCertEntry list) result" where
  "parseTLSCertList uni parseTime pl =
     (let lines = Split (TrimSpace pl) [newline];
          body = (if lines \<noteq> [] \<and> Contains (hd lines) ''Frontend'' then drop 1 lines else lines)
      in parseLines (parseTLSCertLine uni parseTime) body)"

section \<open>vcl.show\<close>

record VCLConfigEntry =
  vc_ConfigID :: int
  vc_Size :: int
  vc_Filename :: string
  vc_Source :: string

record VCLShowResult =
  vs_Entries :: "VCLConfigEntry list"
  vs_ConfigMap :: "(int, string) gomap"
  vs_VCLSource :: string

text \<open>
  \<^verbatim>\<open>^//\s+VCL\.SHOW\s+(\d+)\s+(\d+)\s+(.+)$\<close> on a line. The last group may begin with a
  space only when nothing else is left for it.
\<close>

definition takeSpaces :: "string \<Rightarrow> string option" where
  "takeSpaces s = (if takeWhile regex_space s = [] then None else Some (dropWhile regex_space s))"

definition takeWord :: "string \<Rightarrow> string \<Rightarrow> string option" where
  "takeWord w s = (if HasPrefix s w then Some (drop (length w) s) else None)"

definition takeDigits :: "string \<Rightarrow> (string \<times> string) option" where
  "takeDigits s = (if takeWhile is_digit s = [] then None else Some (takeWhile is_digit s, dropWhile is_digit s))"

definition takeRest :: "string \<Rightarrow> string option" where
  "takeRest s =
     (let sp = takeWhile regex_space s; r = dropWhile regex_space s in
      if sp = [] then None
      else if r \<noteq> [] then Some r
      else if length sp \<ge> 2 then Some [last sp] else None)"

definition matchShowHeader :: "string \<Rightarrow> (string \<times> string \<times> string) option" where
  "matchShowHeader line =
     Option.bind (takeWord ''//'' line) (\<lambda>s1.
     Option.bind (takeSpaces s1) (\<lambda>s2.
     Option.bind (takeWord ''VCL.SHOW'' s2) (\<lambda>s3.
     Option.bind (takeSpaces s3) (\<lambda>s4.
     Option.bind (takeDigits s4) (\<lambda>(cfg, s5).
     Option.bind (takeSpaces s5) (\<lambda>s6.
     Option.bind (takeDigits s6) (\<lambda>(sz, s7).
     Option.bind (takeRest s7) (\<lambda>file. Some (cfg, sz, file)))))))))"

datatype ShowError = InvalidConfigID string | InvalidSize string | SliceBounds

text \<open>
  The loop of \<^verbatim>\<open>parseVCLShow\<close> on the data from position \<open>pos\<close> on. The end of the content is
  computed in 64 bits; if the sum wraps around, slicing panics.
\<close>

function showLoop :: "nat \<Rightarrow> string \<Rightarrow> (ShowError, VCLConfigEntry list) result" where
  "showLoop pos data =
     (if data = [] then Inr []
      else
        let line = takeWhile (\<lambda>c. c \<noteq> newline) data;
            content0 = drop 1 (dropWhile (\<lambda>c. c \<noteq> newline) data);
            pos1 = pos + (length data - length content0)
        in case matchShowHeader line of
             None \<Rightarrow> showLoop pos1 content0
           | Some (cfg, sz, file) \<Rightarrow>
               (case Atoi cfg of
                  None \<Rightarrow> Inl (InvalidConfigID cfg)
                | Some configID \<Rightarrow>
                    (case Atoi sz of
                       None \<Rightarrow> Inl (InvalidSize sz)
                     | Some len \<Rightarrow>
                         if \<not> in_int64 (int pos1 + len) then Inl SliceBounds
                         else
                           let source = take (nat len) content0 in
                           case showLoop (pos1 + length source) (drop (nat len) content0) of
                             Inl e \<Rightarrow> Inl e
                           | Inr es \<Rightarrow>
                               Inr (\<lparr>vc_ConfigID = configID, vc_Size = len,
                                     vc_Filename = TrimSpace file, vc_Source = source\<rparr> # es))))"
  by pat_completeness auto
termination
proof -
  have less: "length (drop 1 (dropWhile (\<lambda>c. c \<noteq> newline) data)) < length data" if "data \<noteq> []" for data
  proof -
    have "length (dropWhile (\<lambda>c. c \<noteq> newline) data) \<le> length data" by (rule length_dropWhile_le)
    moreover have "0 < length data" using that by simp
    ultimately show ?thesis by (simp only: length_drop)
  qed
  show ?thesis
  proof (relation "measure (\<lambda>(pos, data). length data)")
    show "wf (measure (\<lambda>(pos :: nat, data :: string). length data))" by simp
  next
    fix pos :: nat and data line content0 pos1
    assume "data \<noteq> []" "content0 = drop 1 (dropWhile (\<lambda>c. c \<noteq> newline) data)"
    with less show "((pos1, content0), pos, data) \<in> measure (\<lambda>(pos, data). length data)"
      by (simp only: in_measure prod.case)
  next
    fix pos :: nat and data line content0 pos1 and len :: int and source :: string
    assume "data \<noteq> []" "content0 = drop 1 (dropWhile (\<lambda>c. c \<noteq> newline) data)"
    with less have "length content0 < length data" by simp
    then show "((pos1 + length source, drop (nat len) content0), pos, data) \<in> measure (\<lambda>(pos, data). length data)"
      by simp
  qed
qed

declare showLoop.simps [simp del]

definition parseVCLShow :: "string \<Rightarrow> (ShowError, VCLShowResult) result" where
  "parseVCLShow pl =
     (case showLoop 0 pl of
        Inl e \<Rightarrow> Inl e
      | Inr entries \<Rightarrow>
          Inr \<lparr>vs_Entries = entries,
               vs_ConfigMap = fold (\<lambda>e. mput (vc_ConfigID e) (vc_Filename e)) entries [],
               vs_VCLSource = Join (map vc_Source entries) []\<rparr>)"

section \<open>debug.listen_address\<close>

record ListenAddress =
  la_Name :: string
  la_Address :: string
  la_Port :: int

definition splitLines :: "string \<Rightarrow> string list" where
  "splitLines s = Split (ReplaceAll s [CHR 0x0D, newline] [newline]) [newline]"

definition parseListenLine :: "string \<Rightarrow> (ParseError, ListenAddress) result" where
  "parseListenLine line =
     (case Fields line of
        [name, address, port] \<Rightarrow>
          if port = ''-'' then Inr \<lparr>la_Name = name, la_Address = address, la_Port = -1\<rparr>
          else (case Atoi port of
                  None \<Rightarrow> Inl (BadPort port)
                | Some p \<Rightarrow> Inr \<lparr>la_Name = name, la_Address = address, la_Port = p\<rparr>)
      | _ \<Rightarrow> Inl (BadListenLine line))"

definition parseListenAddresses :: "string \<Rightarrow> (ParseError, ListenAddress list) result" where
  "parseListenAddresses pl = parseLines parseListenLine (splitLines pl)"

section \<open>The output of vcl.show is read back\<close>

lemma regex_space_char [simp]: "regex_space (CHR '' '')" "\<not> is_digit (CHR '' '')"
  by (simp_all add: regex_space_def is_digit_def byte_def)

lemma digit_not_space: "is_digit c \<Longrightarrow> \<not> regex_space c"
  by (auto simp: regex_space_def is_digit_def byte_def)

lemma takeDigits_Itoa: "0 \<le> n \<Longrightarrow> takeDigits (Itoa n @ CHR '' '' # r) = Some (Itoa n, CHR '' '' # r)"
proof -
  assume "0 \<le> n"
  then have d: "list_all is_digit (Itoa n)" by (simp add: Itoa_def nat_digits_all_digits)
  have "takeWhile is_digit (Itoa n @ CHR '' '' # r) = Itoa n"
    "dropWhile is_digit (Itoa n @ CHR '' '' # r) = CHR '' '' # r"
    using d by (auto simp: list_all_iff intro!: takeWhile_append_stop dropWhile_append_stop)
  then show ?thesis by (simp add: takeDigits_def)
qed

lemma takeSpaces_one: "\<not> regex_space c \<Longrightarrow> takeSpaces (CHR '' '' # c # r) = Some (c # r)"
  by (simp add: takeSpaces_def)

lemma takeRest_one: "\<not> regex_space c \<Longrightarrow> takeRest (CHR '' '' # c # r) = Some (c # r)"
  by (simp add: takeRest_def)

lemma Itoa_head: "0 \<le> n \<Longrightarrow> \<exists>c cs. Itoa n = c # cs \<and> \<not> regex_space c"
proof -
  assume "0 \<le> n"
  then have d: "list_all is_digit (Itoa n)" by (simp add: Itoa_def nat_digits_all_digits)
  obtain c cs where "Itoa n = c # cs" using Itoa_nonempty by (cases "Itoa n") auto
  with d digit_not_space show ?thesis by auto
qed

definition showHeader :: "int \<Rightarrow> int \<Rightarrow> string \<Rightarrow> string" where
  "showHeader cfg len file = ''// VCL.SHOW '' @ Itoa cfg @ '' '' @ Itoa len @ '' '' @ file"

lemma match_showHeader:
  assumes "0 \<le> cfg" "0 \<le> len" "file = c # cs" "\<not> regex_space c"
  shows "matchShowHeader (showHeader cfg len file) = Some (Itoa cfg, Itoa len, file)"
proof -
  obtain a as where a: "Itoa cfg = a # as" "\<not> regex_space a" using Itoa_head[OF assms(1)] by blast
  obtain b bs where b: "Itoa len = b # bs" "\<not> regex_space b" using Itoa_head[OF assms(2)] by blast
  have s4: "takeSpaces (CHR '' '' # Itoa cfg @ r) = Some (Itoa cfg @ r)" for r
    using a by (simp add: takeSpaces_one)
  have s6: "takeSpaces (CHR '' '' # Itoa len @ r) = Some (Itoa len @ r)" for r
    using b by (simp add: takeSpaces_one)
  have v: "\<not> regex_space (CHR ''V'')" by (simp add: regex_space_def)
  show ?thesis
    unfolding matchShowHeader_def showHeader_def
    using takeDigits_Itoa[OF assms(1)] takeDigits_Itoa[OF assms(2)] takeSpaces_one[OF v] s4 s6
      takeRest_one[OF assms(4)]
    by (simp add: takeWord_def HasPrefix_def assms(3))
qed

definition showEntry :: "VCLConfigEntry \<Rightarrow> string" where
  "showEntry e = showHeader (vc_ConfigID e) (vc_Size e) (vc_Filename e) @ [newline] @ vc_Source e @ [newline]"

definition showable :: "VCLConfigEntry \<Rightarrow> bool" where
  "showable e \<longleftrightarrow>
     0 \<le> vc_ConfigID e \<and> in_int64 (vc_ConfigID e) \<and> vc_Size e = int (length (vc_Source e)) \<and>
     vc_Filename e \<noteq> [] \<and> newline \<notin> set (vc_Filename e) \<and> \<not> regex_space (hd (vc_Filename e)) \<and>
     TrimSpace (vc_Filename e) = vc_Filename e"

lemma showHeader_no_newline: "newline \<notin> set file \<Longrightarrow> newline \<notin> set (showHeader cfg len file)"
proof -
  have "newline \<notin> set (Itoa n)" for n by (rule Itoa_no_char) (simp_all add: is_digit_def byte_def)
  then show "newline \<notin> set file \<Longrightarrow> newline \<notin> set (showHeader cfg len file)"
    by (simp add: showHeader_def)
qed

lemma first_line:
  "newline \<notin> set h \<Longrightarrow> takeWhile (\<lambda>c. c \<noteq> newline) (h @ newline # t) = h"
  "newline \<notin> set h \<Longrightarrow> dropWhile (\<lambda>c. c \<noteq> newline) (h @ newline # t) = newline # t"
  by (induction h) auto

lemma showLoop_entry:
  assumes "showable e" "int pos + int (length (showEntry e @ rest)) < 2 ^ 63"
  shows "\<exists>pos'. pos' + length rest = pos + length (showEntry e @ rest) \<and>
    showLoop pos (showEntry e @ rest) =
      (case showLoop pos' rest of Inl err \<Rightarrow> Inl err | Inr es \<Rightarrow> Inr (e # es))"
proof -
  let ?h = "showHeader (vc_ConfigID e) (vc_Size e) (vc_Filename e)"
  let ?data = "showEntry e @ rest"
  have data: "?data = ?h @ newline # vc_Source e @ newline # rest" by (simp add: showEntry_def)
  have nl: "newline \<notin> set ?h" using assms(1) by (simp add: showable_def showHeader_no_newline)
  have line: "takeWhile (\<lambda>c. c \<noteq> newline) ?data = ?h" "drop 1 (dropWhile (\<lambda>c. c \<noteq> newline) ?data) = vc_Source e @ newline # rest"
    unfolding data using first_line[OF nl] by simp_all
  have hd: "matchShowHeader ?h = Some (Itoa (vc_ConfigID e), Itoa (vc_Size e), vc_Filename e)"
    using assms(1) by (intro match_showHeader[of _ _ _ "hd (vc_Filename e)" "tl (vc_Filename e)"]) (auto simp: showable_def)
  let ?pos1 = "pos + (length ?data - length (vc_Source e @ newline # rest))"
  have fits: "in_int64 (int ?pos1 + vc_Size e)" "in_int64 (vc_Size e)"
    using assms by (auto simp: showable_def in_int64_def showEntry_def)
  then have ids: "Atoi (Itoa (vc_ConfigID e)) = Some (vc_ConfigID e)" "Atoi (Itoa (vc_Size e)) = Some (vc_Size e)"
    using assms(1) by (simp_all add: Atoi_Itoa showable_def)
  let ?pos2 = "?pos1 + length (vc_Source e)"
  have nat: "nat (vc_Size e) = length (vc_Source e)" using assms(1) by (simp add: showable_def)
  have tk: "take (length (vc_Source e)) (vc_Source e @ newline # rest) = vc_Source e"
    "drop (length (vc_Source e)) (vc_Source e @ newline # rest) = newline # rest" by simp_all
  have blank: "showLoop ?pos2 (newline # rest) = showLoop (?pos2 + 1) rest"
  proof -
    have "matchShowHeader [] = None" by (simp add: matchShowHeader_def takeWord_def HasPrefix_def)
    then show ?thesis by (subst showLoop.simps) (simp add: Let_def)
  qed
  have "showLoop pos ?data =
      (case showLoop (?pos2 + 1) rest of Inl err \<Rightarrow> Inl err | Inr es \<Rightarrow>
        Inr (\<lparr>vc_ConfigID = vc_ConfigID e, vc_Size = vc_Size e, vc_Filename = TrimSpace (vc_Filename e),
              vc_Source = vc_Source e\<rparr> # es))"
    unfolding showLoop.simps[of pos ?data] Let_def line hd option.case prod.case ids nat tk
    using fits blank by (simp add: data)
  moreover have same: "\<lparr>vc_ConfigID = vc_ConfigID e, vc_Size = vc_Size e, vc_Filename = TrimSpace (vc_Filename e),
      vc_Source = vc_Source e\<rparr> = e" using assms(1) by (simp add: showable_def)
  moreover have "?pos2 + 1 + length rest = pos + length ?data" by (simp add: showEntry_def)
  ultimately show ?thesis unfolding same by blast
qed

lemma showLoop_entries:
  assumes "list_all showable es" "int pos + int (length (concat (map showEntry es))) < 2 ^ 63"
  shows "showLoop pos (concat (map showEntry es)) = Inr es"
  using assms
proof (induction es arbitrary: pos)
  case Nil
  then show ?case by (subst showLoop.simps) simp
next
  case (Cons e es)
  let ?rest = "concat (map showEntry es)"
  obtain pos' where p: "pos' + length ?rest = pos + length (showEntry e @ ?rest)"
    "showLoop pos (showEntry e @ ?rest) = (case showLoop pos' ?rest of Inl err \<Rightarrow> Inl err | Inr es \<Rightarrow> Inr (e # es))"
    using showLoop_entry[of e pos ?rest] Cons.prems by auto
  then have "int pos' + int (length ?rest) < 2 ^ 63" using Cons.prems(2) by simp
  with Cons p show ?case by simp
qed

lemma Join_empty_sep: "Join xs [] = concat xs"
  by (induction xs rule: induct_list012) auto

section \<open>Lists of lines\<close>

text \<open>A payload of lines whose ends are printable is parsed line by line.\<close>

lemma TrimSpace_ends:
  assumes "w \<noteq> []" "is_graph (hd w)" "is_graph (last w)"
  shows "TrimSpace w = w"
proof -
  obtain c cs where c: "w = c # cs" using assms(1) by (cases w) auto
  obtain ds d where d: "w = ds @ [d]" using assms(1) by (cases w rule: rev_cases) auto
  have 1: "space_len w = 0" using c assms(2) by (simp del: space_len.simps)
  have "rev w = d # rev ds" using d by simp
  then have 2: "space_len_rev (rev w) = 0" using d assms(3) by (simp del: space_len_rev.simps)
  show ?thesis by (simp add: TrimSpace_def Let_def trimFront_graph 1 2)
qed

definition plain_line :: "string \<Rightarrow> bool" where
  "plain_line w \<longleftrightarrow> w \<noteq> [] \<and> is_graph (hd w) \<and> is_graph (last w) \<and> newline \<notin> set w"

lemma parseLines_plain:
  assumes "list_all plain_line ls" "\<And>l. l \<in> set ls \<Longrightarrow> parse l = Inr (f l)"
  shows "parseLines parse ls = Inr (map f ls)"
  using assms
proof (induction ls)
  case (Cons l ls)
  then have "TrimSpace l = l" "l \<noteq> []" by (auto simp: plain_line_def intro: TrimSpace_ends)
  with Cons show ?case by simp
qed simp

lemma graph_word_line:
  assumes "ws \<noteq> []" "\<And>w. w \<in> set ws \<Longrightarrow> list_all is_graph w \<and> w \<noteq> []"
  shows "plain_line (Join ws '' '') \<and> CHR 0x0D \<notin> set (Join ws '' '')"
proof -
  have "set (Join ws '' '') \<subseteq> insert (CHR '' '') (\<Union>w \<in> set ws. set w)"
    by (induction ws rule: induct_list012) auto
  moreover have "\<not> is_graph newline" "\<not> is_graph (CHR 0x0D)" by (simp_all add: is_graph_def byte_def)
  ultimately have "newline \<notin> set (Join ws '' '')" "CHR 0x0D \<notin> set (Join ws '' '')"
    using assms(2) by (auto simp: list_all_iff)
  moreover have "Join ws '' '' \<noteq> [] \<and> is_graph (hd (Join ws '' '')) \<and> is_graph (last (Join ws '' ''))"
    using assms
  proof (induction ws rule: induct_list012)
    case (3 x y zs)
    have "x \<noteq> []" "is_graph (hd x)" using "3.prems"(2)[of x] hd_in_set[of x] by (auto simp: list_all_iff)
    with 3 show ?case by auto
  qed (auto simp: list_all_iff)
  ultimately show ?thesis by (simp add: plain_line_def)
qed

definition listenLine :: "ListenAddress \<Rightarrow> string" where
  "listenLine a = Join [la_Name a, la_Address a, if la_Port a = -1 then ''-'' else Itoa (la_Port a)] '' ''"

definition listenable :: "ListenAddress \<Rightarrow> bool" where
  "listenable a \<longleftrightarrow> list_all is_graph (la_Name a) \<and> la_Name a \<noteq> [] \<and>
     list_all is_graph (la_Address a) \<and> la_Address a \<noteq> [] \<and> in_int64 (la_Port a) \<and> -1 \<le> la_Port a"

lemma Itoa_not_dash: "0 \<le> n \<Longrightarrow> Itoa n \<noteq> ''-''"
  using nat_digits_all_digits[of "nat n"] by (auto simp: Itoa_def is_digit_def byte_def)

lemma listenLine_words:
  assumes "listenable a"
  shows "Fields (listenLine a) = [la_Name a, la_Address a, if la_Port a = -1 then ''-'' else Itoa (la_Port a)]"
    and "plain_line (listenLine a) \<and> CHR 0x0D \<notin> set (listenLine a)"
proof -
  have "list_all is_graph (if la_Port a = -1 then ''-'' else Itoa (la_Port a)) \<and>
      (if la_Port a = -1 then ''-'' else Itoa (la_Port a)) \<noteq> []"
    by (simp add: Itoa_graph is_graph_def byte_def)
  then have ws: "list_all is_graph w \<and> w \<noteq> []"
    if "w \<in> set [la_Name a, la_Address a, if la_Port a = -1 then ''-'' else Itoa (la_Port a)]" for w
    using that assms by (auto simp: listenable_def)
  show "Fields (listenLine a) = [la_Name a, la_Address a, if la_Port a = -1 then ''-'' else Itoa (la_Port a)]"
    unfolding listenLine_def by (rule Fields_Join_words) (rule ws)
  show "plain_line (listenLine a) \<and> CHR 0x0D \<notin> set (listenLine a)"
    unfolding listenLine_def by (rule graph_word_line) (simp, rule ws)
qed

lemma parseListenLine_ok: "listenable a \<Longrightarrow> parseListenLine (listenLine a) = Inr a"
  using listenLine_words(1)[of a] Itoa_not_dash[of "la_Port a"]
  by (auto simp: parseListenLine_def listenable_def Atoi_Itoa)

lemma splitLines_Join:
  assumes "ls \<noteq> []" "\<And>l. l \<in> set ls \<Longrightarrow> newline \<notin> set l \<and> CHR 0x0D \<notin> set l"
  shows "splitLines (Join ls [newline]) = ls"
proof -
  have "CHR 0x0D \<notin> set (Join ls [newline])"
    using assms(2) by (induction ls rule: induct_list012) auto
  moreover have "splitAcc [CHR 0x0D, newline] acc s = [rev acc @ s]" if "CHR 0x0D \<notin> set s" for acc s
    using that by (induction s arbitrary: acc) (auto simp: prefix_def)
  ultimately have "ReplaceAll (Join ls [newline]) [CHR 0x0D, newline] [newline] = Join ls [newline]"
    by (simp add: ReplaceAll_def Split_def)
  then show ?thesis unfolding splitLines_def using assms by (simp add: Split_Join_char)
qed

section \<open>Properties\<close>

text \<open>
  C24. The structured view of a loaded VCL is exact: from the output of
  \<^verbatim>\<open>vcl.show -v\<close> the parser recovers every file with its config ID, name and source, byte for
  byte, even where a source contains lines that look like headers; the config map gives the
  file name of the last file with an ID.
\<close>

theorem vcl_show_roundtrip:
  assumes "list_all showable es" "int (length (concat (map showEntry es))) < 2 ^ 63"
  shows "parseVCLShow (concat (map showEntry es)) =
    Inr \<lparr>vs_Entries = es, vs_ConfigMap = fold (\<lambda>e. mput (vc_ConfigID e) (vc_Filename e)) es [],
         vs_VCLSource = concat (map vc_Source es)\<rparr>"
  using showLoop_entries[of es 0] assms by (simp add: parseVCLShow_def Join_empty_sep)

definition sample_show :: "VCLConfigEntry list" where
  "sample_show =
     [\<lparr>vc_ConfigID = 0, vc_Size = 22, vc_Filename = ''/m.vcl'', vc_Source = ''// VCL.SHOW 9 9 /x.vcl''\<rparr>,
      \<lparr>vc_ConfigID = 1, vc_Size = 0, vc_Filename = ''<builtin>'', vc_Source = []\<rparr>]"

theorem vcl_show_roundtrip_witness:
  "list_all showable sample_show \<and>
   map_sum id vs_Entries (parseVCLShow (concat (map showEntry sample_show))) = Inr sample_show"
proof -
  have t: "TrimSpace ''/m.vcl'' = ''/m.vcl''" "TrimSpace ''<builtin>'' = ''<builtin>''" by code_simp+
  have s: "list_all showable sample_show"
    by (simp add: sample_show_def showable_def t in_int64_def regex_space_def)
  have "Itoa 22 = ''22''" "Itoa 0 = ''0''" "Itoa 1 = ''1''" by code_simp+
  then have "int (length (concat (map showEntry sample_show))) < 2 ^ 63"
    by (simp add: sample_show_def showEntry_def showHeader_def)
  from vcl_show_roundtrip[OF s this] s show ?thesis by simp
qed

text \<open>
  The listen addresses that varnishd reports are recovered from its output, one
  per line, in order; a port \<^verbatim>\<open>-\<close> (a Unix socket) is read as -1.
\<close>

lemma listen_addresses_roundtrip:
  assumes "list_all listenable as" "as \<noteq> []"
  shows "parseListenAddresses (Join (map listenLine as) [newline]) = Inr as"
proof -
  have lines: "splitLines (Join (map listenLine as) [newline]) = map listenLine as"
    using assms listenLine_words(2) by (intro splitLines_Join) (auto simp: list_all_iff plain_line_def)
  have inv: "\<exists>g. \<forall>a \<in> set as. g (listenLine a) = a"
  proof -
    have "inj_on listenLine (set as)"
      using assms(1) parseListenLine_ok by (metis (no_types, lifting) inj_onI list_all_iff sum.inject(2))
    then show ?thesis by (metis inv_into_f_f)
  qed
  then obtain g where g: "\<forall>a \<in> set as. g (listenLine a) = a" by blast
  have "parseLines parseListenLine (map listenLine as) = Inr (map g (map listenLine as))"
    using assms(1) listenLine_words(2) parseListenLine_ok g
    by (intro parseLines_plain) (auto simp: list_all_iff)
  also have "map g (map listenLine as) = as" using g by (simp add: map_idI)
  finally show ?thesis by (simp add: parseListenAddresses_def lines)
qed

end
