(* ===== verification/AdmCommands.thy ===== *)
theory AdmCommands
  imports AdmParsers
begin

text \<open>
  Package \<^verbatim>\<open>varnishadm\<close>, the commands (\<^verbatim>\<open>commands.go\<close>, \<^verbatim>\<open>interface.go\<close>). Every command sends
  one line through \<^verbatim>\<open>Exec\<close>, which is an argument: the real server and the mock implement
  the same interface. The locale \<open>cli_log\<close> states what a client of the interface relies on.
\<close>

section \<open>Commands\<close>

type_synonym ('e, 's) executor = "string \<Rightarrow> 's \<Rightarrow> ('e, VarnishResponse) result \<times> 's"

datatype 'e CmdError =
    ExecError 'e
  | CommandFailed string int string
  | OutputError ParseError
  | ShowOutputError ShowError

definition Ping :: "('e, 's) executor \<Rightarrow> 's \<Rightarrow> ('e, VarnishResponse) result \<times> 's" where
  "Ping exec s = exec ''ping'' s"

definition Status :: "('e, 's) executor \<Rightarrow> 's \<Rightarrow> ('e, VarnishResponse) result \<times> 's" where
  "Status exec s = exec ''status'' s"

definition Start :: "('e, 's) executor \<Rightarrow> 's \<Rightarrow> ('e, VarnishResponse) result \<times> 's" where
  "Start exec s = exec ''start'' s"

definition StopCmd :: "('e, 's) executor \<Rightarrow> 's \<Rightarrow> ('e, VarnishResponse) result \<times> 's" where
  "StopCmd exec s = exec ''stop'' s"

definition PanicShow :: "('e, 's) executor \<Rightarrow> 's \<Rightarrow> ('e, VarnishResponse) result \<times> 's" where
  "PanicShow exec s = exec ''panic.show'' s"

definition PanicClear :: "('e, 's) executor \<Rightarrow> 's \<Rightarrow> ('e, VarnishResponse) result \<times> 's" where
  "PanicClear exec s = exec ''panic.clear'' s"

definition VCLLoad ::
  "('e, 's) executor \<Rightarrow> string \<Rightarrow> string \<Rightarrow> 's \<Rightarrow> ('e, VarnishResponse) result \<times> 's" where
  "VCLLoad exec name path s = exec (''vcl.load '' @ name @ '' '' @ path) s"

definition VCLUse :: "('e, 's) executor \<Rightarrow> string \<Rightarrow> 's \<Rightarrow> ('e, VarnishResponse) result \<times> 's" where
  "VCLUse exec name s = exec (''vcl.use '' @ name) s"

definition VCLDiscard :: "('e, 's) executor \<Rightarrow> string \<Rightarrow> 's \<Rightarrow> ('e, VarnishResponse) result \<times> 's" where
  "VCLDiscard exec name s = exec (''vcl.discard '' @ name) s"

definition VCLList :: "('e, 's) executor \<Rightarrow> 's \<Rightarrow> ('e, VarnishResponse) result \<times> 's" where
  "VCLList exec s = exec ''vcl.list'' s"

text \<open>A structured command: a response that is not ok is an error, an ok one is parsed.\<close>

definition structured ::
  "string \<Rightarrow> (string \<Rightarrow> ('e CmdError, 'a) result) \<Rightarrow> ('e, VarnishResponse) result \<times> 's \<Rightarrow>
   ('e CmdError, 'a) result \<times> 's" where
  "structured cmd parse r =
     (case r of
        (Inl e, s) \<Rightarrow> (Inl (ExecError e), s)
      | (Inr resp, s) \<Rightarrow>
          if statusCode resp \<noteq> ClisOk
          then (Inl (CommandFailed cmd (statusCode resp) (payload resp)), s)
          else (parse (payload resp), s))"

definition VCLListStructured :: "('e, 's) executor \<Rightarrow> 's \<Rightarrow> ('e CmdError, VCLEntry list) result \<times> 's" where
  "VCLListStructured exec s =
     structured ''vcl.list'' (\<lambda>p. map_sum OutputError id (parseVCLList p)) (exec ''vcl.list'' s)"

definition VCLShow :: "('e, 's) executor \<Rightarrow> string \<Rightarrow> 's \<Rightarrow> ('e, VarnishResponse) result \<times> 's" where
  "VCLShow exec name s = exec (''vcl.show -v '' @ name) s"

definition VCLShowStructured ::
  "('e, 's) executor \<Rightarrow> string \<Rightarrow> 's \<Rightarrow> ('e CmdError, VCLShowResult) result \<times> 's" where
  "VCLShowStructured exec name s =
     structured ''vcl.show -v'' (\<lambda>p. map_sum ShowOutputError id (parseVCLShow p)) (VCLShow exec name s)"

definition ParamShow :: "('e, 's) executor \<Rightarrow> string \<Rightarrow> 's \<Rightarrow> ('e, VarnishResponse) result \<times> 's" where
  "ParamShow exec name s =
     (if name = [] then exec ''param.show'' s else exec (''param.show '' @ name) s)"

text \<open>The response is returned next to the error when the status is not ok.\<close>

definition ParamSet ::
  "('e, 's) executor \<Rightarrow> string \<Rightarrow> string \<Rightarrow> 's \<Rightarrow>
   ('e CmdError \<times> VarnishResponse option, VarnishResponse) result \<times> 's" where
  "ParamSet exec name value s =
     (case exec (''param.set '' @ name @ '' '' @ value) s of
        (Inl e, s') \<Rightarrow> (Inl (ExecError e, None), s')
      | (Inr resp, s') \<Rightarrow>
          if statusCode resp \<noteq> ClisOk
          then (Inl (CommandFailed (''param.set '' @ name) (statusCode resp) (payload resp), Some resp), s')
          else (Inr resp, s'))"

text \<open>
  The typed values of \<^verbatim>\<open>ParamSetTyped\<close>. A float is given by its shortest decimal form and
  a duration by its value in nanoseconds; \<open>roundSeconds\<close> is \<^verbatim>\<open>%.0f\<close> of its seconds.
\<close>

datatype ParamValue =
    PInt int
  | PBool bool
  | PFloat string
  | PString string
  | PDuration int
  | PSize nat string

definition Size_String :: "nat \<Rightarrow> string \<Rightarrow> string" where
  "Size_String v u = Itoa (int v) @ u"

definition roundHalfEven :: "int \<Rightarrow> int \<Rightarrow> int" where
  "roundHalfEven n d =
     (let q = n div d; r = n mod d in
      if 2 * r < d \<or> 2 * r = d \<and> even q then q else q + 1)"

definition roundSeconds :: "int \<Rightarrow> string" where
  "roundSeconds ns =
     (let v = roundHalfEven ns 1000000000 in
      (if ns < 0 \<and> v = 0 then ''-0'' else Itoa v) @ ''s'')"

fun paramString :: "ParamValue \<Rightarrow> string" where
  "paramString (PInt i) = Itoa i"
| "paramString (PBool b) = (if b then ''on'' else ''off'')"
| "paramString (PFloat f) = f"
| "paramString (PString s) = s"
| "paramString (PDuration ns) = roundSeconds ns"
| "paramString (PSize v u) = Size_String v u"

definition ParamSetTyped ::
  "(string \<Rightarrow> string \<Rightarrow> 's \<Rightarrow> 'r \<times> 's) \<Rightarrow> string \<Rightarrow> ParamValue \<Rightarrow> 's \<Rightarrow> 'r \<times> 's" where
  "ParamSetTyped paramSet name value s = paramSet name (paramString value) s"

definition TLSCertList :: "('e, 's) executor \<Rightarrow> 's \<Rightarrow> ('e, VarnishResponse) result \<times> 's" where
  "TLSCertList exec s = exec ''tls.cert.list'' s"

definition TLSCertListStructured ::
  "(string \<Rightarrow> string) \<Rightarrow> (string \<Rightarrow> 't option) \<Rightarrow> ('e, 's) executor \<Rightarrow> 's \<Rightarrow>
   ('e CmdError, 't TLSCertEntry list) result \<times> 's" where
  "TLSCertListStructured uni parseTime exec s =
     structured ''tls.cert.list'' (\<lambda>p. map_sum OutputError id (parseTLSCertList uni parseTime p))
       (exec ''tls.cert.list'' s)"

definition TLSCertLoad ::
  "('e, 's) executor \<Rightarrow> string \<Rightarrow> string \<Rightarrow> 's \<Rightarrow> ('e, VarnishResponse) result \<times> 's" where
  "TLSCertLoad exec name certFile s = exec (''tls.cert.load '' @ name @ '' '' @ certFile) s"

definition TLSCertDiscard :: "('e, 's) executor \<Rightarrow> string \<Rightarrow> 's \<Rightarrow> ('e, VarnishResponse) result \<times> 's" where
  "TLSCertDiscard exec cid s = exec (''tls.cert.discard '' @ cid) s"

definition TLSCertCommit :: "('e, 's) executor \<Rightarrow> 's \<Rightarrow> ('e, VarnishResponse) result \<times> 's" where
  "TLSCertCommit exec s = exec ''tls.cert.commit'' s"

definition TLSCertRollback :: "('e, 's) executor \<Rightarrow> 's \<Rightarrow> ('e, VarnishResponse) result \<times> 's" where
  "TLSCertRollback exec s = exec ''tls.cert.rollback'' s"

definition TLSCertReload :: "('e, 's) executor \<Rightarrow> 's \<Rightarrow> ('e, VarnishResponse) result \<times> 's" where
  "TLSCertReload exec s = exec ''tls.cert.reload'' s"

definition BanNukeCache :: "('e, 's) executor \<Rightarrow> 's \<Rightarrow> ('e, VarnishResponse) result \<times> 's" where
  "BanNukeCache exec s = exec ''ban req.url ~ .'' s"

definition DebugListenAddress :: "('e, 's) executor \<Rightarrow> 's \<Rightarrow> ('e, VarnishResponse) result \<times> 's" where
  "DebugListenAddress exec s = exec ''debug.listen_address'' s"

definition DebugListenAddressStructured ::
  "('e, 's) executor \<Rightarrow> 's \<Rightarrow> ('e CmdError, ListenAddress list) result \<times> 's" where
  "DebugListenAddressStructured exec s =
     structured ''debug.listen_address'' (\<lambda>p. map_sum OutputError id (parseListenAddresses p))
       (DebugListenAddress exec s)"

section \<open>The interface\<close>

text \<open>
  What every implementation of the interface promises: executing a command appends exactly
  that line to the log of sent commands.
\<close>

locale cli_log =
  fixes exec :: "('e, 's) executor"
    and sent :: "'s \<Rightarrow> string list"
    and ok :: "'s \<Rightarrow> bool"
  assumes exec_sent: "ok s \<Longrightarrow> cmd \<noteq> [] \<Longrightarrow> sent (snd (exec cmd s)) = sent s @ [cmd]"
    and exec_ok: "ok s \<Longrightarrow> cmd \<noteq> [] \<Longrightarrow> ok (snd (exec cmd s))"
begin

lemma structured_state: "snd (structured cmd parse (r, s)) = s"
  by (simp add: structured_def split: sum.split)

lemma structured_snd: "snd (structured cmd parse x) = snd x"
  by (cases x) (simp add: structured_state)

lemma command_sends:
  assumes "ok s"
  shows "sent (snd (VCLLoad exec n p s)) = sent s @ [''vcl.load '' @ n @ '' '' @ p]"
    "sent (snd (VCLUse exec n s)) = sent s @ [''vcl.use '' @ n]"
    "sent (snd (VCLDiscard exec n s)) = sent s @ [''vcl.discard '' @ n]"
    "sent (snd (VCLShowStructured exec n s)) = sent s @ [''vcl.show -v '' @ n]"
    "sent (snd (DebugListenAddressStructured exec s)) = sent s @ [''debug.listen_address'']"
  using assms by (simp_all add: VCLLoad_def VCLUse_def VCLDiscard_def VCLShowStructured_def VCLShow_def
      structured_snd DebugListenAddressStructured_def DebugListenAddress_def exec_sent)

lemma command_ok:
  assumes "ok s"
  shows "ok (snd (VCLLoad exec n p s))" "ok (snd (VCLUse exec n s))" "ok (snd (VCLDiscard exec n s))"
    "ok (snd (VCLShowStructured exec n s))"
  using assms by (simp_all add: VCLLoad_def VCLUse_def VCLDiscard_def VCLShowStructured_def VCLShow_def
      structured_snd exec_ok)

end

text \<open>
  An executor whose peer answers every command: the response is a function of the command.
\<close>

locale cli_peer = cli_log exec sent ok
  for exec :: "('e, 's) executor" and sent :: "'s \<Rightarrow> string list" and ok :: "'s \<Rightarrow> bool" +
  fixes reply :: "string \<Rightarrow> VarnishResponse"
  assumes exec_reply: "ok s \<Longrightarrow> cmd \<noteq> [] \<Longrightarrow> fst (exec cmd s) = Inr (reply cmd)"
begin

lemma exec_replies:
  assumes "ok s" "cmd \<noteq> []"
  shows "\<exists>s'. exec cmd s = (Inr (reply cmd), s') \<and> sent s' = sent s @ [cmd] \<and> ok s'"
  using exec_reply[OF assms] exec_sent[OF assms] exec_ok[OF assms] by (metis prod.collapse)

end

section \<open>The server as an executor\<close>

text \<open>
  \<^verbatim>\<open>Server.Exec\<close> hands the command to the connection handler and waits for its response; a
  command whose handler fails is answered by the timeout of \<^verbatim>\<open>Exec\<close>.
\<close>

definition server_Exec :: "string \<Rightarrow> (string, Server \<times> Conn) executor" where
  "server_Exec now cmd s =
     (case run now cmd (fst s) (snd s) of
        (Inr resp, v, c) \<Rightarrow> (Inr resp, (v, c))
      | (Inl e, v, c) \<Rightarrow> (Inl ''command timed out'', (v, c\<lparr>cn_open := False\<rparr>)))"

definition server_sent :: "Server \<times> Conn \<Rightarrow> string list" where
  "server_sent s = map butlast (cn_out (snd s))"

text \<open>A connection in step with its peer: open, every line answered, nothing unread.\<close>

definition in_step :: "(string \<Rightarrow> VarnishResponse) \<Rightarrow> Server \<times> Conn \<Rightarrow> bool" where
  "in_step reply s \<longleftrightarrow> answers reply (snd s) \<and> cn_in (snd s) = []"

interpretation srv: cli_peer "server_Exec now" server_sent "in_step reply" reply for now reply
proof unfold_locales
  fix s :: "Server \<times> Conn" and cmd :: string
  assume s: "in_step reply s" and c: "cmd \<noteq> []"
  note r = run_answered[of reply "snd s" cmd now "fst s"]
  show "server_sent (snd (server_Exec now cmd s)) = server_sent s @ [cmd]"
    using r s c by (simp add: in_step_def server_Exec_def server_sent_def)
  show "in_step reply (snd (server_Exec now cmd s))"
    using r s c by (simp add: in_step_def server_Exec_def)
  show "fst (server_Exec now cmd s) = Inr (reply cmd)"
    using r s c by (simp add: in_step_def server_Exec_def)
qed

end
