(* ===== verification/Recorder.thy ===== *)
theory Recorder
  imports GoStrings GoMaps
begin

text \<open>
  Package \<^verbatim>\<open>recorder\<close>: the varnishlog recorder and the analysis of its messages
  (\<^verbatim>\<open>pkg/recorder/types.go\<close>, \<^verbatim>\<open>parser.go\<close>, \<^verbatim>\<open>recorder.go\<close>).

  The parsing functions are pure. The recorder itself is a state machine over the
  \<open>Recorder\<close> record and the log file that the varnishlog process appends to; the results
  of the operating system calls are arguments of the operations.
\<close>

section \<open>Messages\<close>

datatype MessageType =
    MessageTypeVCLTrace | MessageTypeVCLCall | MessageTypeVCLReturn | MessageTypeBackendOpen
  | MessageTypeReqURL | MessageTypeRespStatus | MessageTypeReqHeader | MessageTypeRespHeader
  | MessageTypeOther

record Message =
  msg_Type :: MessageType
  msg_Content :: string
  msg_Fields :: "string list"
  msg_Raw :: string

record VCLTrace =
  VCLName :: string
  TraceID :: string
  SourceLocation :: string
  tr_Config :: int
  tr_Line :: int
  tr_Column :: int

record BackendCall =
  bc_ID :: string
  BackendName :: string
  bc_Host :: string
  bc_Port :: string

section \<open>Parsing varnishlog lines\<close>

text \<open>\<^verbatim>\<open>parseLine\<close>: the second white-space field is the tag.\<close>

definition parseLine :: "string \<Rightarrow> Message" where
  "parseLine line =
     (let msg = \<lparr>msg_Type = MessageTypeOther, msg_Content = [], msg_Fields = [], msg_Raw = line\<rparr>;
          fields = Fields line
      in if length fields < 2 then msg
         else
           let msgType = fields ! 1;
               msg = msg\<lparr>msg_Fields := fields\<rparr>;
               rest = Join (drop 2 fields) '' '';
               third = (if length fields \<ge> 3 then fields ! 2 else []);
               tail3 = (if length fields \<ge> 3 then rest else [])
           in if msgType = ''VCL_trace'' then
                msg\<lparr>msg_Type := MessageTypeVCLTrace,
                    msg_Content := (if length fields \<ge> 5 then rest else [])\<rparr>
              else if msgType = ''VCL_call'' then
                msg\<lparr>msg_Type := MessageTypeVCLCall, msg_Content := third\<rparr>
              else if msgType = ''VCL_return'' then
                msg\<lparr>msg_Type := MessageTypeVCLReturn, msg_Content := third\<rparr>
              else if msgType = ''BackendOpen'' then
                msg\<lparr>msg_Type := MessageTypeBackendOpen, msg_Content := tail3\<rparr>
              else if msgType = ''ReqURL'' then
                msg\<lparr>msg_Type := MessageTypeReqURL, msg_Content := third\<rparr>
              else if msgType = ''RespStatus'' then
                msg\<lparr>msg_Type := MessageTypeRespStatus, msg_Content := third\<rparr>
              else if msgType = ''ReqHeader'' then
                msg\<lparr>msg_Type := MessageTypeReqHeader, msg_Content := tail3\<rparr>
              else if msgType = ''RespHeader'' then
                msg\<lparr>msg_Type := MessageTypeRespHeader, msg_Content := tail3\<rparr>
              else msg)"

text \<open>\<^verbatim>\<open>parseMessages\<close>: empty lines and lines of other tags are dropped.\<close>

definition parseMessages :: "string \<Rightarrow> Message list" where
  "parseMessages output =
     filter (\<lambda>msg. msg_Type msg \<noteq> MessageTypeOther)
       (map parseLine (filter (\<lambda>line. line \<noteq> []) (Split output [newline])))"

definition ParseVCLTrace :: "Message \<Rightarrow> VCLTrace option" where
  "ParseVCLTrace msg =
     (if msg_Type msg \<noteq> MessageTypeVCLTrace then None
      else if length (msg_Fields msg) < 5 then None
      else
        let loc = msg_Fields msg ! 4;
            parts = Split loc ''.''
        in if length parts \<noteq> 3 then None
           else case Atoi (parts ! 0) of None \<Rightarrow> None
              | Some config \<Rightarrow> (case Atoi (parts ! 1) of None \<Rightarrow> None
                 | Some line \<Rightarrow> (case Atoi (parts ! 2) of None \<Rightarrow> None
                    | Some column \<Rightarrow>
                        Some \<lparr>VCLName = msg_Fields msg ! 2, TraceID = msg_Fields msg ! 3,
                              SourceLocation = loc, tr_Config = config, tr_Line = line,
                              tr_Column = column\<rparr>)))"

definition ParseBackendCall :: "Message \<Rightarrow> BackendCall option" where
  "ParseBackendCall msg =
     (if msg_Type msg \<noteq> MessageTypeBackendOpen then None
      else if length (msg_Fields msg) < 6 then None
      else Some \<lparr>bc_ID = msg_Fields msg ! 2, BackendName = msg_Fields msg ! 3,
                 bc_Host = msg_Fields msg ! 4, bc_Port = msg_Fields msg ! 5\<rparr>)"

section \<open>Executed lines\<close>

text \<open>
  The exchange sort of \<^verbatim>\<open>GetExecutedLinesByConfig\<close>: two nested index loops that swap in
  place. The length of the slice does not change, so the loop bounds are fixed.
\<close>

definition swap_if_greater :: "nat \<Rightarrow> nat \<Rightarrow> int list \<Rightarrow> int list" where
  "swap_if_greater i j xs = (if xs ! i > xs ! j then xs[i := xs ! j, j := xs ! i] else xs)"

definition sortInner :: "nat \<Rightarrow> int list \<Rightarrow> int list" where
  "sortInner i xs = fold (\<lambda>j ys. swap_if_greater i j ys) [Suc i..<length xs] xs"

definition sortLines :: "int list \<Rightarrow> int list" where
  "sortLines xs = fold sortInner [0..<length xs] xs"

definition recordTrace ::
  "(int, string) gomap \<Rightarrow> Message \<Rightarrow> (int, (int, bool) gomap) gomap \<Rightarrow> (int, (int, bool) gomap) gomap" where
  "recordTrace configMap msg execByConfig =
     (case ParseVCLTrace msg of None \<Rightarrow> execByConfig
      | Some trace \<Rightarrow>
          (case mget configMap (tr_Config trace) of None \<Rightarrow> execByConfig
           | Some _ \<Rightarrow>
               mput (tr_Config trace)
                 (mput (tr_Line trace) True (mget_or [] execByConfig (tr_Config trace)))
                 execByConfig))"

definition GetExecutedLinesByConfig ::
  "(int list \<Rightarrow> int list) \<Rightarrow> Message list \<Rightarrow> (int, string) gomap \<Rightarrow> (int, int list) gomap" where
  "GetExecutedLinesByConfig ord messages configMap =
     map (\<lambda>(configID, lineMap). (configID, sortLines (ord (mkeys lineMap))))
       (fold (recordTrace configMap) messages [])"

definition GetExecutedLines :: "(int list \<Rightarrow> int list) \<Rightarrow> Message list \<Rightarrow> int list" where
  "GetExecutedLines ord messages =
     (case mget (GetExecutedLinesByConfig ord messages [(0, ''main'')]) 0 of
        Some lines \<Rightarrow> lines | None \<Rightarrow> [])"

fun CountBackendCalls :: "Message list \<Rightarrow> nat" where
  "CountBackendCalls [] = 0"
| "CountBackendCalls (msg # msgs) =
     (if msg_Type msg = MessageTypeBackendOpen then Suc (CountBackendCalls msgs)
      else CountBackendCalls msgs)"

definition GetBackendsUsed :: "(string list \<Rightarrow> string list) \<Rightarrow> Message list \<Rightarrow> string list" where
  "GetBackendsUsed ord messages =
     ord (mkeys (fold (\<lambda>msg backendSet. case ParseBackendCall msg of
                          None \<Rightarrow> backendSet
                        | Some b \<Rightarrow> mput (BackendName b) True backendSet) messages []))"

record VCLTraceSummary =
  sum_ExecutedLines :: "int list"
  sum_BackendCalls :: nat
  sum_BackendsUsed :: "string list"

definition GetTraceSummary ::
  "(int list \<Rightarrow> int list) \<Rightarrow> (string list \<Rightarrow> string list) \<Rightarrow> Message list \<Rightarrow> VCLTraceSummary" where
  "GetTraceSummary ord ord' messages =
     \<lparr>sum_ExecutedLines = GetExecutedLines ord messages,
      sum_BackendCalls = CountBackendCalls messages,
      sum_BackendsUsed = GetBackendsUsed ord' messages\<rparr>"

definition VCLTrace_String :: "VCLTrace \<Rightarrow> string" where
  "VCLTrace_String t =
     ''line '' @ Itoa (tr_Line t) @ '' (config '' @ Itoa (tr_Config t) @ '', col '' @
     Itoa (tr_Column t) @ '')''"

definition BackendCall_String :: "BackendCall \<Rightarrow> string" where
  "BackendCall_String b = BackendName b @ '' @ '' @ bc_Host b @ '':'' @ bc_Port b"

subsection \<open>The exchange sort\<close>

lemma length_swap_if_greater [simp]: "length (swap_if_greater i j xs) = length xs"
  by (simp add: swap_if_greater_def)

lemma mset_swap_if_greater:
  "i < length xs \<Longrightarrow> j < length xs \<Longrightarrow> mset (swap_if_greater i j xs) = mset xs"
  by (simp add: swap_if_greater_def mset_swap)

lemma take_swap_if_greater: "i < j \<Longrightarrow> take i (swap_if_greater i j xs) = take i xs"
  by (simp add: swap_if_greater_def)

text \<open>What the inner loop has done when it reaches index \<open>j\<close>.\<close>

lemma sortInner_upto:
  assumes "i < length xs" "j \<le> length xs" "Suc i \<le> j"
  defines "ys \<equiv> fold (\<lambda>j ys. swap_if_greater i j ys) [Suc i..<j] xs"
  shows "length ys = length xs \<and> mset ys = mset xs \<and> take i ys = take i xs \<and>
         (\<forall>k. i < k \<and> k < j \<longrightarrow> ys ! i \<le> ys ! k)"
  using assms(2,3) unfolding ys_def
proof (induction j)
  case 0
  then show ?case by simp
next
  case (Suc j)
  show ?case
  proof (cases "Suc i \<le> j")
    case False
    with Suc.prems have "Suc j = Suc i" by simp
    then show ?thesis by auto
  next
    case True
    let ?zs = "fold (\<lambda>j ys. swap_if_greater i j ys) [Suc i..<j] xs"
    from Suc True have IH: "length ?zs = length xs" "mset ?zs = mset xs"
      "take i ?zs = take i xs" "\<forall>k. i < k \<and> k < j \<longrightarrow> ?zs ! i \<le> ?zs ! k"
      by simp_all
    have step: "fold (\<lambda>j ys. swap_if_greater i j ys) [Suc i..<Suc j] xs = swap_if_greater i j ?zs"
      using True by (simp add: upt_Suc)
    have "\<forall>k. i < k \<and> k < Suc j \<longrightarrow>
            swap_if_greater i j ?zs ! i \<le> swap_if_greater i j ?zs ! k"
      using IH True Suc.prems assms(1)
      by (auto simp: swap_if_greater_def nth_list_update less_Suc_eq)
    then show ?thesis
      unfolding step using IH True Suc.prems assms(1)
      by (simp add: mset_swap_if_greater take_swap_if_greater)
  qed
qed

lemma sortInner_spec:
  assumes "i < length xs"
  shows "length (sortInner i xs) = length xs \<and> mset (sortInner i xs) = mset xs \<and>
         take i (sortInner i xs) = take i xs \<and>
         (\<forall>k. i < k \<and> k < length xs \<longrightarrow> sortInner i xs ! i \<le> sortInner i xs ! k)"
  unfolding sortInner_def using sortInner_upto[of i xs "length xs"] assms by simp

lemma mset_drop_eq:
  assumes "mset xs = mset ys" "take i xs = take i ys"
  shows "mset (drop i xs) = mset (drop i ys)"
proof -
  have "mset (take i xs) + mset (drop i xs) = mset (take i ys) + mset (drop i ys)"
    using assms(1) by (metis append_take_drop_id mset_append)
  with assms(2) show ?thesis by simp
qed

definition sorted_upto :: "nat \<Rightarrow> int list \<Rightarrow> bool" where
  "sorted_upto i xs \<longleftrightarrow>
     sorted (take i xs) \<and> (\<forall>x \<in> set (take i xs). \<forall>y \<in> set (drop i xs). x \<le> y)"

lemma sortInner_sorted_upto:
  assumes "i < length xs" "sorted_upto i xs"
  shows "sorted_upto (Suc i) (sortInner i xs)"
proof -
  let ?ys = "sortInner i xs"
  from sortInner_spec[OF assms(1)] have ys: "length ?ys = length xs" "mset ?ys = mset xs"
    "take i ?ys = take i xs" "\<forall>k. i < k \<and> k < length xs \<longrightarrow> ?ys ! i \<le> ?ys ! k" by auto
  have dropeq: "set (drop i ?ys) = set (drop i xs)"
    using mset_drop_eq[OF ys(2,3)] by (metis set_mset_mset)
  have split: "drop i ?ys = ?ys ! i # drop (Suc i) ?ys"
    using assms(1) ys(1) by (simp add: Cons_nth_drop_Suc)
  have takeS: "take (Suc i) ?ys = take i xs @ [?ys ! i]"
    using assms(1) ys(1,3) by (simp add: take_Suc_conv_app_nth)
  have le: "\<forall>x \<in> set (take i xs). x \<le> ?ys ! i"
    using assms(2) dropeq split by (auto simp: sorted_upto_def)
  have "\<forall>y \<in> set (drop (Suc i) ?ys). ?ys ! i \<le> y"
    using ys(1,4) by (auto simp: in_set_conv_nth)
  moreover have "\<forall>x \<in> set (take i xs). \<forall>y \<in> set (drop (Suc i) ?ys). x \<le> y"
    using assms(2) dropeq split by (auto simp: sorted_upto_def)
  ultimately show ?thesis
    using assms(2) le takeS by (auto simp: sorted_upto_def sorted_append)
qed

lemma sortLines_upto:
  assumes "n \<le> length xs"
  shows "length (fold sortInner [0..<n] xs) = length xs \<and>
         mset (fold sortInner [0..<n] xs) = mset xs \<and>
         sorted_upto n (fold sortInner [0..<n] xs)"
  using assms
proof (induction n)
  case 0
  then show ?case by (simp add: sorted_upto_def)
next
  case (Suc n)
  let ?zs = "fold sortInner [0..<n] xs"
  from Suc have IH: "length ?zs = length xs" "mset ?zs = mset xs" "sorted_upto n ?zs" by auto
  then have "n < length ?zs" using Suc.prems by simp
  with sortInner_spec[of n ?zs] sortInner_sorted_upto[of n ?zs] IH show ?case by simp
qed

lemma sortLines_sorted: "sorted (sortLines xs)"
  using sortLines_upto[of "length xs" xs] by (auto simp: sortLines_def sorted_upto_def)

lemma sortLines_mset: "mset (sortLines xs) = mset xs"
  using sortLines_upto[of "length xs" xs] by (simp add: sortLines_def)

lemma sortLines_eq_sort: "sortLines xs = sort xs"
  using sortLines_sorted sortLines_mset by (metis properties_for_sort)

subsection \<open>What the executed-line maps hold\<close>

text \<open>
  The specification: the lines of configuration \<open>c\<close> that some VCL trace message of the log
  names, for a configuration the config map knows.
\<close>

definition executed :: "(int, string) gomap \<Rightarrow> Message list \<Rightarrow> int \<Rightarrow> int set" where
  "executed configMap messages c =
     {tr_Line t | t m. m \<in> set messages \<and> ParseVCLTrace m = Some t \<and> tr_Config t = c \<and>
                       mget configMap c \<noteq> None}"

lemma executed_Nil [simp]: "executed cm [] c = {}"
  by (simp add: executed_def)

lemma executed_Cons:
  "executed cm (m # ms) c =
     (case ParseVCLTrace m of None \<Rightarrow> {}
      | Some t \<Rightarrow> if tr_Config t = c \<and> mget cm c \<noteq> None then {tr_Line t} else {})
     \<union> executed cm ms c"
  by (auto simp: executed_def split: option.splits)

lemma executed_append [simp]: "executed cm (ms @ ns) c = executed cm ms c \<union> executed cm ns c"
  by (induction ms) (auto simp: executed_Cons)

lemma finite_executed [simp]: "finite (executed cm ms c)"
  by (induction ms) (auto simp: executed_Cons split: option.splits)

definition exec_lines :: "(int, (int, bool) gomap) gomap \<Rightarrow> int \<Rightarrow> int set" where
  "exec_lines e c = set (mkeys (mget_or [] e c))"

lemma recordTrace_lines:
  "exec_lines (recordTrace cm m e) c = exec_lines e c \<union> executed cm [m] c"
  by (auto simp: recordTrace_def exec_lines_def executed_Cons mget_or_def am.keys_put
      split: option.splits)

lemma recordTrace_dom:
  "mget (recordTrace cm m e) c \<noteq> None \<longleftrightarrow> mget e c \<noteq> None \<or> executed cm [m] c \<noteq> {}"
  by (auto simp: recordTrace_def executed_Cons split: option.splits)

definition exec_wf :: "(int, (int, bool) gomap) gomap \<Rightarrow> bool" where
  "exec_wf e \<longleftrightarrow> (\<forall>c lm. mget e c = Some lm \<longrightarrow> wf_map lm)"

lemma recordTrace_wf: "exec_wf e \<Longrightarrow> exec_wf (recordTrace cm m e)"
  by (auto simp: recordTrace_def exec_wf_def mget_or_def split: option.splits)

lemma record_all:
  assumes "exec_wf e"
  shows "exec_wf (fold (recordTrace cm) ms e) \<and>
    exec_lines (fold (recordTrace cm) ms e) c = exec_lines e c \<union> executed cm ms c \<and>
    (mget (fold (recordTrace cm) ms e) c \<noteq> None \<longleftrightarrow> mget e c \<noteq> None \<or> executed cm ms c \<noteq> {})"
  using assms
proof (induction ms arbitrary: e)
  case Nil
  then show ?case by simp
next
  case (Cons m ms)
  have "exec_wf (recordTrace cm m e)" using Cons.prems by (rule recordTrace_wf)
  from Cons.IH[OF this] show ?case
    unfolding recordTrace_lines recordTrace_dom fold_simps comp_def
    using executed_append[of cm "[m]" ms c] by auto
qed

lemma sort_distinct_set:
  assumes "distinct xs" "set xs = A"
  shows "sort xs = sorted_list_of_set A"
  using assms by (simp add: sorted_list_of_set_sort_remdups distinct_remdups_id flip: assms(2))

lemma mget_map_values: "mget (map (\<lambda>(k, v). (k, f v)) m) c = map_option f (mget m c)"
  by (simp add: mget_def map_of_map)

lemma executed_lines_by_config:
  assumes "range_order ord"
  shows "mget (GetExecutedLinesByConfig ord messages configMap) c =
    (if executed configMap messages c = {} then None
     else Some (sorted_list_of_set (executed configMap messages c)))"
proof -
  let ?e = "fold (recordTrace configMap) messages []"
  have wf0: "exec_wf []" by (simp add: exec_wf_def)
  from record_all[OF wf0, of configMap messages c] have e: "exec_wf ?e"
    "exec_lines ?e c = executed configMap messages c"
    "mget ?e c \<noteq> None \<longleftrightarrow> executed configMap messages c \<noteq> {}"
    by (auto simp: exec_lines_def mget_or_def mkeys_def)
  show ?thesis
  proof (cases "mget ?e c")
    case None
    with e(3) show ?thesis by (simp add: GetExecutedLinesByConfig_def mget_map_values)
  next
    case (Some lm)
    then have "set (mkeys lm) = executed configMap messages c"
      using e(2) by (simp add: exec_lines_def mget_or_def)
    moreover have "distinct (mkeys lm)"
      using e(1) Some by (simp add: exec_wf_def am.keys_distinct)
    ultimately have "sort (ord (mkeys lm)) = sorted_list_of_set (executed configMap messages c)"
      using assms by (intro sort_distinct_set)
        (simp_all add: range_order_distinct range_order_set)
    with Some e(3) show ?thesis
      by (simp add: GetExecutedLinesByConfig_def mget_map_values sortLines_eq_sort)
  qed
qed

section \<open>The recorder process\<close>

record Recorder =
  rec_workDir :: string
  rec_outputFile :: string
  rec_outFile :: bool  \<comment> \<open>the output file is set (not nil)\<close>
  rec_cmd :: bool      \<comment> \<open>the varnishlog command is set (not nil)\<close>
  rec_running :: bool

datatype rec_error =
    WorkDirEmpty | LoggerNil | VarnishlogNotFound | AlreadyRunning | CreateOutputFailed
  | StartVarnishlogFailed | NotRunning | SignalFailed | KillFailed | NoProcess | FlushSignalFailed
  | StatFailed | LogMissing | OpenFailed | SeekFailed | ReadFailed

text \<open>The log file as the operating system holds it: absent, or its bytes.\<close>

type_synonym log_file = "string option"
type_synonym rec_state = "Recorder \<times> log_file"

text \<open>
  \<^verbatim>\<open>New\<close>: \<open>join\<close> is the value of \<^verbatim>\<open>filepath.Join(workDir, "varnish.log")\<close>, and
  \<open>lookpath\<close> whether \<^verbatim>\<open>exec.LookPath\<close> found varnishlog.
\<close>

definition recorder_New :: "string \<Rightarrow> bool \<Rightarrow> bool \<Rightarrow> string \<Rightarrow> (rec_error, Recorder) result" where
  "recorder_New workDir loggerNil lookpath join =
     (if workDir = [] then Inl WorkDirEmpty
      else if loggerNil then Inl LoggerNil
      else if \<not> lookpath then Inl VarnishlogNotFound
      else Inr \<lparr>rec_workDir = workDir, rec_outputFile = join, rec_outFile = False,
                rec_cmd = False, rec_running = False\<rparr>)"

text \<open>
  \<^verbatim>\<open>Start\<close>: the arguments say whether removing the old file, creating the new one and
  starting the command succeeded. A failed removal is only logged.
\<close>

definition recorder_Start ::
  "bool \<Rightarrow> bool \<Rightarrow> bool \<Rightarrow> rec_state \<Rightarrow> (rec_error, unit) result \<times> rec_state" where
  "recorder_Start removed created started st =
     (case st of (r, log) \<Rightarrow>
        if rec_running r then (Inl AlreadyRunning, st)
        else let log' = (if removed then None else log)
             in if \<not> created then (Inl CreateOutputFailed, (r, log'))
                else if \<not> started then (Inl StartVarnishlogFailed, (r\<lparr>rec_cmd := True\<rparr>, Some []))
                else (Inr (), (r\<lparr>rec_cmd := True, rec_running := True, rec_outFile := True\<rparr>, Some [])))"

text \<open>
  \<^verbatim>\<open>Stop\<close>: whether the interrupt was delivered, whether the process exited within the
  second it is given, and whether the kill succeeded. Errors of the exit status and of
  closing the file are only logged.
\<close>

definition recorder_Stop ::
  "bool \<Rightarrow> bool \<Rightarrow> bool \<Rightarrow> rec_state \<Rightarrow> (rec_error, unit) result \<times> rec_state" where
  "recorder_Stop signalled exited killed st =
     (case st of (r, log) \<Rightarrow>
        if \<not> rec_running r then (Inl NotRunning, st)
        else if \<not> signalled then (Inl SignalFailed, st)
        else if \<not> exited \<and> \<not> killed then (Inl KillFailed, st)
        else (Inr (), (r\<lparr>rec_running := False\<rparr>, log)))"

definition recorder_IsRunning :: "Recorder \<Rightarrow> bool" where
  "recorder_IsRunning r = rec_running r"

definition recorder_Flush :: "bool \<Rightarrow> Recorder \<Rightarrow> (rec_error, unit) result" where
  "recorder_Flush signalled r =
     (if \<not> rec_running r then Inl NotRunning
      else if \<not> rec_cmd r then Inl NoProcess
      else if \<not> signalled then Inl FlushSignalFailed
      else Inr ())"

text \<open>
  The outcomes of the system calls on the log file: whether each of them succeeds when the
  file is there.
\<close>

record log_io =
  li_stat :: bool
  li_open :: bool
  li_seek :: bool
  li_read :: bool

definition MarkPosition :: "log_io \<Rightarrow> log_file \<Rightarrow> (rec_error, int) result" where
  "MarkPosition io log =
     (case log of
        None \<Rightarrow> Inl StatFailed
      | Some data \<Rightarrow> if \<not> li_stat io then Inl StatFailed else Inr (int (length data)))"

text \<open>
  \<^verbatim>\<open>GetMessagesSince\<close>: of the errors of \<^verbatim>\<open>os.Stat\<close> only a missing file counts. A seek to a
  negative offset fails; reading past the end of the file yields no bytes.
\<close>

definition GetMessagesSince :: "log_io \<Rightarrow> log_file \<Rightarrow> int \<Rightarrow> (rec_error, Message list) result" where
  "GetMessagesSince io log offset =
     (case log of
        None \<Rightarrow> Inl LogMissing
      | Some data \<Rightarrow>
          if \<not> li_open io then Inl OpenFailed
          else if \<not> li_seek io \<or> offset < 0 then Inl SeekFailed
          else if \<not> li_read io then Inl ReadFailed
          else Inr (parseMessages (drop (nat offset) data)))"

definition GetMessages :: "log_io \<Rightarrow> log_file \<Rightarrow> (rec_error, Message list) result" where
  "GetMessages io log = GetMessagesSince io log 0"

definition is_vcl_message :: "Message \<Rightarrow> bool" where
  "is_vcl_message msg =
     (case msg_Type msg of
        MessageTypeVCLTrace \<Rightarrow> True | MessageTypeVCLCall \<Rightarrow> True
      | MessageTypeVCLReturn \<Rightarrow> True | MessageTypeBackendOpen \<Rightarrow> True | _ \<Rightarrow> False)"

definition GetVCLMessagesSince :: "log_io \<Rightarrow> log_file \<Rightarrow> int \<Rightarrow> (rec_error, Message list) result" where
  "GetVCLMessagesSince io log offset =
     (case GetMessagesSince io log offset of Inl e \<Rightarrow> Inl e
      | Inr messages \<Rightarrow> Inr (filter is_vcl_message messages))"

definition GetVCLMessages :: "log_io \<Rightarrow> log_file \<Rightarrow> (rec_error, Message list) result" where
  "GetVCLMessages io log = GetVCLMessagesSince io log 0"

definition GetOutputFile :: "Recorder \<Rightarrow> string" where
  "GetOutputFile r = rec_outputFile r"

section \<open>Runs of the recorder\<close>

text \<open>
  A run interleaves the recorder's operations, with any outcome of their system calls, and
  the varnishlog process, which appends to the file while it runs.
\<close>

datatype rec_event = EvStart | EvStop | EvAppend string

inductive rec_step :: "rec_state \<Rightarrow> rec_event \<Rightarrow> rec_state \<Rightarrow> bool" where
  start: "recorder_Start removed created started st = (res, st') \<Longrightarrow> rec_step st EvStart st'"
| stop: "recorder_Stop signalled exited killed st = (res, st') \<Longrightarrow> rec_step st EvStop st'"
| append: "rec_running r \<Longrightarrow> rec_step (r, Some data) (EvAppend chunk) (r, Some (data @ chunk))"

inductive_cases rec_step_startE: "rec_step st EvStart st'"
inductive_cases rec_step_stopE: "rec_step st EvStop st'"
inductive_cases rec_step_appendE: "rec_step st (EvAppend chunk) st'"

inductive rec_run :: "rec_state \<Rightarrow> rec_event list \<Rightarrow> rec_state \<Rightarrow> bool" where
  run_nil: "rec_run st [] st"
| run_cons: "rec_step st e st' \<Longrightarrow> rec_run st' es st'' \<Longrightarrow> rec_run st (e # es) st''"

inductive_cases rec_run_nilE: "rec_run st [] st'"
inductive_cases rec_run_consE: "rec_run st (e # es) st'"

definition rec_inv :: "rec_state \<Rightarrow> bool" where
  "rec_inv st \<longleftrightarrow>
     (rec_running (fst st) \<longrightarrow> rec_cmd (fst st) \<and> rec_outFile (fst st) \<and> snd st \<noteq> None)"

lemma rec_step_inv: "rec_step st e st' \<Longrightarrow> rec_inv st \<Longrightarrow> rec_inv st'"
  by (induction rule: rec_step.induct)
    (auto simp: rec_inv_def recorder_Start_def recorder_Stop_def Let_def
      split: if_splits prod.splits)

lemma rec_run_inv: "rec_run st es st' \<Longrightarrow> rec_inv st \<Longrightarrow> rec_inv st'"
  by (induction rule: rec_run.induct) (auto intro: rec_step_inv)

lemma recorder_New_inv: "recorder_New w l p j = Inr r \<Longrightarrow> rec_inv (r, log)"
  by (auto simp: recorder_New_def rec_inv_def split: if_splits)

text \<open>The bytes a run appends.\<close>

fun appended :: "rec_event list \<Rightarrow> string" where
  "appended [] = []"
| "appended (EvAppend chunk # es) = chunk @ appended es"
| "appended (e # es) = appended es"

lemma rec_run_appends:
  assumes "rec_run st es st'" "EvStart \<notin> set es" "snd st = Some data"
  shows "snd st' = Some (data @ appended es)"
  using assms
proof (induction arbitrary: data rule: rec_run.induct)
  case (run_nil st)
  then show ?case by simp
next
  case (run_cons st e st' es st'')
  show ?case
  proof (cases e)
    case EvStart
    with run_cons.prems show ?thesis by simp
  next
    case EvStop
    with run_cons.hyps(1) run_cons.prems have "snd st' = Some data"
      by (auto simp: recorder_Stop_def split: if_splits prod.splits elim!: rec_step_stopE)
    with run_cons EvStop show ?thesis by simp
  next
    case (EvAppend chunk)
    with run_cons.hyps(1) run_cons.prems have "snd st' = Some (data @ chunk)"
      by (auto elim!: rec_step_appendE)
    with run_cons EvAppend show ?thesis by simp
  qed
qed

text \<open>Log text that ends in a newline is parsed independently of what follows it.\<close>

lemma parseMessages_append:
  assumes "s = [] \<or> last s = newline"
  shows "parseMessages (s @ t) = parseMessages s @ parseMessages t"
proof (cases "s = []")
  case True
  have "parseMessages [] = []"
    by (simp add: parseMessages_def Split_char_nosep)
  with True show ?thesis by simp
next
  case False
  then obtain u where s: "s = u @ [newline]"
    using assms by (metis append_butlast_last_id)
  have "Split (s @ t) [newline] = Split u [newline] @ Split t [newline]"
    using s by (simp add: Split_char_append)
  moreover have "Split s [newline] = Split u [newline] @ [[]]"
    using s Split_char_append[of u newline "[]"] by (simp add: Split_char_nosep)
  ultimately show ?thesis by (simp add: parseMessages_def)
qed

section \<open>Properties\<close>

text \<open>
  C27. Per configuration, the executed lines reported are exactly the distinct line numbers
  of the VCL trace messages of that configuration, in ascending order, and a configuration
  is present exactly when it is in the config map and some trace names it; the order in
  which Go ranges over its maps does not matter.
\<close>

theorem executed_lines_correct:
  assumes "range_order ord"
  shows "mget (GetExecutedLinesByConfig ord messages configMap) c =
    (if executed configMap messages c = {} then None
     else Some (sorted_list_of_set (executed configMap messages c)))"
  using assms by (rule executed_lines_by_config)

definition sample_log :: string where
  "sample_log =
     ''-   VCL_trace      boot 1 0.12.5'' @ [newline] @
     ''-   ReqURL         /a'' @ [newline] @
     ''-   VCL_trace      boot 4 0.7.5'' @ [newline] @
     ''-   VCL_trace      boot 9 1.3.1'' @ [newline] @
     ''-   VCL_trace      boot 1 0.12.5'' @ [newline] @
     ''--  BackendOpen    22 default 127.0.0.1 8080 127.0.0.1 56783 connect'' @ [newline]"

theorem executed_lines_correct_witness:
  "mget (GetExecutedLinesByConfig rev (parseMessages sample_log) [(0, ''main.vcl'')]) 0 =
     Some [7, 12]"
proof -
  have "GetExecutedLinesByConfig rev (parseMessages sample_log) [(0, ''main.vcl'')] = [(0, [7, 12])]"
    by code_simp
  with executed_lines_correct[of rev "parseMessages sample_log" "[(0, ''main.vcl'')]" 0]
  show ?thesis by (simp add: mget_def)
qed

text \<open>
  A VCL trace line in varnishlog's format parses back to the name, the trace id and the
  three numbers that were printed.
\<close>

lemma vcl_trace_roundtrip:
  assumes "list_all is_graph name" "name \<noteq> []" "list_all is_graph tid" "tid \<noteq> []"
    and "in_int64 cfg" "in_int64 line" "in_int64 col"
  shows "ParseVCLTrace (parseLine
           (''-   VCL_trace      '' @ name @ '' '' @ tid @ '' '' @
            Itoa cfg @ ''.'' @ Itoa line @ ''.'' @ Itoa col)) =
         Some \<lparr>VCLName = name, TraceID = tid,
               SourceLocation = Itoa cfg @ ''.'' @ Itoa line @ ''.'' @ Itoa col,
               tr_Config = cfg, tr_Line = line, tr_Column = col\<rparr>"
proof -
  let ?loc = "Itoa cfg @ ''.'' @ Itoa line @ ''.'' @ Itoa col"
  have dot: "CHR ''.'' \<notin> set (Itoa i)" for i
    by (rule Itoa_no_char) (simp_all add: is_digit_def byte_def)
  have loc_graph: "list_all is_graph ?loc"
    by (simp add: Itoa_graph is_graph_def byte_def)
  have split: "Split ?loc ''.'' = [Itoa cfg, Itoa line, Itoa col]"
    using Split_char_sep[OF dot, of cfg "Itoa line @ ''.'' @ Itoa col"]
      Split_char_sep[OF dot, of line "Itoa col"] Split_char_nosep[OF dot, of col] by simp
  have "Fields (''-   VCL_trace      '' @ name @ '' '' @ tid @ '' '' @ ?loc) =
        [''-'', ''VCL_trace'', name, tid, ?loc]"
  proof -
    have 1: "Fields (''-'' @ replicate (Suc 2) (CHR '' '') @ X) = ''-'' # Fields X" for X
      by (rule Fields_word_space) (simp_all add: is_graph_def byte_def)
    have 2: "Fields (''VCL_trace'' @ replicate (Suc 5) (CHR '' '') @ X) = ''VCL_trace'' # Fields X" for X
      by (rule Fields_word_space) (simp_all add: is_graph_def byte_def)
    have 3: "Fields (name @ replicate (Suc 0) (CHR '' '') @ X) = name # Fields X"
      "Fields (tid @ replicate (Suc 0) (CHR '' '') @ X) = tid # Fields X" for X
      by (rule Fields_word_space[OF assms(1,2)], rule Fields_word_space[OF assms(3,4)])
    have 4: "Fields ?loc = [?loc]" by (rule Fields_word[OF loc_graph]) simp
    have "Fields (''-'' @ replicate (Suc 2) (CHR '' '') @ ''VCL_trace'' @
            replicate (Suc 5) (CHR '' '') @ name @ replicate (Suc 0) (CHR '' '') @ tid @
            replicate (Suc 0) (CHR '' '') @ ?loc) = [''-'', ''VCL_trace'', name, tid, ?loc]"
      by (simp only: 1 2 3 4)
    then show ?thesis by (simp add: numeral_eq_Suc)
  qed
  then show ?thesis
    using split assms(5-7) by (simp add: parseLine_def ParseVCLTrace_def Let_def Atoi_Itoa)
qed

text \<open>
  C6. Isolation of tests through log offsets: if the log ends at a line boundary when the
  position is marked, then, whatever operations but a restart follow and whatever
  varnishlog appends, reading from the mark yields exactly the messages of the appended
  text, and reading the whole log yields the earlier messages followed by them. When opening,
  seeking or reading the file fails, the read returns an error and never a part of the
  messages.
\<close>

theorem messages_since_mark:
  assumes "rec_run (r, Some data) es (r', log')" "EvStart \<notin> set es"
    and "data = [] \<or> last data = newline"
    and "MarkPosition io0 (Some data) = Inr off"
  shows "(li_open io \<and> li_seek io \<and> li_read io \<longrightarrow>
       GetMessagesSince io log' off = Inr (parseMessages (appended es)) \<and>
       GetMessages io log' = Inr (parseMessages data @ parseMessages (appended es))) \<and>
    (\<not> (li_open io \<and> li_seek io \<and> li_read io) \<longrightarrow>
       (\<exists>e. GetMessagesSince io log' off = Inl e) \<and> (\<exists>e. GetMessages io log' = Inl e))"
proof -
  from rec_run_appends[OF assms(1,2), of data] have "log' = Some (data @ appended es)" by simp
  moreover have "off = int (length data)" using assms(4) by (simp add: MarkPosition_def split: if_splits)
  ultimately show ?thesis using assms(3)
    by (auto simp: GetMessages_def GetMessagesSince_def parseMessages_append)
qed

definition running_recorder :: Recorder where
  "running_recorder = \<lparr>rec_workDir = ''/w'', rec_outputFile = ''/w/varnish.log'',
     rec_outFile = True, rec_cmd = True, rec_running = True\<rparr>"

definition io_ok :: log_io where
  "io_ok = \<lparr>li_stat = True, li_open = True, li_seek = True, li_read = True\<rparr>"

theorem messages_since_mark_witness:
  "GetMessagesSince io_ok (Some (sample_log @ ''-   VCL_call       RECV'')) (int (length sample_log)) =
     Inr (parseMessages ''-   VCL_call       RECV'')"
proof -
  have run: "rec_run (running_recorder, Some sample_log) [EvAppend ''-   VCL_call       RECV'']
               (running_recorder, Some (sample_log @ ''-   VCL_call       RECV''))"
    by (rule rec_run.run_cons[OF rec_step.append rec_run.run_nil])
      (simp add: running_recorder_def)
  have "last sample_log = newline" by (simp add: sample_log_def)
  moreover have "MarkPosition io_ok (Some sample_log) = Inr (int (length sample_log))"
    by (simp add: MarkPosition_def io_ok_def)
  ultimately show ?thesis using messages_since_mark[OF run, of io_ok "int (length sample_log)" io_ok]
    by (simp add: io_ok_def)
qed

text \<open>
  While the recorder is running, in every run from a new recorder, the process handle is set
  and its log file has not been removed by the recorder.
\<close>

lemma running_recorder_usable:
  assumes "recorder_New w l p j = Inr r0" "rec_run (r0, log0) es (r, log)" "rec_running r"
  shows "recorder_Flush True r = Inr () \<and> (\<exists>data. log = Some data)"
proof -
  have "rec_inv (r, log)"
    using rec_run_inv[OF assms(2)] recorder_New_inv[OF assms(1)] by blast
  with assms(3) show ?thesis by (auto simp: rec_inv_def recorder_Flush_def)
qed

end
