(* ===== verification/Coverage.thy ===== *)
theory Coverage
  imports VclAst GoMaps
begin

text \<open>
  Package \<^verbatim>\<open>coverage\<close>: block-level VCL coverage (\<^verbatim>\<open>block.go\<close>, \<^verbatim>\<open>matcher.go\<close>,
  \<^verbatim>\<open>analyzer.go\<close>). Blocks are trees; Go marks them in place, the model returns the marked
  tree.
\<close>

section \<open>Blocks\<close>

datatype BlockType = BlockTypeSub | BlockTypeIf | BlockTypeElseIf | BlockTypeElse

datatype Block = Block
  (blk_Type: BlockType) (blk_Name: string) (HeaderLine: int)
  (OpenBrace: int) (CloseBrace: int) (Entered: bool) (Children: "Block list")

record FileBlocks =
  fb_ConfigID :: int
  fb_Filename :: string
  fb_Blocks :: "Block list"

definition LineInBlock :: "Block \<Rightarrow> int \<Rightarrow> bool" where
  "LineInBlock b line \<longleftrightarrow> line \<ge> OpenBrace b \<and> line \<le> CloseBrace b"

fun AllBlocks :: "Block \<Rightarrow> Block list" where
  "AllBlocks (Block ty n h op cl e ch) = Block ty n h op cl e ch # concat (map AllBlocks ch)"

text \<open>The first value a loop over \<open>xs\<close> returns, if any iteration returns one.\<close>

fun firstSome :: "('a \<Rightarrow> 'b option) \<Rightarrow> 'a list \<Rightarrow> 'b option" where
  "firstSome f [] = None"
| "firstSome f (x # xs) = (case f x of Some y \<Rightarrow> Some y | None \<Rightarrow> firstSome f xs)"

lemma firstSome_cong [fundef_cong]:
  "xs = ys \<Longrightarrow> (\<And>x. x \<in> set ys \<Longrightarrow> f x = g x) \<Longrightarrow> firstSome f xs = firstSome g ys"
  by (induction ys arbitrary: xs) (auto split: option.splits)

lemma firstSome_None: "firstSome f xs = None \<longleftrightarrow> (\<forall>x \<in> set xs. f x = None)"
  by (induction xs) (auto split: option.splits)

lemma firstSome_SomeD: "firstSome f xs = Some y \<Longrightarrow> \<exists>x \<in> set xs. f x = Some y"
  by (induction xs) (auto split: option.splits)

fun findBlockAtLineRecursive :: "Block \<Rightarrow> int \<Rightarrow> Block option" where
  "findBlockAtLineRecursive (Block ty n h op cl e ch) line =
     (if \<not> LineInBlock (Block ty n h op cl e ch) line then None
      else case firstSome (\<lambda>child. findBlockAtLineRecursive child line) ch of
             Some found \<Rightarrow> Some found
           | None \<Rightarrow> Some (Block ty n h op cl e ch))"

definition FindBlockAtLine :: "FileBlocks \<Rightarrow> int \<Rightarrow> Block option" where
  "FindBlockAtLine fb line = firstSome (\<lambda>b. findBlockAtLineRecursive b line) (fb_Blocks fb)"

fun fillLineStatus :: "Block \<Rightarrow> (int, bool) gomap \<Rightarrow> (int, bool) gomap" where
  "fillLineStatus (Block ty n h op cl e ch) status =
     fold fillLineStatus ch (fold (\<lambda>line. mput line e) [op..cl] status)"

definition GetLineStatus :: "FileBlocks \<Rightarrow> (int, bool) gomap" where
  "GetLineStatus fb = fold fillLineStatus (fb_Blocks fb) []"

section \<open>Matching traces\<close>

definition tracedSetOf :: "int list \<Rightarrow> (int, bool) gomap" where
  "tracedSetOf tracedLines = fold (\<lambda>line. mput line True) tracedLines []"

definition insideAnyChild :: "Block list \<Rightarrow> int \<Rightarrow> bool" where
  "insideAnyChild ch line \<longleftrightarrow>
     list_ex (\<lambda>child. line \<ge> OpenBrace child \<and> line \<le> CloseBrace child) ch"

fun matchBlockRecursive :: "(int, bool) gomap \<Rightarrow> Block \<Rightarrow> Block" where
  "matchBlockRecursive tracedSet (Block ty n h op cl e ch) =
     (let ch' = map (matchBlockRecursive tracedSet) ch;
          own = list_ex (\<lambda>line. line > op \<and> line < cl \<and> \<not> insideAnyChild ch' line)
                  (mkeys tracedSet)
      in Block ty n h op cl (e \<or> own \<or> list_ex Entered ch') ch')"

text \<open>A nil \<^verbatim>\<open>*FileBlocks\<close> is \<open>None\<close>.\<close>

definition MatchTracesToBlocks :: "FileBlocks option \<Rightarrow> int list \<Rightarrow> FileBlocks option" where
  "MatchTracesToBlocks fb tracedLines =
     (case fb of None \<Rightarrow> None
      | Some fb \<Rightarrow>
          Some (fb\<lparr>fb_Blocks := map (matchBlockRecursive (tracedSetOf tracedLines)) (fb_Blocks fb)\<rparr>))"

fun matchBlockRecursiveWithTolerance :: "(int, bool) gomap \<Rightarrow> int \<Rightarrow> Block \<Rightarrow> Block" where
  "matchBlockRecursiveWithTolerance tracedSet tol (Block ty n h op cl e ch) =
     Block ty n h op cl
       (e \<or> list_ex (\<lambda>offset. mget_or False tracedSet (op + offset)) [- tol..tol])
       (map (matchBlockRecursiveWithTolerance tracedSet tol) ch)"

definition MatchTracesToBlocksWithTolerance ::
  "FileBlocks option \<Rightarrow> int list \<Rightarrow> int \<Rightarrow> FileBlocks option" where
  "MatchTracesToBlocksWithTolerance fb tracedLines tol =
     (case fb of None \<Rightarrow> None
      | Some fb \<Rightarrow>
          Some (fb\<lparr>fb_Blocks :=
            map (matchBlockRecursiveWithTolerance (tracedSetOf tracedLines) tol) (fb_Blocks fb)\<rparr>))"

fun getEnteredRecursive :: "Block \<Rightarrow> Block list" where
  "getEnteredRecursive (Block ty n h op cl e ch) =
     (if e then [Block ty n h op cl e ch] else []) @ concat (map getEnteredRecursive ch)"

definition GetEnteredBlocks :: "FileBlocks \<Rightarrow> Block list" where
  "GetEnteredBlocks fb = concat (map getEnteredRecursive (fb_Blocks fb))"

fun getNotEnteredRecursive :: "Block \<Rightarrow> Block list" where
  "getNotEnteredRecursive (Block ty n h op cl e ch) =
     (if \<not> e then [Block ty n h op cl e ch] else []) @ concat (map getNotEnteredRecursive ch)"

definition GetNotEnteredBlocks :: "FileBlocks \<Rightarrow> Block list" where
  "GetNotEnteredBlocks fb = concat (map getNotEnteredRecursive (fb_Blocks fb))"

section \<open>Extracting blocks from the syntax tree\<close>

definition conditionString :: "Expression option \<Rightarrow> string" where
  "conditionString expr = (case expr of None \<Rightarrow> [] | Some e \<Rightarrow> Expression_String e)"

text \<open>
  An if statement is passed to \<^verbatim>\<open>extractIfBlock\<close> by its start line, condition and
  then-branch. \<^verbatim>\<open>extractIfChain\<close> is only called on if statements.
\<close>

function (sequential) extractNestedBlocks :: "Statement list \<Rightarrow> Block list"
  and extractIfChain :: "Statement \<Rightarrow> Block list"
  and extractIfBlock :: "int \<Rightarrow> Expression option \<Rightarrow> Statement \<Rightarrow> BlockType \<Rightarrow> Block"
  and extractElseBranch :: "Statement \<Rightarrow> Block list"
where
  "extractNestedBlocks [] = []"
| "extractNestedBlocks (IfStatement s e c t el # stmts) =
     extractIfChain (IfStatement s e c t el) @ extractNestedBlocks stmts"
| "extractNestedBlocks (stmt # stmts) = extractNestedBlocks stmts"
| "extractIfChain (IfStatement s e c t el) =
     extractIfBlock s c t BlockTypeIf # (case el of None \<Rightarrow> [] | Some els \<Rightarrow> extractElseBranch els)"
| "extractIfChain stmt = []"
| "extractIfBlock s c (BlockStatement op cl body) ty =
     Block ty (conditionString c) s op cl False (extractNestedBlocks body)"
| "extractIfBlock s c stmt ty =
     Block ty (conditionString c) s (StartLine stmt) (EndLine stmt) False []"
| "extractElseBranch (IfStatement s e c t el) =
     extractIfBlock s c t BlockTypeElseIf #
     (case el of None \<Rightarrow> [] | Some els \<Rightarrow> extractElseBranch els)"
| "extractElseBranch (BlockStatement op cl body) =
     [Block BlockTypeElse [] op op cl False (extractNestedBlocks body)]"
| "extractElseBranch stmt =
     [Block BlockTypeElse [] (StartLine stmt) (StartLine stmt) (EndLine stmt) False []]"
  by pat_completeness auto
termination
  by (relation "measure (case_sum (case_sum (size_list size) size)
                  (case_sum (\<lambda>(s, c, t, ty). size t) size))") auto

definition extractSubBlock :: "int \<Rightarrow> string \<Rightarrow> (int \<times> int \<times> Statement list) option \<Rightarrow> Block" where
  "extractSubBlock startLine name body =
     (case body of
        None \<Rightarrow> Block BlockTypeSub name startLine 0 0 False []
      | Some (op, cl, stmts) \<Rightarrow>
          Block BlockTypeSub name startLine op cl False (extractNestedBlocks stmts))"

text \<open>
  \<^verbatim>\<open>AnalyzeVCL\<close>: \<open>parse\<close> is the parser, called with include resolution against the
  directory of the file.
\<close>

definition AnalyzeVCL ::
  "(string \<Rightarrow> string \<Rightarrow> ('e, Program) result) \<Rightarrow> string \<Rightarrow> string \<Rightarrow> ('e, FileBlocks) result" where
  "AnalyzeVCL parse source vclPath =
     (case parse source vclPath of Inl e \<Rightarrow> Inl e
      | Inr root \<Rightarrow>
          Inr \<lparr>fb_ConfigID = 0, fb_Filename = vclPath,
               fb_Blocks = concat (map (\<lambda>decl. case decl of
                             SubDecl l n body \<Rightarrow> [extractSubBlock l n body] | _ \<Rightarrow> [])
                           (Declarations root))\<rparr>)"

section \<open>What matching computes\<close>

text \<open>
  The specification of matching: a trace hits a block if it lies strictly between its
  braces and in none of its children; a block is reached if it or a descendant was entered
  before or is hit. \<open>markReached\<close> marks every block by this criterion, each on its own.
\<close>

definition traceHit :: "int set \<Rightarrow> Block \<Rightarrow> bool" where
  "traceHit T b \<longleftrightarrow>
     (\<exists>t \<in> T. OpenBrace b < t \<and> t < CloseBrace b \<and> (\<forall>c \<in> set (Children b). \<not> LineInBlock c t))"

definition reached :: "int set \<Rightarrow> Block \<Rightarrow> bool" where
  "reached T b \<longleftrightarrow> (\<exists>d \<in> set (AllBlocks b). Entered d \<or> traceHit T d)"

fun markReached :: "int set \<Rightarrow> Block \<Rightarrow> Block" where
  "markReached T (Block ty n h op cl e ch) =
     Block ty n h op cl (reached T (Block ty n h op cl e ch)) (map (markReached T) ch)"

lemma AllBlocks_self [simp]: "b \<in> set (AllBlocks b)"
  by (cases b) simp

lemma AllBlocks_child: "c \<in> set (Children b) \<Longrightarrow> d \<in> set (AllBlocks c) \<Longrightarrow> d \<in> set (AllBlocks b)"
  by (cases b) auto

lemma AllBlocks_cases: "d \<in> set (AllBlocks b) \<Longrightarrow> d = b \<or> (\<exists>c \<in> set (Children b). d \<in> set (AllBlocks c))"
  by (cases b) auto

lemma AllBlocks_trans: "d \<in> set (AllBlocks c) \<Longrightarrow> c \<in> set (AllBlocks b) \<Longrightarrow> d \<in> set (AllBlocks b)"
proof (induction b)
  case (Block ty n h op cl e ch)
  show ?case
  proof (cases "c = Block ty n h op cl e ch")
    case True
    with Block.prems show ?thesis by simp
  next
    case False
    with Block.prems(2) obtain b' where "b' \<in> set ch" "c \<in> set (AllBlocks b')" by auto
    with Block.IH Block.prems(1) show ?thesis by auto
  qed
qed

lemma mark_fields [simp]:
  "blk_Type (markReached T b) = blk_Type b" "blk_Name (markReached T b) = blk_Name b"
  "HeaderLine (markReached T b) = HeaderLine b" "OpenBrace (markReached T b) = OpenBrace b"
  "CloseBrace (markReached T b) = CloseBrace b" "Entered (markReached T b) = reached T b"
  "Children (markReached T b) = map (markReached T) (Children b)"
  by (cases b; simp)+

lemma LineInBlock_mark [simp]: "LineInBlock (markReached T b) line = LineInBlock b line"
  by (simp add: LineInBlock_def)

lemma traceHit_mark [simp]: "traceHit T (markReached S b) = traceHit T b"
  by (simp add: traceHit_def)

lemma traceHit_Un: "traceHit (S \<union> T) b \<longleftrightarrow> traceHit S b \<or> traceHit T b"
  by (auto simp: traceHit_def)

lemma reached_step:
  "reached T b \<longleftrightarrow> Entered b \<or> traceHit T b \<or> (\<exists>c \<in> set (Children b). reached T c)"
  by (cases b) (auto simp: reached_def)

lemma AllBlocks_mark: "AllBlocks (markReached T b) = map (markReached T) (AllBlocks b)"
proof (induction b)
  case (Block ty n h op cl e ch)
  then show ?case by (simp add: map_concat comp_def cong: map_cong)
qed

lemma reached_mark: "reached T (markReached S b) = reached (S \<union> T) b"
proof -
  have "reached T (markReached S b) \<longleftrightarrow>
        (\<exists>d \<in> set (AllBlocks b). reached S d \<or> traceHit T d)"
    by (simp add: reached_def AllBlocks_mark)
  also have "\<dots> \<longleftrightarrow> (\<exists>d \<in> set (AllBlocks b). Entered d \<or> traceHit (S \<union> T) d)"
    unfolding reached_def traceHit_Un by (meson AllBlocks_self AllBlocks_trans)
  finally show ?thesis by (simp add: reached_def)
qed

lemma markReached_mark: "markReached T (markReached S b) = markReached (S \<union> T) b"
proof (induction b)
  case (Block ty n h op cl e ch)
  have "reached T (markReached S (Block ty n h op cl e ch)) = reached (S \<union> T) (Block ty n h op cl e ch)"
    by (rule reached_mark)
  with Block.IH show ?case by simp
qed

lemma insideAnyChild_iff: "insideAnyChild ch line \<longleftrightarrow> (\<exists>c \<in> set ch. LineInBlock c line)"
  by (auto simp: insideAnyChild_def list_ex_iff LineInBlock_def)

lemma matchBlockRecursive_mark:
  "matchBlockRecursive ts b = markReached (set (mkeys ts)) b"
proof (induction b)
  case (Block ty n h op cl e ch)
  let ?b = "Block ty n h op cl e ch"
  let ?T = "set (mkeys ts)"
  have ch': "map (matchBlockRecursive ts) ch = map (markReached ?T) ch"
    using Block.IH by simp
  have inside: "insideAnyChild (map (markReached ?T) ch) line = (\<exists>c \<in> set ch. LineInBlock c line)"
    for line by (simp add: insideAnyChild_iff)
  have ent: "list_ex Entered (map (markReached ?T) ch) = (\<exists>c \<in> set ch. reached ?T c)"
    by (simp add: list_ex_iff)
  have own: "list_ex (\<lambda>line. line > op \<and> line < cl \<and>
        \<not> insideAnyChild (map (markReached ?T) ch) line) (mkeys ts) = traceHit ?T ?b"
    unfolding inside by (auto simp: list_ex_iff traceHit_def)
  have "matchBlockRecursive ts ?b =
      Block ty n h op cl (e \<or> traceHit ?T ?b \<or> (\<exists>c \<in> set ch. reached ?T c)) (map (markReached ?T) ch)"
    unfolding matchBlockRecursive.simps Let_def ch' own ent ..
  also have "(e \<or> traceHit ?T ?b \<or> (\<exists>c \<in> set ch. reached ?T c)) = reached ?T ?b"
    unfolding reached_step[of ?T ?b] by simp
  finally show ?case by simp
qed

lemma tracedSetOf_keys [simp]: "set (mkeys (tracedSetOf lines)) = set lines"
proof -
  have "set (mkeys (tracedSetOf lines)) = dom (mget (tracedSetOf lines))"
    by (rule am.keys_dom)
  also have "\<dots> = set lines"
    unfolding tracedSetOf_def using am.put_all_dom[of id "\<lambda>_. True" lines "[]"]
    by (simp add: dom_def)
  finally show ?thesis .
qed

lemma MatchTracesToBlocks_mark:
  "MatchTracesToBlocks (Some fb) lines =
     Some (fb\<lparr>fb_Blocks := map (markReached (set lines)) (fb_Blocks fb)\<rparr>)"
  by (simp add: MatchTracesToBlocks_def matchBlockRecursive_mark)

section \<open>Line status\<close>

text \<open>The children of every block lie within it; siblings do not share a line.\<close>

fun nested :: "Block \<Rightarrow> bool" where
  "nested (Block ty n h op cl e ch) \<longleftrightarrow>
     list_all (\<lambda>c. op \<le> OpenBrace c \<and> CloseBrace c \<le> cl) ch \<and> list_all nested ch"

definition disjoint_lines :: "Block \<Rightarrow> Block \<Rightarrow> bool" where
  "disjoint_lines b c \<longleftrightarrow> CloseBrace b < OpenBrace c \<or> CloseBrace c < OpenBrace b"

fun siblings_apart :: "Block list \<Rightarrow> bool" where
  "siblings_apart [] \<longleftrightarrow> True"
| "siblings_apart (b # bs) \<longleftrightarrow> list_all (disjoint_lines b) bs \<and> siblings_apart bs"

definition all_apart :: "Block \<Rightarrow> bool" where
  "all_apart b \<longleftrightarrow> list_all (\<lambda>d. siblings_apart (Children d)) (AllBlocks b)"

lemma findBlock_None: "findBlockAtLineRecursive b line = None \<longleftrightarrow> \<not> LineInBlock b line"
  by (cases b) (auto split: option.splits)

lemma disjoint_not_both: "disjoint_lines b c \<Longrightarrow> LineInBlock b line \<Longrightarrow> \<not> LineInBlock c line"
  by (auto simp: disjoint_lines_def LineInBlock_def)

lemma fill_lines:
  "mget (fold (\<lambda>line. mput line e) xs status) line = (if line \<in> set xs then Some e else mget status line)"
  by (induction xs arbitrary: status) auto

definition status_at :: "(int \<Rightarrow> Block option) \<Rightarrow> (int, bool) gomap \<Rightarrow> int \<Rightarrow> bool option" where
  "status_at f status line = (case f line of Some d \<Rightarrow> Some (Entered d) | None \<Rightarrow> mget status line)"

lemma fill_siblings:
  assumes "\<And>c st. c \<in> set cs \<Longrightarrow>
      mget (fillLineStatus c st) line = status_at (findBlockAtLineRecursive c) st line"
    and "siblings_apart cs"
  shows "mget (fold fillLineStatus cs status) line =
    status_at (\<lambda>line. firstSome (\<lambda>c. findBlockAtLineRecursive c line) cs) status line"
  using assms
proof (induction cs arbitrary: status)
  case Nil
  then show ?case by (simp add: status_at_def)
next
  case (Cons c cs)
  then have IH: "mget (fold fillLineStatus cs st) line =
      status_at (\<lambda>line. firstSome (\<lambda>c. findBlockAtLineRecursive c line) cs) st line" for st
    by simp
  have c: "mget (fillLineStatus c status) line = status_at (findBlockAtLineRecursive c) status line"
    using Cons.prems(1) by simp
  show ?case
  proof (cases "findBlockAtLineRecursive c line")
    case None
    with c have "mget (fillLineStatus c status) line = mget status line"
      by (simp add: status_at_def)
    with IH[of "fillLineStatus c status"] None show ?thesis
      by (simp add: status_at_def split: option.splits)
  next
    case (Some d)
    then have "LineInBlock c line" by (metis findBlock_None option.distinct(1))
    with Cons.prems(2) have "\<forall>c' \<in> set cs. findBlockAtLineRecursive c' line = None"
      by (auto simp: findBlock_None list_all_iff dest: disjoint_not_both)
    then have "firstSome (\<lambda>c. findBlockAtLineRecursive c line) cs = None" by (simp add: firstSome_None)
    with IH c Some show ?thesis by (simp add: status_at_def)
  qed
qed

lemma fillLineStatus_spec:
  assumes "nested b" "all_apart b"
  shows "mget (fillLineStatus b status) line = status_at (findBlockAtLineRecursive b) status line"
  using assms
proof (induction b arbitrary: status)
  case (Block ty n h op cl e ch)
  let ?b = "Block ty n h op cl e ch"
  have kids: "siblings_apart ch" "\<And>c. c \<in> set ch \<Longrightarrow> all_apart c"
    using Block.prems(2) by (auto simp: all_apart_def list_all_iff)
  have IH: "mget (fillLineStatus c st) line = status_at (findBlockAtLineRecursive c) st line"
    if "c \<in> set ch" for c st
    using Block.IH[OF that] Block.prems(1) kids(2)[OF that] that by (simp add: list_all_iff)
  have "mget (fillLineStatus ?b status) line =
      status_at (\<lambda>line. firstSome (\<lambda>c. findBlockAtLineRecursive c line) ch)
        (fold (\<lambda>line. mput line e) [op..cl] status) line"
    using fill_siblings[OF IH kids(1)] by simp
  also have "\<dots> = status_at (findBlockAtLineRecursive ?b) status line"
  proof (cases "LineInBlock ?b line")
    case True
    then show ?thesis
      by (auto simp: status_at_def fill_lines LineInBlock_def split: option.splits)
  next
    case False
    then have "\<forall>c \<in> set ch. findBlockAtLineRecursive c line = None"
      using Block.prems(1) by (fastforce simp: findBlock_None LineInBlock_def list_all_iff)
    then have "firstSome (\<lambda>c. findBlockAtLineRecursive c line) ch = None" by (simp add: firstSome_None)
    with False show ?thesis
      by (auto simp: status_at_def fill_lines LineInBlock_def)
  qed
  finally show ?case .
qed


lemma GetLineStatus_spec:
  assumes "list_all nested (fb_Blocks fb)" "list_all all_apart (fb_Blocks fb)"
    "siblings_apart (fb_Blocks fb)"
  shows "mget (GetLineStatus fb) line = map_option Entered (FindBlockAtLine fb line)"
proof -
  have "mget (fold fillLineStatus (fb_Blocks fb) []) line =
      status_at (\<lambda>line. firstSome (\<lambda>c. findBlockAtLineRecursive c line) (fb_Blocks fb)) [] line"
    using assms by (intro fill_siblings fillLineStatus_spec) (auto simp: list_all_iff)
  then show ?thesis
    by (simp add: GetLineStatus_def FindBlockAtLine_def status_at_def split: option.splits)
qed

lemma findBlock_deepest:
  "findBlockAtLineRecursive b line = Some d \<Longrightarrow>
     d \<in> set (AllBlocks b) \<and> LineInBlock d line \<and> (\<forall>c \<in> set (Children d). \<not> LineInBlock c line)"
proof (induction b arbitrary: d)
  case (Block ty n h op cl e ch)
  let ?b = "Block ty n h op cl e ch"
  from Block.prems have inb: "LineInBlock ?b line" by (auto split: if_splits)
  show ?case
  proof (cases "firstSome (\<lambda>c. findBlockAtLineRecursive c line) ch")
    case None
    with Block.prems inb have "d = ?b" by simp
    with None inb show ?thesis by (simp add: firstSome_None findBlock_None)
  next
    case (Some x)
    with Block.prems inb have "firstSome (\<lambda>c. findBlockAtLineRecursive c line) ch = Some d" by simp
    then obtain c where "c \<in> set ch" "findBlockAtLineRecursive c line = Some d"
      by (blast dest: firstSome_SomeD)
    with Block.IH show ?thesis by auto
  qed
qed

text \<open>A block of \<open>bs\<close> that contains a line while none of its children does.\<close>

definition deepestAt :: "Block list \<Rightarrow> int \<Rightarrow> Block \<Rightarrow> bool" where
  "deepestAt bs line d \<longleftrightarrow>
     (\<exists>b \<in> set bs. d \<in> set (AllBlocks b)) \<and> LineInBlock d line \<and>
     (\<forall>c \<in> set (Children d). \<not> LineInBlock c line)"

lemma deepestAt_mono: "deepestAt bs line d \<Longrightarrow> set bs \<subseteq> set cs \<Longrightarrow> deepestAt cs line d"
  by (auto simp: deepestAt_def)

definition filled :: "Block list \<Rightarrow> (int, bool) gomap \<Rightarrow> (int, bool) gomap \<Rightarrow> int \<Rightarrow> bool" where
  "filled bs st st' line \<longleftrightarrow>
     (if list_ex (\<lambda>b. LineInBlock b line) bs
      then \<exists>d. deepestAt bs line d \<and> mget st' line = Some (Entered d)
      else mget st' line = mget st line)"

lemma filled_fold:
  assumes "\<And>c st. c \<in> set cs \<Longrightarrow> filled [c] st (fillLineStatus c st) line"
  shows "filled cs st (fold fillLineStatus cs st) line"
  using assms
proof (induction cs rule: rev_induct)
  case Nil
  then show ?case by (simp add: filled_def)
next
  case (snoc c cs)
  let ?st = "fold fillLineStatus cs st"
  have IH: "filled cs st ?st line" using snoc by simp
  have c: "filled [c] ?st (fillLineStatus c ?st) line" using snoc.prems by simp
  show ?case
  proof (cases "LineInBlock c line")
    case True
    with c obtain d where "deepestAt [c] line d"
        "mget (fillLineStatus c ?st) line = Some (Entered d)"
      by (auto simp: filled_def)
    moreover from this(1) have "deepestAt (cs @ [c]) line d" by (rule deepestAt_mono) simp
    ultimately show ?thesis using True by (auto simp: filled_def)
  next
    case False
    with c have "mget (fillLineStatus c ?st) line = mget ?st line" by (simp add: filled_def)
    moreover have "deepestAt cs line d \<Longrightarrow> deepestAt (cs @ [c]) line d" for d
      by (rule deepestAt_mono) auto
    ultimately show ?thesis using IH False by (auto simp: filled_def split: if_splits)
  qed
qed

lemma filled_block: "nested b \<Longrightarrow> filled [b] st (fillLineStatus b st) line"
proof (induction b arbitrary: st)
  case (Block ty n h op cl e ch)
  let ?b = "Block ty n h op cl e ch"
  let ?st = "fold (\<lambda>line. mput line e) [op..cl] st"
  have kids: "filled ch ?st (fold fillLineStatus ch ?st) line"
    by (rule filled_fold) (use Block in \<open>auto simp: list_all_iff\<close>)
  have inside: "LineInBlock c line \<Longrightarrow> c \<in> set ch \<Longrightarrow> LineInBlock ?b line" for c
    using Block.prems by (fastforce simp: LineInBlock_def list_all_iff)
  show ?case
  proof (cases "list_ex (\<lambda>c. LineInBlock c line) ch")
    case True
    with kids obtain d where d: "deepestAt ch line d"
        "mget (fold fillLineStatus ch ?st) line = Some (Entered d)"
      by (auto simp: filled_def)
    from d(1) have "deepestAt [?b] line d" by (auto simp: deepestAt_def)
    moreover have "LineInBlock ?b line" using True inside by (auto simp: list_ex_iff)
    ultimately show ?thesis using d(2) by (auto simp: filled_def)
  next
    case False
    with kids have "mget (fillLineStatus ?b st) line = mget ?st line" by (simp add: filled_def)
    moreover have "deepestAt [?b] line ?b" if "LineInBlock ?b line"
      using that False by (auto simp: deepestAt_def list_ex_iff)
    ultimately show ?thesis
      by (auto simp: filled_def fill_lines LineInBlock_def split: if_splits)
  qed
qed

lemma line_status_filled:
  "list_all nested (fb_Blocks fb) \<Longrightarrow> filled (fb_Blocks fb) [] (GetLineStatus fb) line"
  unfolding GetLineStatus_def
  by (rule filled_fold) (auto simp: list_all_iff intro: filled_block)

text \<open>
  The blocks around a line at every depth, parents before their children, and the status the
  line gets from them. Nothing is assumed of the positions of the blocks.
\<close>

definition blocksAround :: "Block list \<Rightarrow> int \<Rightarrow> Block list" where
  "blocksAround bs line = filter (\<lambda>d. LineInBlock d line) (concat (map AllBlocks bs))"

lemma blocksAround_simps [simp]:
  "blocksAround [] line = []"
  "blocksAround (b # c # cs) line = blocksAround [b] line @ blocksAround (c # cs) line"
  "blocksAround [Block ty n h op cl e ch] line =
     (if LineInBlock (Block ty n h op cl e ch) line then [Block ty n h op cl e ch] else []) @ blocksAround ch line"
  by (simp_all add: blocksAround_def)

lemma blocksAround_append [simp]: "blocksAround (as @ bs) line = blocksAround as line @ blocksAround bs line"
  by (simp add: blocksAround_def)

definition status_around :: "Block list \<Rightarrow> (int, bool) gomap \<Rightarrow> int \<Rightarrow> bool option" where
  "status_around bs st line =
     (if blocksAround bs line = [] then mget st line else Some (Entered (last (blocksAround bs line))))"

lemma fold_around:
  assumes "\<And>c st. c \<in> set cs \<Longrightarrow> mget (fillLineStatus c st) line = status_around [c] st line"
  shows "mget (fold fillLineStatus cs st) line = status_around cs st line"
  using assms
proof (induction cs rule: rev_induct)
  case (snoc c cs)
  have "mget (fold fillLineStatus cs st) line = status_around cs st line" using snoc by simp
  moreover have "mget (fillLineStatus c (fold fillLineStatus cs st)) line = status_around [c] (fold fillLineStatus cs st) line"
    using snoc.prems by simp
  ultimately show ?case by (simp add: status_around_def)
qed (simp add: status_around_def)

lemma fill_around: "mget (fillLineStatus b st) line = status_around [b] st line"
proof (induction b arbitrary: st)
  case (Block ty n h op cl e ch)
  let ?st = "fold (\<lambda>line. mput line e) [op..cl] st"
  have "mget (fold fillLineStatus ch ?st) line = status_around ch ?st line"
    by (rule fold_around) (rule Block.IH)
  then show ?case by (simp add: status_around_def fill_lines LineInBlock_def)
qed

lemma line_status_around: "mget (GetLineStatus fb) line = status_around (fb_Blocks fb) [] line"
  unfolding GetLineStatus_def by (rule fold_around) (rule fill_around)

text \<open>The last of the blocks around a line is an innermost one.\<close>

lemma last_around_step:
  assumes "\<And>c. c \<in> set cs \<Longrightarrow> blocksAround [c] line \<noteq> [] \<Longrightarrow> deepestAt [c] line (last (blocksAround [c] line))"
    and "blocksAround cs line \<noteq> []"
  shows "deepestAt cs line (last (blocksAround cs line))"
  using assms
proof (induction cs rule: rev_induct)
  case (snoc c cs)
  show ?case
  proof (cases "blocksAround [c] line = []")
    case True
    then have "blocksAround cs line \<noteq> []" using snoc.prems(2) by simp
    from snoc.IH[OF snoc.prems(1) this] True show ?thesis
      by (auto intro: deepestAt_mono)
  next
    case False
    with snoc.prems(1)[of c] show ?thesis
      by (auto intro: deepestAt_mono)
  qed
qed simp

lemma last_around_block: "blocksAround [b] line \<noteq> [] \<Longrightarrow> deepestAt [b] line (last (blocksAround [b] line))"
proof (induction b)
  case (Block ty n h op cl e ch)
  let ?b = "Block ty n h op cl e ch"
  show ?case
  proof (cases "blocksAround ch line = []")
    case True
    then have "\<not> LineInBlock c line" if "c \<in> set ch" for c
      using that by (fastforce simp: blocksAround_def filter_empty_conv)
    with True Block.prems show ?thesis by (auto simp: deepestAt_def split: if_splits)
  next
    case False
    have "deepestAt ch line (last (blocksAround ch line))" by (rule last_around_step[OF Block.IH False])
    with False show ?thesis by (auto simp: deepestAt_def)
  qed
qed

lemma last_around_deepest: "blocksAround bs line \<noteq> [] \<Longrightarrow> deepestAt bs line (last (blocksAround bs line))"
  by (rule last_around_step[OF last_around_block])

lemma blocksAround_mark: "blocksAround (map (markReached T) bs) line = map (markReached T) (blocksAround bs line)"
  by (induction bs) (simp_all add: blocksAround_def AllBlocks_mark filter_map comp_def)

lemma AllBlocks_partition:
  "mset (getEnteredRecursive b) + mset (getNotEnteredRecursive b) = mset (AllBlocks b)"
proof (induction b)
  case (Block ty n h op cl e ch)
  have "mset (concat (map getEnteredRecursive ch)) + mset (concat (map getNotEnteredRecursive ch))
      = mset (concat (map AllBlocks ch))"
    using Block
  proof (induction ch)
    case (Cons c cs)
    from Cons.prems[of c] Cons.IH Cons.prems show ?case by (simp add: union_assoc union_lcomm)
  qed simp
  then show ?case by (simp add: union_assoc)
qed

lemma getEntered_set: "set (getEnteredRecursive b) = {d \<in> set (AllBlocks b). Entered d}"
  by (induction b) auto

lemma getNotEntered_set: "set (getNotEnteredRecursive b) = {d \<in> set (AllBlocks b). \<not> Entered d}"
  by (induction b) auto

section \<open>The extracted blocks\<close>

text \<open>
  What the parser documents of positions: a nested statement lies within the lines of the
  statement that contains it.
\<close>

fun positioned :: "Statement \<Rightarrow> bool" where
  "positioned (BlockStatement s e body) \<longleftrightarrow>
     list_all (\<lambda>st. s \<le> StartLine st \<and> EndLine st \<le> e \<and> positioned st) body"
| "positioned (IfStatement s e c t el) \<longleftrightarrow>
     s \<le> StartLine t \<and> EndLine t \<le> e \<and> positioned t \<and>
     (case el of None \<Rightarrow> True
      | Some els \<Rightarrow> s \<le> StartLine els \<and> EndLine els \<le> e \<and> positioned els)"
| "positioned (LeafStatement s e) \<longleftrightarrow> True"

definition positioned_decl :: "Declaration \<Rightarrow> bool" where
  "positioned_decl decl \<longleftrightarrow>
     (case decl of SubDecl l n (Some (op, cl, stmts)) \<Rightarrow> positioned (BlockStatement op cl stmts)
      | _ \<Rightarrow> True)"

definition within :: "int \<Rightarrow> int \<Rightarrow> Block \<Rightarrow> bool" where
  "within lo hi b \<longleftrightarrow> lo \<le> OpenBrace b \<and> CloseBrace b \<le> hi \<and> nested b"

lemma within_mono: "within lo hi b \<Longrightarrow> lo' \<le> lo \<Longrightarrow> hi \<le> hi' \<Longrightarrow> within lo' hi' b"
  by (auto simp: within_def)

lemma nested_iff: "nested (Block ty n h op cl e ch) \<longleftrightarrow> list_all (within op cl) ch"
  by (induction ch) (auto simp: within_def)

lemma extract_within:
  "list_all (\<lambda>st. lo \<le> StartLine st \<and> EndLine st \<le> hi \<and> positioned st) stmts \<Longrightarrow>
     list_all (within lo hi) (extractNestedBlocks stmts)"
  "positioned stmt \<Longrightarrow> list_all (within (StartLine stmt) (EndLine stmt)) (extractIfChain stmt)"
  "positioned t \<Longrightarrow> within (StartLine t) (EndLine t) (extractIfBlock s c t ty)"
  "positioned els \<Longrightarrow> list_all (within (StartLine els) (EndLine els)) (extractElseBranch els)"
proof (induction stmts and stmt and s c t ty and els arbitrary: lo hi and and and
    rule: extractNestedBlocks_extractIfChain_extractIfBlock_extractElseBranch.induct)
  case (2 s e c t el stmts)
  then have "list_all (within s e) (extractIfChain (IfStatement s e c t el))"
    "lo \<le> s" "e \<le> hi" by auto
  with 2 show ?case by (auto simp: list_all_iff intro: within_mono)
next
  case (4 s e c t el)
  then show ?case
    by (auto simp: list_all_iff intro: within_mono split: option.splits)
next
  case (8 s e c t el)
  then show ?case
    by (auto simp: list_all_iff intro: within_mono split: option.splits)
qed (auto simp: within_def nested_iff simp del: nested.simps)

lemma extract_fresh:
  "b \<in> set (extractNestedBlocks stmts) \<Longrightarrow> d \<in> set (AllBlocks b) \<Longrightarrow> \<not> Entered d"
  "b \<in> set (extractIfChain stmt) \<Longrightarrow> d \<in> set (AllBlocks b) \<Longrightarrow> \<not> Entered d"
  "d \<in> set (AllBlocks (extractIfBlock s c t ty)) \<Longrightarrow> \<not> Entered d"
  "b \<in> set (extractElseBranch els) \<Longrightarrow> d \<in> set (AllBlocks b) \<Longrightarrow> \<not> Entered d"
  by (induction stmts and stmt and s c t ty and els arbitrary: b d and b d and d and b d
      rule: extractNestedBlocks_extractIfChain_extractIfBlock_extractElseBranch.induct)
     (auto split: option.splits)

lemma extractSubBlock_fresh: "d \<in> set (AllBlocks (extractSubBlock l n body)) \<Longrightarrow> \<not> Entered d"
  using extract_fresh(1) by (auto simp: extractSubBlock_def split: option.splits)

lemma extractSubBlock_nested:
  "positioned_decl (SubDecl l n body) \<Longrightarrow> nested (extractSubBlock l n body)"
  using extract_within(1)
  by (auto simp: positioned_decl_def extractSubBlock_def nested_iff simp del: nested.simps
      split: option.splits)

lemma AnalyzeVCL_fresh:
  assumes "AnalyzeVCL parse src path = Inr fb"
  shows "\<forall>b \<in> set (fb_Blocks fb). \<forall>d \<in> set (AllBlocks b). \<not> Entered d"
  using assms extractSubBlock_fresh by (auto simp: AnalyzeVCL_def split: sum.splits Declaration.splits)

lemma AnalyzeVCL_nested:
  assumes "AnalyzeVCL parse src path = Inr fb" "parse src path = Inr root" "list_all positioned_decl (Declarations root)"
  shows "list_all nested (fb_Blocks fb)"
  using assms extractSubBlock_nested by (auto simp: AnalyzeVCL_def list_all_iff split: Declaration.splits)

lemma nested_mark: "nested (markReached T b) = nested b"
proof (induction b)
  case (Block ty n h op cl e ch)
  then show ?case by (auto simp: list_all_iff simp del: mark_fields(6))
qed

section \<open>Properties\<close>

text \<open>
  A parsed file with one subroutine, an if/else whose branches share a line, and a one-line
  block.
\<close>

definition sample_program :: Program where
  "sample_program = \<lparr>VCLVersion = Some ''4.1'', Declarations = [
     OtherDecl ''import std'',
     SubDecl 3 ''vcl_recv'' (Some (3, 12,
       [LeafStatement 4 4,
        IfStatement 5 9 None (BlockStatement 5 7 [LeafStatement 6 6])
          (Some (BlockStatement 7 9 [LeafStatement 8 8])),
        IfStatement 10 10 None (BlockStatement 10 10 [LeafStatement 10 10]) None,
        LeafStatement 11 11]))]\<rparr>"

definition sample_blocks :: "Block list" where
  "sample_blocks =
     [Block BlockTypeSub ''vcl_recv'' 3 3 12 False
        [Block BlockTypeIf [] 5 5 7 False [], Block BlockTypeElse [] 7 7 9 False [],
         Block BlockTypeIf [] 10 10 10 False []]]"

lemma sample_analyzed:
  "AnalyzeVCL (\<lambda>s p. Inr sample_program) ''src'' ''main.vcl'' =
     Inr \<lparr>fb_ConfigID = 0, fb_Filename = ''main.vcl'', fb_Blocks = sample_blocks\<rparr>"
  by (simp add: AnalyzeVCL_def sample_program_def sample_blocks_def extractSubBlock_def
      conditionString_def)

text \<open>
  C5. Matching the executed lines against a file's blocks marks exactly the blocks
  that were entered before or that contain, themselves or in a descendant, an executed line
  strictly between their braces and outside their own children; positions, names and
  nesting are unchanged.
\<close>

theorem match_traces_correct:
  "MatchTracesToBlocks (Some fb) lines =
     Some (fb\<lparr>fb_Blocks := map (markReached (set lines)) (fb_Blocks fb)\<rparr>)"
  by (rule MatchTracesToBlocks_mark)

text \<open>
  Coverage accumulates: matching the traces of one test and then those of
  another gives the blocks that matching both together gives, whatever their order and
  repetitions; and an entered block's ancestors are entered.
\<close>

lemma match_traces_accumulate:
  "MatchTracesToBlocks (MatchTracesToBlocks fb ls) ls' = MatchTracesToBlocks fb (ls @ ls') \<and>
   (set ls = set ls' \<longrightarrow> MatchTracesToBlocks fb ls = MatchTracesToBlocks fb ls') \<and>
   (\<forall>fb'. MatchTracesToBlocks fb ls = Some fb' \<longrightarrow>
      (\<forall>b \<in> set (fb_Blocks fb'). \<forall>d \<in> set (AllBlocks b). Entered d \<longrightarrow> Entered b))"
proof (cases fb)
  case None
  then show ?thesis by (simp add: MatchTracesToBlocks_def)
next
  case (Some f)
  have up: "reached T d \<Longrightarrow> d \<in> set (AllBlocks b) \<Longrightarrow> reached T b" for T d b
    unfolding reached_def by (meson AllBlocks_trans)
  show ?thesis
    unfolding Some MatchTracesToBlocks_mark
    by (auto simp: markReached_mark Un_commute AllBlocks_mark dest: up)
qed

text \<open>
  The line status of a well-nested file: a line has a status iff some block
  contains it, and the status is the \<^verbatim>\<open>Entered\<close> flag of a deepest block containing it.
  When no two siblings share a line it is the block that \<^verbatim>\<open>FindBlockAtLine\<close> returns.
\<close>

lemma line_status_deepest:
  assumes "list_all nested (fb_Blocks fb)"
  shows "(mget (GetLineStatus fb) line = None \<longleftrightarrow> FindBlockAtLine fb line = None) \<and>
    (\<forall>v. mget (GetLineStatus fb) line = Some v \<longrightarrow>
       (\<exists>d. deepestAt (fb_Blocks fb) line d \<and> Entered d = v)) \<and>
    (\<forall>d. FindBlockAtLine fb line = Some d \<longrightarrow> deepestAt (fb_Blocks fb) line d) \<and>
    (list_all all_apart (fb_Blocks fb) \<and> siblings_apart (fb_Blocks fb) \<longrightarrow>
       mget (GetLineStatus fb) line = map_option Entered (FindBlockAtLine fb line))"
proof (intro conjI)
  note fill = line_status_filled[OF assms, of line]
  show "mget (GetLineStatus fb) line = None \<longleftrightarrow> FindBlockAtLine fb line = None"
    using fill by (auto simp: filled_def FindBlockAtLine_def firstSome_None findBlock_None
        list_ex_iff split: if_splits)
  show "\<forall>v. mget (GetLineStatus fb) line = Some v \<longrightarrow>
      (\<exists>d. deepestAt (fb_Blocks fb) line d \<and> Entered d = v)"
    using fill by (auto simp: filled_def split: if_splits)
  show "\<forall>d. FindBlockAtLine fb line = Some d \<longrightarrow> deepestAt (fb_Blocks fb) line d"
    unfolding FindBlockAtLine_def deepestAt_def
    by (auto dest!: firstSome_SomeD dest: findBlock_deepest)
  show "list_all all_apart (fb_Blocks fb) \<and> siblings_apart (fb_Blocks fb) \<longrightarrow>
      mget (GetLineStatus fb) line = map_option Entered (FindBlockAtLine fb line)"
    using assms GetLineStatus_spec by blast
qed

text \<open>
  \<^verbatim>\<open>GetEnteredBlocks\<close> and \<^verbatim>\<open>GetNotEnteredBlocks\<close> split the blocks of a file in
  two: together they list every block exactly as often as \<^verbatim>\<open>AllBlocks\<close> does, the first
  only entered blocks and the second only the others.
\<close>

lemma entered_blocks_partition:
  "mset (GetEnteredBlocks fb) + mset (GetNotEnteredBlocks fb) =
     mset (concat (map AllBlocks (fb_Blocks fb))) \<and>
   list_all Entered (GetEnteredBlocks fb) \<and> list_all (\<lambda>b. \<not> Entered b) (GetNotEnteredBlocks fb)"
proof (intro conjI)
  show "mset (GetEnteredBlocks fb) + mset (GetNotEnteredBlocks fb) =
     mset (concat (map AllBlocks (fb_Blocks fb)))"
    unfolding GetEnteredBlocks_def GetNotEnteredBlocks_def
  proof (induction "fb_Blocks fb" arbitrary: fb)
    case (Cons b bs)
    have "mset (concat (map getEnteredRecursive bs)) + mset (concat (map getNotEnteredRecursive bs))
        = mset (concat (map AllBlocks bs))"
      using Cons(1)[of "fb\<lparr>fb_Blocks := bs\<rparr>"] by simp
    then show ?case
      unfolding Cons(2)[symmetric] using AllBlocks_partition[of b]
      by (simp add: union_assoc union_lcomm flip: Cons(2))
  qed simp
qed (auto simp: GetEnteredBlocks_def GetNotEnteredBlocks_def list_all_iff
    getEntered_set getNotEntered_set)

text \<open>
  C35. Analysing any file that parses: one top-level block per subroutine declaration, in
  order and with its name; every block is initially not entered; and after matching, every block
  at every depth is entered iff an executed line hits it or one of its descendants (lies strictly
  between its braces and in none of its children). Blocks lie within their parents when the
  statements lie within the bodies that hold them; the parser does not promise that for a
  subroutine it has merged from several declarations, and nothing else here needs it.
\<close>

theorem analyzed_file_coverage:
  assumes "parse src path = Inr root"
  shows "\<exists>fb fb'. AnalyzeVCL parse src path = Inr fb \<and>
    map blk_Name (fb_Blocks fb) =
      concat (map (\<lambda>d. case d of SubDecl l n b \<Rightarrow> [n] | _ \<Rightarrow> []) (Declarations root)) \<and>
    list_all (\<lambda>d. \<not> Entered d) (concat (map AllBlocks (fb_Blocks fb))) \<and>
    MatchTracesToBlocks (Some fb) lines = Some fb' \<and>
    map Entered (concat (map AllBlocks (fb_Blocks fb'))) =
      map (\<lambda>b. \<exists>d \<in> set (AllBlocks b). traceHit (set lines) d) (concat (map AllBlocks (fb_Blocks fb))) \<and>
    (list_all positioned_decl (Declarations root) \<longrightarrow> list_all nested (fb_Blocks fb))"
proof -
  let ?subs = "\<lambda>decl. case decl of SubDecl l n body \<Rightarrow> [extractSubBlock l n body] | _ \<Rightarrow> []"
  let ?bs = "concat (map ?subs (Declarations root))"
  have an: "AnalyzeVCL parse src path = Inr \<lparr>fb_ConfigID = 0, fb_Filename = path, fb_Blocks = ?bs\<rparr>"
    using assms(1) by (simp add: AnalyzeVCL_def)
  have "blk_Name (extractSubBlock l n body) = n" for l n body
    by (auto simp: extractSubBlock_def split: option.splits)
  then have names: "map blk_Name ?bs =
      concat (map (\<lambda>d. case d of SubDecl l n b \<Rightarrow> [n] | _ \<Rightarrow> []) (Declarations root))"
    by (auto simp: map_concat comp_def intro!: arg_cong[of _ _ concat] split: Declaration.split)
  have fresh: "\<not> Entered d" if "b \<in> set ?bs" "d \<in> set (AllBlocks b)" for b d
    using AnalyzeVCL_fresh[OF an] that by auto
  have all: "map Entered (AllBlocks (markReached (set lines) b)) =
      map (\<lambda>b. \<exists>d \<in> set (AllBlocks b). traceHit (set lines) d) (AllBlocks b)" if b: "b \<in> set ?bs" for b
    unfolding AllBlocks_mark
    by (auto simp: reached_def dest: fresh[OF b] AllBlocks_trans)
  have "map Entered (concat (map AllBlocks (map (markReached (set lines)) bs))) =
      map (\<lambda>b. \<exists>d \<in> set (AllBlocks b). traceHit (set lines) d) (concat (map AllBlocks bs))"
    if "set bs \<subseteq> set ?bs" for bs
    using that
  proof (induction bs)
    case (Cons b bs)
    then show ?case using all[of b] by (simp del: set_concat)
  qed simp
  from this[OF subset_refl] have "map Entered (concat (map AllBlocks (map (markReached (set lines)) ?bs))) =
      map (\<lambda>b. \<exists>d \<in> set (AllBlocks b). traceHit (set lines) d) (concat (map AllBlocks ?bs))" .
  moreover have "list_all (\<lambda>d. \<not> Entered d) (concat (map AllBlocks ?bs))"
    unfolding list_all_iff set_concat[of "map AllBlocks ?bs"] set_map[of AllBlocks] using fresh by blast
  moreover have "list_all positioned_decl (Declarations root) \<longrightarrow> list_all nested ?bs"
    using AnalyzeVCL_nested[OF an assms] by simp
  ultimately show ?thesis using an names by (simp add: MatchTracesToBlocks_mark)
qed

theorem analyzed_file_coverage_witness:
  "\<exists>fb'. MatchTracesToBlocks
       (Some \<lparr>fb_ConfigID = 0, fb_Filename = ''main.vcl'', fb_Blocks = sample_blocks\<rparr>) [4, 8] = Some fb' \<and>
     map Entered (concat (map AllBlocks (fb_Blocks fb'))) =
       map (\<lambda>b. \<exists>d \<in> set (AllBlocks b). traceHit {4, 8} d) (concat (map AllBlocks sample_blocks))"
proof -
  obtain fb fb' where an: "AnalyzeVCL (\<lambda>s p. Inr sample_program) ''src'' ''main.vcl'' = Inr fb"
    and m: "MatchTracesToBlocks (Some fb) [4, 8] = Some fb'"
    and e: "map Entered (concat (map AllBlocks (fb_Blocks fb'))) =
        map (\<lambda>b. \<exists>d \<in> set (AllBlocks b). traceHit (set [4, 8]) d) (concat (map AllBlocks (fb_Blocks fb)))"
    using analyzed_file_coverage[where parse = "\<lambda>s p. Inr sample_program" and src = "''src''"
        and path = "''main.vcl''" and root = sample_program and lines = "[4, 8]", OF refl]
    by (elim exE conjE) (rule that)
  have "fb = \<lparr>fb_ConfigID = 0, fb_Filename = ''main.vcl'', fb_Blocks = sample_blocks\<rparr>"
    using an by (simp add: sample_analyzed)
  with m e show ?thesis by auto
qed

end
