(* ===== verification/Assertion.thy ===== *)
theory Assertion
  imports HttpClient
begin

text \<open>
  Package \<^verbatim>\<open>assertion\<close> (\<^verbatim>\<open>assertion.go\<close>): checking a response, the backend call counts
  and the cookie jar against the expectations of a test. An error message is a value with
  one constructor per format string and the arguments of the format.
\<close>

datatype AssertError =
    StatusMismatch int int
  | HeaderMismatch string string string
  | BodyLacks string string
  | BackendNotCalled string string
  | TotalCallsMismatch int int
  | BackendCallsMismatch string int int
  | CacheHitMismatch bool bool string string
  | AgeMissing
  | AgeNotNumber string
  | AgeNotGreater int int
  | AgeNotLess int int
  | NoCookieJar
  | NoRequestURL
  | CookieMissing string
  | CookieMismatch string string string

record AssertResult =
  ar_Passed :: bool
  ar_Errors :: "AssertError list"

text \<open>The two assignments of every failing check.\<close>

definition fail :: "AssertError \<Rightarrow> AssertResult \<Rightarrow> AssertResult" where
  "fail err result = result\<lparr>ar_Passed := False, ar_Errors := ar_Errors result @ [err]\<rparr>"

definition truncateBody :: "string \<Rightarrow> nat \<Rightarrow> string" where
  "truncateBody body maxLen =
     (if body = [] then ''(empty)''
      else if length body \<le> maxLen then [quote_char] @ body @ [quote_char]
      else [quote_char] @ take maxLen body @ [quote_char] @ ''... (truncated, '' @
           Itoa (int (length body)) @ '' bytes total)'')"

definition formatBackendCalls :: "(string, int) gomap \<Rightarrow> string" where
  "formatBackendCalls calls =
     (if length calls = 0 then ''(none)''
      else let parts = map (\<lambda>(name, count). name @ ''='' @ Itoa count)
                         (filter (\<lambda>(name, count). count > 0) calls)
           in if length parts = 0 then ''(none)'' else Join parts '', '')"

section \<open>The checks\<close>

definition checkResponseExpectations ::
  "ResponseExpectations \<Rightarrow> Response \<Rightarrow> AssertResult \<Rightarrow> AssertResult" where
  "checkResponseExpectations exp response r0 =
     (let r1 = (if resp_Status response \<noteq> exp_Status exp
                then fail (StatusMismatch (exp_Status exp) (resp_Status response)) r0 else r0);
          r2 = fold (\<lambda>(key, expectedValue) r.
                 let actualValue = HeaderGet (resp_Headers response) key in
                 if actualValue \<noteq> expectedValue
                 then fail (HeaderMismatch key expectedValue actualValue) r else r)
               (exp_Headers exp) r1
      in if exp_BodyContains exp \<noteq> [] \<and> \<not> Contains (resp_Body response) (exp_BodyContains exp)
         then fail (BodyLacks (exp_BodyContains exp) (truncateBody (resp_Body response) 500)) r2
         else r2)"

definition wasCalled :: "(string, int) gomap \<Rightarrow> string \<Rightarrow> bool" where
  "wasCalled backendCalls name \<longleftrightarrow>
     (case mget backendCalls name of None \<Rightarrow> False | Some calls \<Rightarrow> calls \<noteq> 0)"

definition totalCallsOf :: "(string, int) gomap \<Rightarrow> int" where
  "totalCallsOf backendCalls = fold (\<lambda>(name, count) t. wrap64 (t + count)) backendCalls 0"

definition checkBackendExpectations ::
  "BackendExpectations \<Rightarrow> (string, int) gomap \<Rightarrow> AssertResult \<Rightarrow> AssertResult" where
  "checkBackendExpectations exp backendCalls r0 =
     (if be_Name exp \<noteq> [] then
        if \<not> wasCalled backendCalls (be_Name exp)
        then fail (BackendNotCalled (be_Name exp) (formatBackendCalls backendCalls)) r0
        else r0
      else
        let r1 = (if be_Used exp \<noteq> [] \<and> \<not> wasCalled backendCalls (be_Used exp)
                  then fail (BackendNotCalled (be_Used exp) (formatBackendCalls backendCalls)) r0
                  else r0);
            r2 = (case be_Calls exp of
                    None \<Rightarrow> r1
                  | Some n \<Rightarrow>
                      let totalCalls = totalCallsOf backendCalls in
                      if totalCalls \<noteq> n then fail (TotalCallsMismatch n totalCalls) r1 else r1)
        in fold (\<lambda>(backendName, expectation) r.
             let actualCalls = mget_or 0 backendCalls backendName in
             if actualCalls \<noteq> bce_Calls expectation
             then fail (BackendCallsMismatch backendName (bce_Calls expectation) actualCalls) r else r)
           (be_PerBackend exp) r2)"

definition checkIfCached :: "Response \<Rightarrow> bool" where
  "checkIfCached response =
     (let xVarnish = HeaderGet (resp_Headers response) ''X-Varnish'' in
      if xVarnish \<noteq> [] \<and> length (Fields xVarnish) = 2 then True
      else
        let ageStr = HeaderGet (resp_Headers response) ''Age'' in
        if ageStr \<noteq> [] then (case Atoi ageStr of None \<Rightarrow> False | Some age \<Rightarrow> age > 0)
        else False)"

definition checkCacheExpectations ::
  "CacheExpectations \<Rightarrow> Response \<Rightarrow> AssertResult \<Rightarrow> AssertResult" where
  "checkCacheExpectations exp response r0 =
     (let r1 = (case ce_Hit exp of
                  None \<Rightarrow> r0
                | Some hit \<Rightarrow>
                    let isCached = checkIfCached response in
                    if isCached \<noteq> hit
                    then fail (CacheHitMismatch hit isCached
                           (HeaderGet (resp_Headers response) ''X-Varnish'')
                           (HeaderGet (resp_Headers response) ''Age'')) r0
                    else r0)
      in if ce_AgeGt exp \<noteq> None \<or> ce_AgeLt exp \<noteq> None then
           let ageStr = HeaderGet (resp_Headers response) ''Age'' in
           if ageStr = [] then fail AgeMissing r1
           else (case Atoi ageStr of
                   None \<Rightarrow> fail (AgeNotNumber ageStr) r1
                 | Some age \<Rightarrow>
                     let r2 = (case ce_AgeGt exp of
                                 None \<Rightarrow> r1
                               | Some g \<Rightarrow> if age \<le> g then fail (AgeNotGreater g age) r1 else r1)
                     in case ce_AgeLt exp of
                          None \<Rightarrow> r2
                        | Some l \<Rightarrow> if age \<ge> l then fail (AgeNotLess l age) r2 else r2)
         else r1)"

text \<open>
  A cookie jar is the function from a URL to the cookies (name and value) it would send.
\<close>

type_synonym 'u CookieJar = "'u \<Rightarrow> (string \<times> string) list"

definition checkCookieExpectations ::
  "(string, string) gomap \<Rightarrow> 'u CookieJar option \<Rightarrow> 'u option \<Rightarrow> AssertResult \<Rightarrow> AssertResult" where
  "checkCookieExpectations expected jar requestURL r0 =
     (case jar of None \<Rightarrow> fail NoCookieJar r0
      | Some j \<Rightarrow>
          (case requestURL of None \<Rightarrow> fail NoRequestURL r0
           | Some u \<Rightarrow>
               let jarMap = fold (\<lambda>(name, value). mput name value) (j u) [] in
               fold (\<lambda>(name, expectedValue) r.
                 case mget jarMap name of
                   None \<Rightarrow> fail (CookieMissing name) r
                 | Some actualValue \<Rightarrow>
                     if actualValue \<noteq> expectedValue
                     then fail (CookieMismatch name expectedValue actualValue) r else r)
               expected r0))"

definition Check ::
  "ExpectationsSpec \<Rightarrow> Response \<Rightarrow> (string, int) gomap \<Rightarrow> 'u CookieJar option \<Rightarrow> 'u option \<Rightarrow>
   AssertResult" where
  "Check expectations response backendCalls cookieJar requestURL =
     (let r0 = \<lparr>ar_Passed = True, ar_Errors = []\<rparr>;
          r1 = checkResponseExpectations (es_Response expectations) response r0;
          r2 = (case es_Backend expectations of None \<Rightarrow> r1
                | Some b \<Rightarrow> checkBackendExpectations b backendCalls r1);
          r3 = (case es_Cache expectations of None \<Rightarrow> r2
                | Some c \<Rightarrow> checkCacheExpectations c response r2)
      in if length (es_Cookies expectations) > 0
         then checkCookieExpectations (es_Cookies expectations) cookieJar requestURL r3 else r3)"

section \<open>Every check appends its errors\<close>

definition addErrors :: "AssertError list \<Rightarrow> AssertResult \<Rightarrow> AssertResult" where
  "addErrors errs r = r\<lparr>ar_Passed := (ar_Passed r \<and> errs = []), ar_Errors := ar_Errors r @ errs\<rparr>"

lemma addErrors_Nil [simp]: "addErrors [] r = r"
  by (simp add: addErrors_def)

lemma addErrors_twice [simp]: "addErrors ys (addErrors xs r) = addErrors (xs @ ys) r"
  by (auto simp: addErrors_def)

lemma fail_add: "fail err r = addErrors [err] r"
  by (simp add: addErrors_def fail_def)

lemma fold_addErrors: "fold (\<lambda>x. addErrors (f x)) xs r = addErrors (concat (map f xs)) r"
  by (induction xs arbitrary: r) auto

lemma if_addErrors: "(if b then addErrors xs r else r) = addErrors (if b then xs else []) r"
  by simp

definition headerErrors :: "Header \<Rightarrow> string \<times> string \<Rightarrow> AssertError list" where
  "headerErrors h = (\<lambda>(key, v). if HeaderGet h key \<noteq> v then [HeaderMismatch key v (HeaderGet h key)] else [])"

definition responseErrors :: "ResponseExpectations \<Rightarrow> Response \<Rightarrow> AssertError list" where
  "responseErrors exp response =
     (if resp_Status response \<noteq> exp_Status exp
      then [StatusMismatch (exp_Status exp) (resp_Status response)] else []) @
     concat (map (headerErrors (resp_Headers response)) (exp_Headers exp)) @
     (if exp_BodyContains exp \<noteq> [] \<and> \<not> Contains (resp_Body response) (exp_BodyContains exp)
      then [BodyLacks (exp_BodyContains exp) (truncateBody (resp_Body response) 500)] else [])"

lemma checkResponse_adds:
  "checkResponseExpectations exp response r = addErrors (responseErrors exp response) r"
proof -
  have "(\<lambda>(key, expectedValue) r.
          let actualValue = HeaderGet (resp_Headers response) key in
          if actualValue \<noteq> expectedValue then addErrors [HeaderMismatch key expectedValue actualValue] r else r)
      = (\<lambda>x. addErrors (headerErrors (resp_Headers response) x))"
    by (auto simp: headerErrors_def fun_eq_iff Let_def)
  then show ?thesis
    unfolding checkResponseExpectations_def fail_add
    by (simp add: Let_def fold_addErrors if_addErrors responseErrors_def)
qed

definition callErrors ::
  "(string, int) gomap \<Rightarrow> string \<times> BackendCallExpectation \<Rightarrow> AssertError list" where
  "callErrors calls = (\<lambda>(name, e). if mget_or 0 calls name \<noteq> bce_Calls e
     then [BackendCallsMismatch name (bce_Calls e) (mget_or 0 calls name)] else [])"

definition notCalledErrors :: "(string, int) gomap \<Rightarrow> string \<Rightarrow> AssertError list" where
  "notCalledErrors calls name =
     (if name \<noteq> [] \<and> \<not> wasCalled calls name
      then [BackendNotCalled name (formatBackendCalls calls)] else [])"

definition totalErrors :: "(string, int) gomap \<Rightarrow> int option \<Rightarrow> AssertError list" where
  "totalErrors calls n = (case n of None \<Rightarrow> []
     | Some n \<Rightarrow> if totalCallsOf calls \<noteq> n then [TotalCallsMismatch n (totalCallsOf calls)] else [])"

definition backendErrors :: "BackendExpectations \<Rightarrow> (string, int) gomap \<Rightarrow> AssertError list" where
  "backendErrors exp calls =
     (if be_Name exp \<noteq> [] then notCalledErrors calls (be_Name exp)
      else notCalledErrors calls (be_Used exp) @ totalErrors calls (be_Calls exp) @
           concat (map (callErrors calls) (be_PerBackend exp)))"

lemma checkBackend_adds:
  "checkBackendExpectations exp calls r = addErrors (backendErrors exp calls) r"
proof -
  have "(\<lambda>(backendName, expectation) r.
          let actualCalls = mget_or 0 calls backendName in
          if actualCalls \<noteq> bce_Calls expectation
          then addErrors [BackendCallsMismatch backendName (bce_Calls expectation) actualCalls] r else r)
      = (\<lambda>x. addErrors (callErrors calls x))"
    by (auto simp: callErrors_def fun_eq_iff Let_def)
  then show ?thesis
    unfolding checkBackendExpectations_def fail_add
    by (simp add: Let_def fold_addErrors if_addErrors backendErrors_def notCalledErrors_def
        totalErrors_def split: option.split)
qed

definition hitErrors :: "Response \<Rightarrow> bool option \<Rightarrow> AssertError list" where
  "hitErrors response hit = (case hit of None \<Rightarrow> []
     | Some hit \<Rightarrow> if checkIfCached response \<noteq> hit
         then [CacheHitMismatch hit (checkIfCached response)
                (HeaderGet (resp_Headers response) ''X-Varnish'')
                (HeaderGet (resp_Headers response) ''Age'')] else [])"

definition ageErrors :: "Response \<Rightarrow> int option \<Rightarrow> int option \<Rightarrow> AssertError list" where
  "ageErrors response gt lt =
     (let ageStr = HeaderGet (resp_Headers response) ''Age'' in
      if gt = None \<and> lt = None then []
      else if ageStr = [] then [AgeMissing]
      else case Atoi ageStr of None \<Rightarrow> [AgeNotNumber ageStr]
        | Some age \<Rightarrow>
            (case gt of None \<Rightarrow> [] | Some g \<Rightarrow> if age \<le> g then [AgeNotGreater g age] else []) @
            (case lt of None \<Rightarrow> [] | Some l \<Rightarrow> if age \<ge> l then [AgeNotLess l age] else []))"

definition cacheErrors :: "CacheExpectations \<Rightarrow> Response \<Rightarrow> AssertError list" where
  "cacheErrors exp response =
     hitErrors response (ce_Hit exp) @ ageErrors response (ce_AgeGt exp) (ce_AgeLt exp)"

lemma checkCache_adds: "checkCacheExpectations exp response r = addErrors (cacheErrors exp response) r"
  unfolding checkCacheExpectations_def fail_add cacheErrors_def hitErrors_def ageErrors_def
  by (simp add: Let_def split: option.split)

definition cookieErrorsOf :: "(string, string) gomap \<Rightarrow> string \<times> string \<Rightarrow> AssertError list" where
  "cookieErrorsOf jarMap = (\<lambda>(name, v). case mget jarMap name of
     None \<Rightarrow> [CookieMissing name]
   | Some a \<Rightarrow> if a \<noteq> v then [CookieMismatch name v a] else [])"

definition jarMapOf :: "(string \<times> string) list \<Rightarrow> (string, string) gomap" where
  "jarMapOf cs = fold (\<lambda>(name, value). mput name value) cs []"

definition cookieErrors ::
  "(string, string) gomap \<Rightarrow> 'u CookieJar option \<Rightarrow> 'u option \<Rightarrow> AssertError list" where
  "cookieErrors expected jar url =
     (case jar of None \<Rightarrow> [NoCookieJar]
      | Some j \<Rightarrow> (case url of None \<Rightarrow> [NoRequestURL]
          | Some u \<Rightarrow> concat (map (cookieErrorsOf (jarMapOf (j u))) expected)))"

lemma checkCookie_adds:
  "checkCookieExpectations expected jar url r = addErrors (cookieErrors expected jar url) r"
proof -
  have "(\<lambda>(name, expectedValue) r. case mget m name of None \<Rightarrow> addErrors [CookieMissing name] r
         | Some actualValue \<Rightarrow> if actualValue \<noteq> expectedValue
             then addErrors [CookieMismatch name expectedValue actualValue] r else r)
      = (\<lambda>x. addErrors (cookieErrorsOf m x))" for m
    by (auto simp: cookieErrorsOf_def fun_eq_iff split: option.split)
  then show ?thesis
    unfolding checkCookieExpectations_def fail_add
    by (simp add: Let_def fold_addErrors cookieErrors_def jarMapOf_def split: option.split)
qed

lemmas checks_add = checkResponse_adds checkBackend_adds checkCache_adds checkCookie_adds

definition allErrors ::
  "ExpectationsSpec \<Rightarrow> Response \<Rightarrow> (string, int) gomap \<Rightarrow> 'u CookieJar option \<Rightarrow> 'u option \<Rightarrow>
   AssertError list" where
  "allErrors e response calls jar url =
     responseErrors (es_Response e) response @
     (case es_Backend e of None \<Rightarrow> [] | Some b \<Rightarrow> backendErrors b calls) @
     (case es_Cache e of None \<Rightarrow> [] | Some c \<Rightarrow> cacheErrors c response) @
     (if es_Cookies e = [] then [] else cookieErrors (es_Cookies e) jar url)"

lemma Check_errors:
  "Check e response calls jar url =
     \<lparr>ar_Passed = (allErrors e response calls jar url = []), ar_Errors = allErrors e response calls jar url\<rparr>"
proof -
  have "Check e response calls jar url =
      addErrors (allErrors e response calls jar url) \<lparr>ar_Passed = True, ar_Errors = []\<rparr>"
    unfolding Check_def checks_add allErrors_def
    by (simp add: Let_def split: option.split)
  then show ?thesis by (simp add: addErrors_def)
qed

lemma totalCallsOf_sum: "totalCallsOf calls = wrap64 (sum_list (map snd calls))"
proof -
  have add: "wrap64 (wrap64 a + b) = wrap64 (a + b)" for a b
    by (simp add: wrap64_def mod_simps algebra_simps)
  have "fold (\<lambda>(name, count) t. wrap64 (t + count)) xs (wrap64 t) = wrap64 (t + sum_list (map snd xs))"
    for xs :: "(string \<times> int) list" and t
    by (induction xs arbitrary: t) (auto simp: add add.assoc)
  from this[of calls 0] show ?thesis by (simp add: totalCallsOf_def wrap64_id in_int64_def)
qed

section \<open>What the expectations mean\<close>

definition response_met :: "ResponseExpectations \<Rightarrow> Response \<Rightarrow> bool" where
  "response_met exp response \<longleftrightarrow>
     resp_Status response = exp_Status exp \<and>
     (\<forall>(k, v) \<in> set (exp_Headers exp). HeaderGet (resp_Headers response) k = v) \<and>
     (\<exists>pre post. resp_Body response = pre @ exp_BodyContains exp @ post)"

definition backend_met :: "BackendExpectations \<Rightarrow> (string, int) gomap \<Rightarrow> bool" where
  "backend_met exp calls \<longleftrightarrow>
     (if be_Name exp \<noteq> [] then mget_or 0 calls (be_Name exp) \<noteq> 0
      else (be_Used exp \<noteq> [] \<longrightarrow> mget_or 0 calls (be_Used exp) \<noteq> 0) \<and>
           (\<forall>n. be_Calls exp = Some n \<longrightarrow> wrap64 (sum_list (map snd calls)) = n) \<and>
           (\<forall>(name, e) \<in> set (be_PerBackend exp). mget_or 0 calls name = bce_Calls e))"

text \<open>
  The response counts as a hit: \<^verbatim>\<open>X-Varnish\<close> holds exactly two words, or \<^verbatim>\<open>Age\<close> is the decimal
  form of a positive number. The second alternative is open whatever \<^verbatim>\<open>X-Varnish\<close> holds, one
  transaction number included.
\<close>

definition served_from_cache :: "Response \<Rightarrow> bool" where
  "served_from_cache response \<longleftrightarrow>
     (\<exists>reqid objid. Fields (HeaderGet (resp_Headers response) ''X-Varnish'') = [reqid, objid]) \<or>
     (\<exists>age. Atoi (HeaderGet (resp_Headers response) ''Age'') = Some age \<and> 0 < age)"

definition cache_met :: "CacheExpectations \<Rightarrow> Response \<Rightarrow> bool" where
  "cache_met exp response \<longleftrightarrow>
     (\<forall>hit. ce_Hit exp = Some hit \<longrightarrow> served_from_cache response = hit) \<and>
     (ce_AgeGt exp = None \<and> ce_AgeLt exp = None \<or>
      (\<exists>age. Atoi (HeaderGet (resp_Headers response) ''Age'') = Some age \<and>
         (\<forall>g. ce_AgeGt exp = Some g \<longrightarrow> g < age) \<and> (\<forall>l. ce_AgeLt exp = Some l \<longrightarrow> age < l)))"

definition cookies_met :: "(string, string) gomap \<Rightarrow> 'u CookieJar option \<Rightarrow> 'u option \<Rightarrow> bool" where
  "cookies_met expected jar url \<longleftrightarrow>
     expected = [] \<or>
     (\<exists>j u. jar = Some j \<and> url = Some u \<and>
        (\<forall>(name, v) \<in> set expected. map_of (rev (j u)) name = Some v))"

definition expectations_met ::
  "ExpectationsSpec \<Rightarrow> Response \<Rightarrow> (string, int) gomap \<Rightarrow> 'u CookieJar option \<Rightarrow> 'u option \<Rightarrow> bool" where
  "expectations_met e response calls jar url \<longleftrightarrow>
     response_met (es_Response e) response \<and>
     (\<forall>b. es_Backend e = Some b \<longrightarrow> backend_met b calls) \<and>
     (\<forall>c. es_Cache e = Some c \<longrightarrow> cache_met c response) \<and>
     cookies_met (es_Cookies e) jar url"

lemma responseErrors_Nil: "responseErrors exp response = [] \<longleftrightarrow> response_met exp response"
proof -
  have "exp_BodyContains exp = [] \<or> Contains (resp_Body response) (exp_BodyContains exp) \<longleftrightarrow>
      (\<exists>pre post. resp_Body response = pre @ exp_BodyContains exp @ post)"
    using Contains_iff[of "resp_Body response" "exp_BodyContains exp"] by (metis Contains_empty)
  then show ?thesis
    by (fastforce simp: responseErrors_def response_met_def headerErrors_def split: if_splits)
qed

lemma backendErrors_Nil: "backendErrors exp calls = [] \<longleftrightarrow> backend_met exp calls"
proof -
  have nc: "notCalledErrors calls name = [] \<longleftrightarrow> name = [] \<or> mget_or 0 calls name \<noteq> 0" for name
    by (auto simp: notCalledErrors_def wasCalled_def mget_or_def split: option.splits)
  have tot: "totalErrors calls n = [] \<longleftrightarrow>
      (\<forall>k. n = Some k \<longrightarrow> wrap64 (sum_list (map snd calls)) = k)" for n
    by (auto simp: totalErrors_def totalCallsOf_sum split: option.splits)
  have per: "concat (map (callErrors calls) ps) = [] \<longleftrightarrow>
      (\<forall>(name, e) \<in> set ps. mget_or 0 calls name = bce_Calls e)" for ps
    by (fastforce simp: callErrors_def split: if_splits)
  show ?thesis by (auto simp only: backendErrors_def backend_met_def append_is_Nil_conv nc tot per split: if_splits)
qed

lemma Fields_Nil: "Fields [] = []"
  by code_simp

lemma Atoi_Nil: "Atoi [] = None"
  by code_simp

lemma checkIfCached_iff: "checkIfCached response \<longleftrightarrow> served_from_cache response"
  by (auto simp: checkIfCached_def served_from_cache_def Let_def length_Suc_conv numeral_2_eq_2
      Fields_Nil Atoi_Nil split: option.split)

lemma cacheErrors_Nil: "cacheErrors exp response = [] \<longleftrightarrow> cache_met exp response"
  by (auto simp: checkIfCached_iff cacheErrors_def cache_met_def hitErrors_def ageErrors_def Let_def
      split: option.splits if_splits)

lemma jarMapOf_get: "mget (jarMapOf cs) name = map_of (rev cs) name"
proof -
  have "mget (fold (\<lambda>(name, value). mput name value) cs m) name =
      (case map_of (rev cs) name of None \<Rightarrow> mget m name | Some v \<Rightarrow> Some v)" for m
    by (induction cs arbitrary: m) (auto simp: map_add_def split: option.split)
  from this[of "[]"] show ?thesis by (simp add: jarMapOf_def split: option.split)
qed

lemma cookieErrors_Nil:
  "es = [] \<or> cookieErrors es jar url = [] \<longleftrightarrow> cookies_met es jar url"
proof -
  have "concat (map (cookieErrorsOf (jarMapOf cs)) es) = [] \<longleftrightarrow>
      (\<forall>(name, v) \<in> set es. map_of (rev cs) name = Some v)" for cs
    by (fastforce simp: cookieErrorsOf_def jarMapOf_get split: option.splits if_splits)
  then show ?thesis
    by (auto simp: cookieErrors_def cookies_met_def split: option.splits)
qed

lemma allErrors_Nil: "allErrors e response calls jar url = [] \<longleftrightarrow> expectations_met e response calls jar url"
  using cookieErrors_Nil[of "es_Cookies e" jar url]
  by (auto simp: allErrors_def expectations_met_def responseErrors_Nil backendErrors_Nil
      cacheErrors_Nil split: option.splits)

section \<open>Properties\<close>

text \<open>
  C4. A test passes iff its expectations are met: the status, every expected header
  and the body substring; the named, total and per-backend call counts; the cache state and
  the open age interval; and every expected cookie as the jar's last cookie of that name.
  The cache state is a hit iff \<^verbatim>\<open>X-Varnish\<close> holds exactly two words or \<^verbatim>\<open>Age\<close> is a positive
  number; \<^verbatim>\<open>Age\<close> is read after a single transaction number too, where
  \<^verbatim>\<open>docs/REFERENCE.md\<close> says that one number means a miss. A result has errors iff it did not
  pass.
\<close>

theorem check_passes_iff_met:
  "(ar_Passed (Check e response calls jar url) \<longleftrightarrow> expectations_met e response calls jar url) \<and>
   (ar_Errors (Check e response calls jar url) = [] \<longleftrightarrow> ar_Passed (Check e response calls jar url))"
  by (simp add: Check_errors allErrors_Nil)

text \<open>
  The verdict does not depend on the iteration order of Go's maps: visiting the
  expected headers and cookies in another order reports the same errors, as a multiset, and
  another order of the call counts gives the same verdict.
\<close>

lemma check_order_independent:
  assumes "mset hs' = mset (exp_Headers (es_Response e))" "mset cs' = mset (es_Cookies e)"
    and "wf_map calls" "mset calls' = mset calls"
  shows "let e' = e\<lparr>es_Response := (es_Response e)\<lparr>exp_Headers := hs'\<rparr>, es_Cookies := cs'\<rparr> in
    mset (ar_Errors (Check e' response calls jar url)) = mset (ar_Errors (Check e response calls jar url)) \<and>
    ar_Passed (Check e' response calls' jar url) = ar_Passed (Check e response calls jar url)"
proof -
  let ?e' = "e\<lparr>es_Response := (es_Response e)\<lparr>exp_Headers := hs'\<rparr>, es_Cookies := cs'\<rparr>"
  have perm: "mset (concat (map f xs)) = mset (concat (map f ys))" if "mset xs = mset ys"
    for f :: "string \<times> string \<Rightarrow> AssertError list" and xs ys
  proof -
    have "mset (concat (map f zs)) = sum_list (map (\<lambda>x. mset (f x)) zs)" for zs
      by (simp add: mset_concat comp_def)
    then show ?thesis using that by (metis (no_types) mset_map sum_mset_sum_list)
  qed
  have "mset (responseErrors (es_Response ?e') response) = mset (responseErrors (es_Response e) response)"
    using perm[OF assms(1)] by (simp add: responseErrors_def)
  moreover have "mset (cookieErrors cs' jar url) = mset (cookieErrors (es_Cookies e) jar url)"
    using perm[OF assms(2)] by (simp add: cookieErrors_def split: option.split)
  moreover have "cs' = [] \<longleftrightarrow> es_Cookies e = []" using assms(2) by (metis mset_zero_iff)
  ultimately have errs: "mset (allErrors ?e' response calls jar url) = mset (allErrors e response calls jar url)"
    by (simp add: allErrors_def)
  have "mget_or 0 calls' k = mget_or 0 calls k" for k
    unfolding mget_or_def mget_perm[OF assms(3) assms(4)[symmetric]] ..
  moreover have "sum_list (map snd calls') = sum_list (map snd calls)"
    using assms(4) by (metis mset_map sum_mset_sum_list)
  ultimately have "backend_met b calls' = backend_met b calls" for b
    by (simp add: backend_met_def)
  then have "expectations_met ?e' response calls' jar url = expectations_met ?e' response calls jar url"
    by (simp add: expectations_met_def)
  moreover have "allErrors ?e' response calls jar url = [] \<longleftrightarrow> allErrors e response calls jar url = []"
    using errs by (metis mset_zero_iff)
  ultimately show ?thesis
    using errs by (simp add: Let_def Check_errors) (simp add: allErrors_Nil)
qed

text \<open>
  The cache verdict on the headers Varnish sends: two VXIDs in
  \<^verbatim>\<open>X-Varnish\<close> mean a hit; with one VXID the response counts as a hit iff its \<^verbatim>\<open>Age\<close> is
  positive.
\<close>

lemma cached_by_varnish_headers:
  assumes "HeaderGet (resp_Headers response) ''X-Varnish'' = Join (map Itoa vxids) '' ''"
    and "HeaderGet (resp_Headers response) ''Age'' = Itoa age" "in_int64 age" "vxids \<noteq> []"
  shows "checkIfCached response \<longleftrightarrow> length vxids = 2 \<or> age > 0"
proof -
  have "Fields (Join (map Itoa vxids) '' '') = map Itoa vxids"
    by (rule Fields_Join_words) (auto simp: Itoa_graph)
  moreover have "Join (map Itoa vxids) '' '' \<noteq> []"
    using assms(4) by (cases vxids; cases "tl vxids") auto
  ultimately show ?thesis
    using assms by (auto simp: checkIfCached_def Let_def Atoi_Itoa)
qed

end
