(* ===== verification/GoDuration.thy ===== *)
theory GoDuration
  imports GoStrings
begin

text \<open>
  \<^verbatim>\<open>time.ParseDuration\<close>: a sequence of decimal numbers with units, in nanoseconds. Go adds
  the fraction of a number through \<^verbatim>\<open>float64\<close>; here it is computed exactly and truncated,
  which is the same value whenever the number of digits after the point does not exceed the
  decimals of the unit (nine for seconds). The sums are unsigned 64-bit numbers.
\<close>

text \<open>Leading digits; \<open>None\<close> when the value exceeds 2 to the 63.\<close>

definition leadingInt :: "string \<Rightarrow> (nat \<times> string) option" where
  "leadingInt s =
     (let v = digits_val (takeWhile is_digit s) in
      if v > 2 ^ 63 then None else Some (v, dropWhile is_digit s))"

text \<open>The digits of a fraction that fit, and the power of ten they are relative to.\<close>

fun leadingFraction :: "nat \<Rightarrow> nat \<Rightarrow> string \<Rightarrow> nat \<times> nat" where
  "leadingFraction x scale [] = (x, scale)"
| "leadingFraction x scale (c # cs) =
     (if x > (2 ^ 63 - 1) div 10 then (x, scale)
      else let y = x * 10 + (byte c - 48) in
           if y > 2 ^ 63 then (x, scale) else leadingFraction y (scale * 10) cs)"

text \<open>The micro sign and the Greek letter mu are two bytes each in UTF-8.\<close>

definition unitOf :: "string \<Rightarrow> nat option" where
  "unitOf u =
     (if u = ''ns'' then Some 1
      else if u = ''us'' \<or> u = [CHR 0xC2, CHR 0xB5, CHR ''s''] \<or> u = [CHR 0xCE, CHR 0xBC, CHR ''s'']
      then Some (10 ^ 3)
      else if u = ''ms'' then Some (10 ^ 6)
      else if u = ''s'' then Some (10 ^ 9)
      else if u = ''m'' then Some (60 * 10 ^ 9)
      else if u = ''h'' then Some (3600 * 10 ^ 9)
      else None)"

definition number_char :: "char \<Rightarrow> bool" where
  "number_char c \<longleftrightarrow> c = CHR ''.'' \<or> is_digit c"

text \<open>The number and unit at the start: its value and the rest.\<close>

definition durationPart :: "string \<Rightarrow> (nat \<times> string) option" where
  "durationPart s =
     (if s = [] \<or> \<not> number_char (hd s) then None
      else case leadingInt s of
        None \<Rightarrow> None
      | Some (v, s1) \<Rightarrow>
          let pre = (length s1 \<noteq> length s);
              point = (s1 \<noteq> [] \<and> hd s1 = CHR ''.'');
              digits = (if point then takeWhile is_digit (tl s1) else []);
              s2 = (if point then dropWhile is_digit (tl s1) else s1);
              (f, scale) = leadingFraction 0 1 digits;
              u = takeWhile (\<lambda>c. \<not> number_char c) s2
          in if \<not> pre \<and> digits = [] then None
             else if u = [] then None
             else case unitOf u of
                    None \<Rightarrow> None
                  | Some unit \<Rightarrow>
                      if v > 2 ^ 63 div unit then None
                      else let v' = v * unit + (if f > 0 then f * unit div scale else 0) in
                           if v' > 2 ^ 63 then None
                           else Some (v', dropWhile (\<lambda>c. \<not> number_char c) s2))"

lemma durationPart_shorter:
  assumes "durationPart s = Some (v, s')"
  shows "length s' < length s"
proof -
  have drop: "length (dropWhile P xs) \<le> length xs" for P and xs :: string by (rule length_dropWhile_le)
  from assms obtain v0 s1 where l: "leadingInt s = Some (v0, s1)" and ne: "s \<noteq> []" and c: "number_char (hd s)"
    by (auto simp: durationPart_def split: if_splits option.splits)
  define s2 where "s2 = (if s1 \<noteq> [] \<and> hd s1 = CHR ''.'' then dropWhile is_digit (tl s1) else s1)"
  have s1: "s1 = dropWhile is_digit s" using l by (auto simp: leadingInt_def Let_def split: if_splits)
  have s': "s' = dropWhile (\<lambda>c. \<not> number_char c) s2"
    using assms l ne c by (auto simp: durationPart_def Let_def s2_def split: if_splits option.splits prod.splits)
  have "length s2 < length s"
  proof (cases "is_digit (hd s)")
    case True
    then have "length s1 < length s"
      using ne s1 drop[of is_digit "tl s"] by (cases s) (auto simp: less_Suc_eq_le)
    moreover have "length s2 \<le> length s1"
      unfolding s2_def using drop[of is_digit "tl s1"] by (cases s1) auto
    ultimately show ?thesis by simp
  next
    case False
    then have "s1 = s" "hd s = CHR ''.''" using ne c s1 by (cases s, auto simp: number_char_def)+
    then show ?thesis
      unfolding s2_def using ne drop[of is_digit "tl s"] by (cases s) (auto simp: less_Suc_eq_le)
  qed
  then show ?thesis using s' drop[of "\<lambda>c. \<not> number_char c" s2] by simp
qed

function durationLoop :: "nat \<Rightarrow> string \<Rightarrow> nat option" where
  "durationLoop d s =
     (if s = [] then Some d
      else case durationPart s of
             None \<Rightarrow> None
           | Some (v, s') \<Rightarrow>
               let d' = (d + v) mod 2 ^ 64 in
               if d' > 2 ^ 63 then None else durationLoop d' s')"
  by pat_completeness auto
termination
  by (relation "measure (length \<circ> snd)") (auto simp: durationPart_shorter)

declare durationLoop.simps [simp del]

definition ParseDuration :: "string \<Rightarrow> int option" where
  "ParseDuration str =
     (let (neg, s) = parse_sign str in
      if s = ''0'' then Some 0
      else if s = [] then None
      else case durationLoop 0 s of
             None \<Rightarrow> None
           | Some d \<Rightarrow>
               if neg then Some (wrap64 (- int d))
               else if d > 2 ^ 63 - 1 then None else Some (int d))"

lemma ParseDuration_range:
  assumes "ParseDuration s = Some d"
  shows "in_int64 d"
proof -
  have "in_int64 (int n)" if "n \<le> 2 ^ 63 - 1" for n :: nat
  proof -
    have "int n \<le> int (2 ^ 63 - 1)" using that by (simp only: of_nat_le_iff)
    then show ?thesis by (simp add: in_int64_def)
  qed
  then show ?thesis
    using assms by (auto simp: ParseDuration_def Let_def in_int64_def[of 0] split: prod.splits if_splits option.splits)
qed

end
