(* ===== verification/Runner.thy ===== *)
theory Runner
  imports VclMod MockBackend AdmCommands Recorder Coverage Assertion GoDuration
begin

text \<open>
  Package \<^verbatim>\<open>runner\<close> (\<^verbatim>\<open>runner.go\<close>) and \<^verbatim>\<open>vclloader/replacer.go\<close>: running one test or
  scenario against a running varnishd. The mock backends live in a store, the runner holds
  pointers (indices) into it; varnishd, the network, the clock and the file system are the
  environment, whose operations may change the store (requests that reach the mocks) and the
  log file. Logging is left out.
\<close>

section \<open>State and environment\<close>

record World =
  w_mocks :: "MockBackend list"
  w_log :: log_file

type_synonym mock_ptrs = "(string, nat) gomap"

text \<open>
  The code outside the package: listening on a port, varnishadm, the HTTP transport with its
  cookie jar, the time controller, varnishlog, the file system and the VCL parser, and the
  iteration orders of Go's maps.
\<close>

record ('e, 'u, 'w) Env =
  ev_listen :: "'w \<Rightarrow> ('e, string) result \<times> 'w"
  ev_exec :: "('e, 'w) executor"
  ev_parseURL :: "string \<Rightarrow> ('e, 'u) result"
  ev_send :: "Client \<Rightarrow> 'u HttpRequest \<Rightarrow> 'w \<Rightarrow> ('e, int \<times> Header \<times> ('e, string) result) result \<times> 'w"
  ev_newJar :: "'w \<Rightarrow> 'w"
  ev_jar :: "'w \<Rightarrow> 'u CookieJar"
  ev_advance :: "int \<Rightarrow> 'w \<Rightarrow> 'e option \<times> 'w"
  ev_signal :: "'w \<Rightarrow> bool \<times> 'w"
  ev_logIO :: "'w \<Rightarrow> log_io"
  ev_mkdirTemp :: "'w \<Rightarrow> ('e, string) result \<times> 'w"
  ev_mkdirAll :: "string \<Rightarrow> 'w \<Rightarrow> 'e option \<times> 'w"
  ev_writeFile :: "string \<Rightarrow> string \<Rightarrow> 'w \<Rightarrow> 'e option \<times> 'w"
  ev_removeAll :: "string \<Rightarrow> 'w \<Rightarrow> 'w"
  ev_walk :: "'w \<Rightarrow> 'e WalkEnv"
  ev_lower :: "string \<Rightarrow> string"
  ev_ordN :: "string list \<Rightarrow> string list"
  ev_ordW :: "(string \<times> bool) list \<Rightarrow> (string \<times> bool) list"
  ev_ordL :: "int list \<Rightarrow> int list"

record VCLFileInfo =
  vf_ConfigID :: int
  vf_Filename :: string
  vf_Source :: string
  vf_ExecutedLines :: "int list"
  vf_Blocks :: "FileBlocks option"

record VCLTraceInfo =
  ti_Files :: "VCLFileInfo list"
  ti_BackendCalls :: nat

record Runner =
  rn_varnishURL :: string
  rn_workDir :: string
  rn_recorder :: "Recorder option"
  rn_timeController :: bool  \<comment> \<open>a time controller is set (not nil)\<close>
  rn_loadedVCLName :: string
  rn_vclShowResult :: "VCLShowResult option"
  rn_mockBackends :: "mock_ptrs option"

datatype 'e RunnerError =
    NoVCLLoaded
  | NoTimeController
  | StartingBackend string 'e
  | ParsingAddress string string
  | ProcessingVCL "'e ProcessError"
  | CreatingTempDir 'e
  | CreatingDirectory string 'e
  | WritingVCL string 'e
  | LoadingVCL 'e
  | CompilationFailed string
  | ActivatingVCL 'e
  | ActivationFailed string
  | FetchingStructure "'e CmdError"
  | MakingRequest "'e RequestError"
  | InvalidOffset string
  | AdvanceFailed 'e
  | AtStep nat "'e RunnerError"

text \<open>
  The error strings of a result, one constructor per format: a failed check, a failed check
  of a scenario step with the number and time offset of the step, and the two errors that
  the harness turns into results.
\<close>

datatype 'e TestError =
    Failure AssertError
  | StepFailure nat string AssertError
  | NukeFailed 'e
  | RunFailed "'e RunnerError"

record 'e TestResult =
  res_TestName :: string
  res_Passed :: bool
  res_Errors :: "'e TestError list"
  res_VCLTrace :: "VCLTraceInfo option"

definition runner_New :: "string \<Rightarrow> string \<Rightarrow> Recorder option \<Rightarrow> Runner" where
  "runner_New varnishURL workDir rec =
     \<lparr>rn_varnishURL = varnishURL, rn_workDir = workDir, rn_recorder = rec, rn_timeController = False,
      rn_loadedVCLName = [], rn_vclShowResult = None, rn_mockBackends = None\<rparr>"

definition SetTimeController :: "Runner \<Rightarrow> Runner" where
  "SetTimeController r = r\<lparr>rn_timeController := True\<rparr>"

definition SetMockBackends :: "mock_ptrs \<Rightarrow> Runner \<Rightarrow> Runner" where
  "SetMockBackends backends r = r\<lparr>rn_mockBackends := Some backends\<rparr>"

definition SetVCLShowResult :: "VCLShowResult \<Rightarrow> Runner \<Rightarrow> Runner" where
  "SetVCLShowResult vclShow r = r\<lparr>rn_vclShowResult := Some vclShow, rn_loadedVCLName := ''boot''\<rparr>"

definition GetLoadedVCLSource :: "Runner \<Rightarrow> string" where
  "GetLoadedVCLSource r = (case rn_vclShowResult r of None \<Rightarrow> [] | Some s \<Rightarrow> vs_VCLSource s)"

section \<open>Names and addresses\<close>

text \<open>Every maximal run of bytes that are not letters or digits becomes one hyphen.\<close>

function hyphenate :: "string \<Rightarrow> string" where
  "hyphenate [] = []"
| "hyphenate (c # cs) =
     (if is_alnum c then c # hyphenate cs
      else CHR ''-'' # hyphenate (dropWhile (\<lambda>c. \<not> is_alnum c) cs))"
  by pat_completeness auto
termination by (relation "measure length") (auto simp: less_Suc_eq_le length_dropWhile_le)

definition sanitizeVCLName :: "(string \<Rightarrow> string) \<Rightarrow> string \<Rightarrow> string" where
  "sanitizeVCLName uni name = ''test-'' @ ToLower uni (TrimChar (hyphenate name) (CHR ''-''))"

definition ParseAddress :: "string \<Rightarrow> (string, string \<times> string) result" where
  "ParseAddress addr =
     (case Split addr '':'' of
        [host, port] \<Rightarrow> if host = [] \<or> port = [] then Inl addr else Inr (host, port)
      | _ \<Rightarrow> Inl addr)"

section \<open>Mock backends\<close>

definition convertRoutes ::
  "(string, RouteSpec) gomap option \<Rightarrow> (string, RouteConfig) gomap option" where
  "convertRoutes routes =
     map_option (map (\<lambda>(path, spec). (path,
       \<lparr>rc_Status = rt_Status spec, rc_Headers = rt_Headers spec, rc_Body = rt_Body spec,
        rc_FailureMode = rt_FailureMode spec, rc_EchoRequest = rt_EchoRequest spec\<rparr>))) routes"

text \<open>A nil header map has no entries.\<close>

definition backendConfig :: "BackendSpec \<Rightarrow> Config" where
  "backendConfig spec =
     (let cfg = \<lparr>cfg_Status = bs_Status spec,
                 cfg_Headers = (case bs_Headers spec of None \<Rightarrow> [] | Some hs \<Rightarrow> hs),
                 cfg_Body = bs_Body spec, cfg_FailureMode = bs_FailureMode spec,
                 cfg_Routes = convertRoutes (bs_Routes spec), cfg_EchoRequest = bs_EchoRequest spec\<rparr>
      in if cfg_Status cfg = 0 then cfg\<lparr>cfg_Status := 200\<rparr> else cfg)"

definition updateMock :: "nat \<Rightarrow> (MockBackend \<Rightarrow> MockBackend) \<Rightarrow> 'x World_scheme \<Rightarrow> 'x World_scheme" where
  "updateMock p f w = w\<lparr>w_mocks := (w_mocks w)[p := f (w_mocks w ! p)]\<rparr>"

definition stopAll :: "mock_ptrs \<Rightarrow> 'x World_scheme \<Rightarrow> 'x World_scheme" where
  "stopAll bm = fold (\<lambda>(name, p). updateMock p mock_Stop) bm"

definition resetCallCounts :: "mock_ptrs \<Rightarrow> 'x World_scheme \<Rightarrow> 'x World_scheme" where
  "resetCallCounts bm = fold (\<lambda>(name, p). updateMock p ResetCallCount) bm"

definition getCallCounts :: "mock_ptrs \<Rightarrow> 'x World_scheme \<Rightarrow> (string, int) gomap" where
  "getCallCounts bm w = map (\<lambda>(name, p). (name, GetCallCount (w_mocks w ! p))) bm"

definition getTotalCallCount :: "mock_ptrs \<Rightarrow> 'x World_scheme \<Rightarrow> int" where
  "getTotalCallCount bm w =
     foldl (\<lambda>total (name, p). wrap64 (total + GetCallCount (w_mocks w ! p))) 0 bm"

text \<open>
  A mock whose address cannot be parsed is started but not yet recorded, so it is not among
  the stopped ones.
\<close>

fun startLoop ::
  "('e, 'u, 'x World_scheme) Env \<Rightarrow> (string \<times> BackendSpec) list \<Rightarrow> mock_ptrs \<Rightarrow>
   (string, BackendAddress) gomap \<Rightarrow> 'x World_scheme \<Rightarrow>
   ('e RunnerError, mock_ptrs \<times> (string, BackendAddress) gomap) result \<times> 'x World_scheme" where
  "startLoop env [] bm addresses w = (Inr (bm, addresses), w)"
| "startLoop env ((name, spec) # specs) bm addresses w =
     (let (listen, w1) = ev_listen env w in
      case mock_Start listen (mock_New (backendConfig spec)) of
        (Inl err, mock) \<Rightarrow> (Inl (StartingBackend name err), stopAll bm w1)
      | (Inr addr, mock) \<Rightarrow>
          let w2 = w1\<lparr>w_mocks := w_mocks w1 @ [mock]\<rparr> in
          case ParseAddress addr of
            Inl a \<Rightarrow> (Inl (ParsingAddress name a), stopAll bm w2)
          | Inr (host, port) \<Rightarrow>
              startLoop env specs (mput name (length (w_mocks w1)) bm)
                (mput name \<lparr>Host = host, Port = port\<rparr> addresses) w2)"

definition startBackends ::
  "('e, 'u, 'x World_scheme) Env \<Rightarrow> TestSpec \<Rightarrow> 'x World_scheme \<Rightarrow>
   ('e RunnerError, mock_ptrs \<times> (string, BackendAddress) gomap) result \<times> 'x World_scheme" where
  "startBackends env test w = startLoop env (ts_Backends test) [] [] w"

section \<open>Loading a VCL\<close>

text \<open>
  Writing the processed files below a directory; the first one is the main file. (An output
  path is never empty, so the code's test on \<^verbatim>\<open>mainVCLFile\<close> is true exactly once.)
\<close>

fun writeFiles ::
  "('e, 'u, 'w) Env \<Rightarrow> string \<Rightarrow> ProcessedVCLFile list \<Rightarrow> string \<Rightarrow> 'w \<Rightarrow> ('e RunnerError, string) result \<times> 'w" where
  "writeFiles env vclDir [] mainVCLFile w = (Inr mainVCLFile, w)"
| "writeFiles env vclDir (file # files) mainVCLFile w =
     (let outPath = PathJoin [vclDir, RelativePath file] in
      case ev_mkdirAll env (Dir outPath) w of
        (Some err, w1) \<Rightarrow> (Inl (CreatingDirectory (RelativePath file) err), w1)
      | (None, w1) \<Rightarrow>
          (case ev_writeFile env outPath (Content file) w1 of
             (Some err, w2) \<Rightarrow> (Inl (WritingVCL (RelativePath file) err), w2)
           | (None, w2) \<Rightarrow>
               writeFiles env vclDir files (if mainVCLFile = [] then outPath else mainVCLFile) w2))"

definition processVCL ::
  "('e, 'u, 'w) Env \<Rightarrow> string \<Rightarrow> (string, BackendAddress) gomap \<Rightarrow> 'w \<Rightarrow>
   ('e RunnerError, ProcessedVCLFile list) result" where
  "processVCL env vclPath backends w =
     (case ProcessVCLWithIncludes (ev_lower env) (ev_ordN env) (ev_ordW env) (ev_walk env w) vclPath backends of
        Inl err \<Rightarrow> Inl (ProcessingVCL err)
      | Inr (files, result) \<Rightarrow> Inr files)"

definition replaceBackendsInVCL ::
  "('e, 'u, 'w) Env \<Rightarrow> string \<Rightarrow> string \<Rightarrow> (string, BackendAddress) gomap \<Rightarrow> 'w \<Rightarrow>
   ('e ModError, string) result" where
  "replaceBackendsInVCL env vclContent vclPath backends w =
     (case ValidateAndModifyBackends (ev_lower env) (ev_ordN env) (ev_ordW env)
             (env_parse (ev_walk env w)) (env_render (ev_walk env w)) vclContent vclPath backends of
        Inl err \<Rightarrow> Inl err
      | Inr (vcl, result) \<Rightarrow> Inr vcl)"

text \<open>Compiling and activating a VCL.\<close>

definition loadAndUse ::
  "('e, 'u, 'w) Env \<Rightarrow> string \<Rightarrow> string \<Rightarrow> 'w \<Rightarrow> ('e RunnerError, unit) result \<times> 'w" where
  "loadAndUse env vclName mainVCLFile w =
     (case VCLLoad (ev_exec env) vclName mainVCLFile w of
        (Inl err, w1) \<Rightarrow> (Inl (LoadingVCL err), w1)
      | (Inr resp, w1) \<Rightarrow>
          if statusCode resp \<noteq> ClisOk then (Inl (CompilationFailed (payload resp)), w1)
          else
            (case VCLUse (ev_exec env) vclName w1 of
               (Inl err, w2) \<Rightarrow> (Inl (ActivatingVCL err), w2)
             | (Inr resp2, w2) \<Rightarrow>
                 if statusCode resp2 \<noteq> ClisOk then (Inl (ActivationFailed (payload resp2)), w2)
                 else (Inr (), w2)))"

definition LoadVCL ::
  "('e, 'u, 'w) Env \<Rightarrow> string \<Rightarrow> (string, BackendAddress) gomap \<Rightarrow> Runner \<Rightarrow> 'w \<Rightarrow>
   ('e RunnerError, unit) result \<times> Runner \<times> 'w" where
  "LoadVCL env vclPath backends r w =
     (case processVCL env vclPath backends w of
        Inl err \<Rightarrow> (Inl err, r, w)
      | Inr files \<Rightarrow>
          (case writeFiles env (PathJoin [rn_workDir r, ''vcl'']) files [] w of
             (Inl err, w1) \<Rightarrow> (Inl err, r, w1)
           | (Inr mainVCLFile, w1) \<Rightarrow>
               (case loadAndUse env ''shared-vcl'' mainVCLFile w1 of
                  (Inl err, w2) \<Rightarrow> (Inl err, r, w2)
                | (Inr u, w2) \<Rightarrow>
                    (case VCLShowStructured (ev_exec env) ''shared-vcl'' w2 of
                       (Inl err, w3) \<Rightarrow> (Inl (FetchingStructure err), r, w3)
                     | (Inr vclShow, w3) \<Rightarrow>
                         (Inr (), r\<lparr>rn_loadedVCLName := ''shared-vcl'', rn_vclShowResult := Some vclShow\<rparr>, w3)))))"

text \<open>Leaving a VCL: failures of the two commands are only logged.\<close>

definition discardVCL :: "('e, 'u, 'w) Env \<Rightarrow> string \<Rightarrow> 'w \<Rightarrow> 'w" where
  "discardVCL env vclName w =
     (let (r1, w1) = VCLUse (ev_exec env) ''boot'' w;
          (r2, w2) = VCLDiscard (ev_exec env) vclName w1 in w2)"

definition UnloadVCL :: "('e, 'u, 'w) Env \<Rightarrow> Runner \<Rightarrow> 'w \<Rightarrow> Runner \<times> 'w" where
  "UnloadVCL env r w =
     (if rn_loadedVCLName r = [] then (r, w)
      else (r\<lparr>rn_loadedVCLName := [], rn_vclShowResult := None\<rparr>, discardVCL env (rn_loadedVCLName r) w))"

section \<open>Traces\<close>

definition extractVCLFiles ::
  "('e, 'u, 'w) Env \<Rightarrow> VCLShowResult \<Rightarrow> (int, int list) gomap \<Rightarrow> 'w \<Rightarrow> VCLFileInfo list" where
  "extractVCLFiles env vclShow execByConfig w =
     map (\<lambda>entry.
       let executedLines = mget_or [] execByConfig (vc_ConfigID entry);
           blocks = (case AnalyzeVCL (env_parse (ev_walk env w)) (vc_Source entry) (vc_Filename entry) of
                       Inl err \<Rightarrow> None
                     | Inr fb \<Rightarrow>
                         map_option (\<lambda>fb. fb\<lparr>fb_ConfigID := vc_ConfigID entry\<rparr>)
                           (MatchTracesToBlocks (Some fb) executedLines))
       in \<lparr>vf_ConfigID = vc_ConfigID entry, vf_Filename = vc_Filename entry,
           vf_Source = vc_Source entry, vf_ExecutedLines = executedLines, vf_Blocks = blocks\<rparr>)
     (vs_Entries vclShow)"

definition traceInfo ::
  "('e, 'u, 'w) Env \<Rightarrow> VCLShowResult \<Rightarrow> Message list \<Rightarrow> 'w \<Rightarrow> VCLTraceInfo" where
  "traceInfo env vclShow messages w =
     (let execByConfig = GetExecutedLinesByConfig (ev_ordL env) messages (vs_ConfigMap vclShow)
      in \<lparr>ti_Files = extractVCLFiles env vclShow execByConfig w,
          ti_BackendCalls = sum_BackendCalls (GetTraceSummary (ev_ordL env) (ev_ordN env) messages)\<rparr>)"

text \<open>The trace of a failed test, when there is a recorder and the VCL's structure is known.\<close>

definition attachTrace ::
  "('e, 'u, 'x World_scheme) Env \<Rightarrow> Runner \<Rightarrow> VCLShowResult option \<Rightarrow> int \<Rightarrow> bool \<Rightarrow> 'x World_scheme \<Rightarrow>
   VCLTraceInfo option" where
  "attachTrace env r vclShow logOffset passed w =
     (if passed \<or> rn_recorder r = None then None
      else case vclShow of
             None \<Rightarrow> None
           | Some vs \<Rightarrow>
               (case GetVCLMessagesSince (ev_logIO env w) (w_log w) logOffset of
                  Inl err \<Rightarrow> None
                | Inr messages \<Rightarrow> Some (traceInfo env vs messages w)))"

definition markLog :: "('e, 'u, 'x World_scheme) Env \<Rightarrow> Runner \<Rightarrow> 'x World_scheme \<Rightarrow> int" where
  "markLog env r w =
     (case rn_recorder r of
        None \<Rightarrow> 0
      | Some rec \<Rightarrow> (case MarkPosition (ev_logIO env w) (w_log w) of Inl err \<Rightarrow> 0 | Inr off \<Rightarrow> off))"

text \<open>Flushing asks varnishlog to write; a failure is only logged.\<close>

definition flushLog :: "('e, 'u, 'w) Env \<Rightarrow> Runner \<Rightarrow> 'w \<Rightarrow> 'w" where
  "flushLog env r w =
     (case rn_recorder r of
        None \<Rightarrow> w
      | Some rec \<Rightarrow> if rec_running rec \<and> rec_cmd rec then snd (ev_signal env w) else w)"

section \<open>Running a test\<close>

text \<open>
  The part common to single-request tests: the log position is marked, the request sent, the
  log flushed, the counters read, the expectations checked and the trace attached.
\<close>

definition requestAndCheck ::
  "('e, 'u, 'x World_scheme) Env \<Rightarrow> Runner \<Rightarrow> TestSpec \<Rightarrow> mock_ptrs \<Rightarrow> VCLShowResult option \<Rightarrow>
   'x World_scheme \<Rightarrow> ('e RunnerError, 'e TestResult) result \<times> 'x World_scheme" where
  "requestAndCheck env r test mocks vclShow w =
     (let logOffset = markLog env r w in
      case MakeRequest (ev_parseURL env) (ev_send env) None (rn_varnishURL r) (ts_Request test) w of
        (Inl err, w1) \<Rightarrow> (Inl (MakingRequest err), w1)
      | (Inr response, w1) \<Rightarrow>
          let w2 = flushLog env r w1;
              backendCalls = getCallCounts mocks w2;
              assertResult = Check (ts_Expectations test) response backendCalls
                (None :: 'u CookieJar option) None
          in (Inr \<lparr>res_TestName = ts_Name test, res_Passed = ar_Passed assertResult,
                   res_Errors = map Failure (ar_Errors assertResult),
                   res_VCLTrace = attachTrace env r vclShow logOffset (ar_Passed assertResult) w2\<rparr>, w2))"

text \<open>A nil map of mock backends has no entries.\<close>

definition mocksOf :: "Runner \<Rightarrow> mock_ptrs" where
  "mocksOf r = (case rn_mockBackends r of None \<Rightarrow> [] | Some bm \<Rightarrow> bm)"

definition runSingleRequestTestWithSharedVCL ::
  "('e, 'u, 'x World_scheme) Env \<Rightarrow> Runner \<Rightarrow> TestSpec \<Rightarrow> 'x World_scheme \<Rightarrow>
   ('e RunnerError, 'e TestResult) result \<times> 'x World_scheme" where
  "runSingleRequestTestWithSharedVCL env r test w =
     requestAndCheck env r test (mocksOf r) (rn_vclShowResult r) (resetCallCounts (mocksOf r) w)"

definition scenarioClient :: Client where
  "scenarioClient = \<lparr>cl_DisableKeepAlives = True, cl_FollowRedirects = False, cl_HasJar = True\<rparr>"

text \<open>
  The steps of a scenario. \<open>prepare\<close> is what the loop does between advancing the time and
  sending the request. \<open>firstFailedStep\<close> is -1 until a step fails.
\<close>

fun scenarioLoop ::
  "('e, 'u, 'x World_scheme) Env \<Rightarrow> Runner \<Rightarrow> (ScenarioStep \<Rightarrow> 'x World_scheme \<Rightarrow> 'x World_scheme) \<Rightarrow>
   mock_ptrs \<Rightarrow> ScenarioStep list \<Rightarrow> nat \<Rightarrow> 'e TestError list \<Rightarrow> int \<Rightarrow> 'x World_scheme \<Rightarrow>
   ('e RunnerError, 'e TestError list \<times> int) result \<times> 'x World_scheme" where
  "scenarioLoop env r prepare mocks [] stepIdx errors firstFailedStep w = (Inr (errors, firstFailedStep), w)"
| "scenarioLoop env r prepare mocks (step # steps) stepIdx errors firstFailedStep w =
     (case ParseDuration (st_At step) of
        None \<Rightarrow> (Inl (AtStep (stepIdx + 1) (InvalidOffset (st_At step))), w)
      | Some offset \<Rightarrow>
          (case ev_advance env offset w of
             (Some err, w1) \<Rightarrow> (Inl (AtStep (stepIdx + 1) (AdvanceFailed err)), w1)
           | (None, w1) \<Rightarrow>
               (case MakeRequest (ev_parseURL env) (ev_send env) (Some scenarioClient) (rn_varnishURL r)
                       (st_Request step) (prepare step w1) of
                  (Inl err, w2) \<Rightarrow> (Inl (AtStep (stepIdx + 1) (MakingRequest err)), w2)
                | (Inr response, w2) \<Rightarrow>
                    let w3 = flushLog env r w2;
                        backendCalls = getCallCounts mocks w3;
                        reqURL = (case ev_parseURL env (rn_varnishURL r @ req_URL (st_Request step)) of
                                    Inl err \<Rightarrow> None | Inr u \<Rightarrow> Some u);
                        assertResult = Check (st_Expectations step) response backendCalls
                                         (Some (ev_jar env w3)) reqURL
                    in if \<not> ar_Passed assertResult
                       then scenarioLoop env r prepare mocks steps (stepIdx + 1)
                              (errors @ map (StepFailure (stepIdx + 1) (st_At step)) (ar_Errors assertResult))
                              (if firstFailedStep = - 1 then int stepIdx else firstFailedStep) w3
                       else scenarioLoop env r prepare mocks steps (stepIdx + 1) errors firstFailedStep w3)))"

text \<open>
  Running the steps with a fresh cookie jar. The trace of a failed scenario is that of the
  whole log.
\<close>

definition runSteps ::
  "('e, 'u, 'x World_scheme) Env \<Rightarrow> Runner \<Rightarrow> (ScenarioStep \<Rightarrow> 'x World_scheme \<Rightarrow> 'x World_scheme) \<Rightarrow>
   mock_ptrs \<Rightarrow> VCLShowResult option \<Rightarrow> TestSpec \<Rightarrow> 'x World_scheme \<Rightarrow>
   ('e RunnerError, 'e TestResult) result \<times> 'x World_scheme" where
  "runSteps env r prepare mocks vclShow test w =
     (case scenarioLoop env r prepare mocks (ts_Scenario test) 0 [] (- 1) (ev_newJar env w) of
        (Inl err, w1) \<Rightarrow> (Inl err, w1)
      | (Inr (errors, firstFailedStep), w1) \<Rightarrow>
          let passed = (length errors = 0) in
          (Inr \<lparr>res_TestName = ts_Name test, res_Passed = passed, res_Errors = errors,
                res_VCLTrace = (if firstFailedStep \<ge> 0 then attachTrace env r vclShow 0 passed w1 else None)\<rparr>, w1))"

definition updateBackends :: "mock_ptrs \<Rightarrow> (string, BackendSpec) gomap \<Rightarrow> 'x World_scheme \<Rightarrow> 'x World_scheme" where
  "updateBackends mocks backends w =
     fold (\<lambda>(name, spec) w.
       case mget mocks name of
         None \<Rightarrow> w
       | Some p \<Rightarrow> updateMock p (UpdateConfig (backendConfig spec)) w) backends w"

definition runScenarioTestWithSharedVCL ::
  "('e, 'u, 'x World_scheme) Env \<Rightarrow> Runner \<Rightarrow> TestSpec \<Rightarrow> 'x World_scheme \<Rightarrow>
   ('e RunnerError, 'e TestResult) result \<times> 'x World_scheme" where
  "runScenarioTestWithSharedVCL env r test w =
     (if \<not> rn_timeController r then (Inl NoTimeController, w)
      else runSteps env r
             (\<lambda>step w. resetCallCounts (mocksOf r) (updateBackends (mocksOf r) (st_Backends step) w))
             (mocksOf r) (rn_vclShowResult r) test w)"

definition RunTestWithSharedVCL ::
  "('e, 'u, 'x World_scheme) Env \<Rightarrow> Runner \<Rightarrow> TestSpec \<Rightarrow> 'x World_scheme \<Rightarrow>
   ('e RunnerError, 'e TestResult) result \<times> 'x World_scheme" where
  "RunTestWithSharedVCL env r test w =
     (if rn_loadedVCLName r = [] then (Inl NoVCLLoaded, w)
      else if IsScenario test then runScenarioTestWithSharedVCL env r test w
      else runSingleRequestTestWithSharedVCL env r test w)"

section \<open>Running a test with its own VCL\<close>

text \<open>
  What both kinds of test do around their requests, in three layers: the mock backends are
  stopped and the temporary directory is removed on every path; the VCL is discarded only
  when \<open>body\<close> returns a result. A structure that cannot be fetched is only logged.
\<close>

definition withLoadedVCL ::
  "('e, 'u, 'w) Env \<Rightarrow> string \<Rightarrow> string \<Rightarrow>
   (VCLShowResult option \<Rightarrow> 'w \<Rightarrow> ('e RunnerError, 'a) result \<times> 'w) \<Rightarrow> 'w \<Rightarrow> ('e RunnerError, 'a) result \<times> 'w" where
  "withLoadedVCL env vclName mainVCLFile body w =
     (case loadAndUse env vclName mainVCLFile w of
        (Inl err, w1) \<Rightarrow> (Inl err, w1)
      | (Inr u, w1) \<Rightarrow>
          let (shown, w2) = VCLShowStructured (ev_exec env) vclName w1;
              vclShow = (case shown of Inl err \<Rightarrow> None | Inr vs \<Rightarrow> Some vs)
          in case body vclShow w2 of
               (Inl err, w3) \<Rightarrow> (Inl err, w3)
             | (Inr result, w3) \<Rightarrow> (Inr result, discardVCL env vclName w3))"

definition withTempVCL ::
  "('e, 'u, 'w) Env \<Rightarrow> string \<Rightarrow> string \<Rightarrow> (string, BackendAddress) gomap \<Rightarrow>
   (VCLShowResult option \<Rightarrow> 'w \<Rightarrow> ('e RunnerError, 'a) result \<times> 'w) \<Rightarrow> 'w \<Rightarrow> ('e RunnerError, 'a) result \<times> 'w" where
  "withTempVCL env vclName vclPath addresses body w =
     (case processVCL env vclPath addresses w of
        Inl err \<Rightarrow> (Inl err, w)
      | Inr files \<Rightarrow>
          (case ev_mkdirTemp env w of
             (Inl err, w1) \<Rightarrow> (Inl (CreatingTempDir err), w1)
           | (Inr tmpDir, w1) \<Rightarrow>
               apsnd (ev_removeAll env tmpDir)
                 (case writeFiles env tmpDir files [] w1 of
                    (Inl err, w2) \<Rightarrow> (Inl err, w2)
                  | (Inr mainVCLFile, w2) \<Rightarrow> withLoadedVCL env vclName mainVCLFile body w2)))"

definition withTestVCL ::
  "('e, 'u, 'x World_scheme) Env \<Rightarrow> TestSpec \<Rightarrow> string \<Rightarrow>
   (mock_ptrs \<Rightarrow> VCLShowResult option \<Rightarrow> 'x World_scheme \<Rightarrow> ('e RunnerError, 'a) result \<times> 'x World_scheme) \<Rightarrow>
   'x World_scheme \<Rightarrow> ('e RunnerError, 'a) result \<times> 'x World_scheme" where
  "withTestVCL env test vclPath body w =
     (case startBackends env test w of
        (Inl err, w1) \<Rightarrow> (Inl err, w1)
      | (Inr (bm, addresses), w1) \<Rightarrow>
          apsnd (stopAll bm)
            (withTempVCL env (sanitizeVCLName (ev_lower env) (ts_Name test)) vclPath addresses (body bm) w1))"

definition runSingleRequestTest ::
  "('e, 'u, 'x World_scheme) Env \<Rightarrow> Runner \<Rightarrow> TestSpec \<Rightarrow> string \<Rightarrow> 'x World_scheme \<Rightarrow>
   ('e RunnerError, 'e TestResult) result \<times> 'x World_scheme" where
  "runSingleRequestTest env r test vclPath w =
     withTestVCL env test vclPath (\<lambda>bm vclShow. requestAndCheck env r test bm vclShow) w"

text \<open>Here the loop neither updates the backends of a step nor resets the counters.\<close>

definition runScenarioTest ::
  "('e, 'u, 'x World_scheme) Env \<Rightarrow> Runner \<Rightarrow> TestSpec \<Rightarrow> string \<Rightarrow> 'x World_scheme \<Rightarrow>
   ('e RunnerError, 'e TestResult) result \<times> 'x World_scheme" where
  "runScenarioTest env r test vclPath w =
     (if \<not> rn_timeController r then (Inl NoTimeController, w)
      else withTestVCL env test vclPath
             (\<lambda>bm vclShow. runSteps env r (\<lambda>step w. w) bm vclShow test) w)"

definition RunTest ::
  "('e, 'u, 'x World_scheme) Env \<Rightarrow> Runner \<Rightarrow> TestSpec \<Rightarrow> string \<Rightarrow> 'x World_scheme \<Rightarrow>
   ('e RunnerError, 'e TestResult) result \<times> 'x World_scheme" where
  "RunTest env r test vclPath w =
     (if IsScenario test then runScenarioTest env r test vclPath w
      else runSingleRequestTest env r test vclPath w)"

section \<open>What reaches the mocks\<close>

text \<open>
  Traffic: a run of the mock in which requests arrive and are answered, without an operation
  of the test tool. It changes nothing but the call counter.
\<close>

definition traffic_event :: "MockEvent \<Rightarrow> bool" where
  "traffic_event e \<longleftrightarrow> (case e of Update c \<Rightarrow> False | Reset \<Rightarrow> False | Stop \<Rightarrow> False | _ \<Rightarrow> True)"

definition serves :: "MockBackend \<Rightarrow> nat \<Rightarrow> MockBackend \<Rightarrow> bool" where
  "serves m n m' \<longleftrightarrow>
     (\<exists>encode hijack s es t. mock_run encode hijack s es t \<and> ms_mock s = m \<and> ms_mock t = m' \<and>
        list_all traffic_event es \<and> arrivals es = n)"

lemma traffic_run:
  "mock_run encode hijack s es t \<Longrightarrow> list_all traffic_event es \<Longrightarrow>
   ms_mock t = (ms_mock s)\<lparr>mb_callCount := mb_callCount (ms_mock s) + of_nat (arrivals es)\<rparr>"
  by (induction rule: mock_run.induct)
     (auto elim!: mock_stepE simp: arrivals_snoc traffic_event_def add.assoc)

lemma serves_count:
  "serves m n m' \<Longrightarrow> m' = m\<lparr>mb_callCount := mb_callCount m + of_nat n\<rparr>"
  unfolding serves_def using traffic_run by blast

text \<open>
  The environment of a test: sending a request lets varnishd send \<open>hits\<close> requests to each
  mock (fewer than 2 to the 31); nothing else touches the mocks.
\<close>

definition varnish_env ::
  "('e, 'u, 'x World_scheme) Env \<Rightarrow> (Client \<Rightarrow> 'u HttpRequest \<Rightarrow> 'x World_scheme \<Rightarrow> nat \<Rightarrow> nat) \<Rightarrow> bool" where
  "varnish_env env hits \<longleftrightarrow>
     (\<forall>c q w. length (w_mocks (snd (ev_send env c q w))) = length (w_mocks w) \<and>
        (\<forall>p < length (w_mocks w). hits c q w p < 2 ^ 31 \<and>
           serves (w_mocks w ! p) (hits c q w p) (w_mocks (snd (ev_send env c q w)) ! p))) \<and>
     (\<forall>w. w_mocks (snd (ev_signal env w)) = w_mocks w) \<and>
     (\<forall>w. w_mocks (ev_newJar env w) = w_mocks w) \<and>
     (\<forall>d w. w_mocks (snd (ev_advance env d w)) = w_mocks w)"

definition valid_ptrs :: "mock_ptrs \<Rightarrow> 'x World_scheme \<Rightarrow> bool" where
  "valid_ptrs bm w \<longleftrightarrow> list_all (\<lambda>(name, p). p < length (w_mocks w)) bm"

lemma updateMock_length [simp]: "length (w_mocks (updateMock p f w)) = length (w_mocks w)"
  by (simp add: updateMock_def)

lemma updateMock_nth:
  "q < length (w_mocks w) \<Longrightarrow> w_mocks (updateMock p f w) ! q = (if p = q then f (w_mocks w ! q) else w_mocks w ! q)"
  by (simp add: updateMock_def nth_list_update)

lemma updateMock_log [simp]: "w_log (updateMock p f w) = w_log w"
  by (simp add: updateMock_def)

lemma reset_length [simp]: "length (w_mocks (resetCallCounts bm w)) = length (w_mocks w)"
  unfolding resetCallCounts_def by (induction bm arbitrary: w) auto

lemma reset_log [simp]: "w_log (resetCallCounts bm w) = w_log w"
  unfolding resetCallCounts_def by (induction bm arbitrary: w) auto

lemma reset_nth:
  "q < length (w_mocks w) \<Longrightarrow>
   w_mocks (resetCallCounts bm w) ! q =
     (if q \<in> snd ` set bm then ResetCallCount (w_mocks w ! q) else w_mocks w ! q)"
proof (induction bm arbitrary: w)
  case (Cons a bm)
  obtain name p where a: "a = (name, p)" by (cases a)
  let ?w = "updateMock p ResetCallCount w"
  have "w_mocks (resetCallCounts (a # bm) w) ! q = w_mocks (resetCallCounts bm ?w) ! q"
    by (simp add: a resetCallCounts_def)
  also have "\<dots> = (if q \<in> snd ` set bm then ResetCallCount (w_mocks ?w ! q) else w_mocks ?w ! q)"
    using Cons.prems by (intro Cons.IH) simp
  finally show ?case using Cons.prems by (auto simp: a updateMock_nth ResetCallCount_def)
qed (simp add: resetCallCounts_def)

lemma sint_count: "n < 2 ^ 31 \<Longrightarrow> sint (of_nat n :: 32 word) = int n"
  by (simp add: signed_of_nat signed_take_bit_int_eq_self)

lemma flush_mocks: "varnish_env env hits \<Longrightarrow> w_mocks (flushLog env r w) = w_mocks w"
  by (simp add: varnish_env_def flushLog_def split: option.split)

text \<open>The counters after a request are what that request caused.\<close>

lemma counts_after_send:
  assumes "varnish_env env hits" "valid_ptrs bm w" "ev_send env c q (resetCallCounts bm w) = (out, w')"
  shows "getCallCounts bm w' = map (\<lambda>(name, p). (name, int (hits c q (resetCallCounts bm w) p))) bm"
proof -
  let ?w = "resetCallCounts bm w"
  have "GetCallCount (w_mocks w' ! p) = int (hits c q ?w p)" if "(name, p) \<in> set bm" for name p
  proof -
    have p: "p < length (w_mocks w)" using assms(2) that by (auto simp: valid_ptrs_def list_all_iff)
    then have h: "hits c q ?w p < 2 ^ 31" "serves (w_mocks ?w ! p) (hits c q ?w p) (w_mocks w' ! p)"
      using assms(1,3) by (auto simp: varnish_env_def) (metis reset_length snd_conv)+
    have "mb_callCount (w_mocks ?w ! p) = 0"
      using that p by (force simp: reset_nth ResetCallCount_def)
    then have "mb_callCount (w_mocks w' ! p) = of_nat (hits c q ?w p)"
      using serves_count[OF h(2)] by simp
    then show ?thesis using h(1) by (simp add: GetCallCount_def sint_count)
  qed
  then show ?thesis by (auto simp: getCallCounts_def)
qed

text \<open>
  The HTTP request a request specification stands for: the address it is sent to is the
  Varnish URL followed by the path, and it has no other headers than the specified ones.
\<close>

definition sends_request ::
  "(string \<Rightarrow> ('e, 'u) result) \<Rightarrow> string \<Rightarrow> RequestSpec \<Rightarrow> 'u HttpRequest \<Rightarrow> bool" where
  "sends_request parseURL varnishURL req q \<longleftrightarrow>
     parseURL (varnishURL @ req_URL req) = Inr (hr_URL q) \<and>
     hr_Method q = (if req_Method req = [] then ''GET'' else req_Method req) \<and>
     hr_Body q = (if req_Body req = [] then None else Some (req_Body req)) \<and>
     hr_Header q = fold (\<lambda>(key, value). HeaderSet key value) (req_Headers req) []"

lemma MakeRequest_sent:
  assumes "MakeRequest parseURL send cl url req w = (Inr response, w')"
  obtains q where "sends_request parseURL url req q"
    "send (case cl of None \<Rightarrow> defaultClient | Some c \<Rightarrow> c) q w =
       (Inr (resp_Status response, resp_Headers response, Inr (resp_Body response)), w')"
proof -
  from assms obtain r where n: "NewRequest parseURL (req_Method req) (url @ req_URL req)
      (if req_Body req \<noteq> [] then Some (req_Body req) else None) = Inr r"
    by (auto simp: MakeRequest_def Let_def split: sum.splits)
  let ?q = "r\<lparr>hr_Header := fold (\<lambda>(key, value). HeaderSet key value) (req_Headers req) (hr_Header r)\<rparr>"
  have "sends_request parseURL url req ?q"
    using n by (auto simp: NewRequest_def sends_request_def Let_def split: if_splits sum.splits)
  moreover have "send (case cl of None \<Rightarrow> defaultClient | Some c \<Rightarrow> c) ?q w =
      (Inr (resp_Status response, resp_Headers response, Inr (resp_Body response)), w')"
    using assms n by (auto simp: MakeRequest_def Let_def split: sum.splits prod.splits)
  ultimately show ?thesis by (rule that)
qed

lemma MakeRequest_world:
  assumes "MakeRequest parseURL send cl url req w = (out, w')"
  shows "w' = w \<or> (\<exists>c q. w' = snd (send c q w))"
  using assms
  by (auto simp: MakeRequest_def Let_def split: sum.splits prod.splits) (metis snd_conv)+

lemma response_fields [simp]:
  "\<lparr>resp_Status = resp_Status response, resp_Headers = resp_Headers response,
    resp_Body = resp_Body response\<rparr> = response"
  by (cases response) simp

lemmas check_verdict = Check_errors allErrors_Nil

text \<open>The counts a test's expectations are checked against: those of one request.\<close>

abbreviation calls_of :: "mock_ptrs \<Rightarrow> (nat \<Rightarrow> nat) \<Rightarrow> (string, int) gomap" where
  "calls_of bm n \<equiv> map (\<lambda>(name, p). (name, int (n p))) bm"

lemma valid_ptrs_length:
  "length (w_mocks w') = length (w_mocks w) \<Longrightarrow> valid_ptrs bm w' = valid_ptrs bm w"
  by (simp add: valid_ptrs_def)

lemma counts_flushed:
  assumes "varnish_env env hits" "valid_ptrs bm w" "ev_send env c q (resetCallCounts bm w) = (out, w')"
  shows "getCallCounts bm (flushLog env r w') = calls_of bm (hits c q (resetCallCounts bm w))"
  using counts_after_send[OF assms] flush_mocks[OF assms(1), of r w'] by (simp add: getCallCounts_def)

lemma requestAndCheck_verdict:
  fixes env :: "('e, 'u, 'x World_scheme) Env"
  assumes "requestAndCheck env r test bm vclShow w = (Inr result, w')"
  obtains response w1 where
    "MakeRequest (ev_parseURL env) (ev_send env) None (rn_varnishURL r) (ts_Request test) w = (Inr response, w1)"
    "w' = flushLog env r w1"
    "res_TestName result = ts_Name test"
    "res_Passed result \<longleftrightarrow>
       expectations_met (ts_Expectations test) response (getCallCounts bm w') (None :: 'u CookieJar option) None"
    "res_Errors result = [] \<longleftrightarrow> res_Passed result"
    "res_VCLTrace result = attachTrace env r vclShow (markLog env r w) (res_Passed result) w'"
  using assms by (auto simp: requestAndCheck_def Let_def check_verdict split: prod.splits sum.splits)

section \<open>Scenarios\<close>

text \<open>One step as a relation between the states before and after it and its verdict.\<close>

definition ran_step ::
  "('e, 'u, 'x World_scheme) Env \<Rightarrow> Runner \<Rightarrow> (ScenarioStep \<Rightarrow> 'x World_scheme \<Rightarrow> 'x World_scheme) \<Rightarrow>
   mock_ptrs \<Rightarrow> ScenarioStep \<Rightarrow> 'x World_scheme \<Rightarrow> AssertResult \<Rightarrow> 'x World_scheme \<Rightarrow> bool" where
  "ran_step env r prepare mocks step w res w' \<longleftrightarrow>
     (\<exists>offset w1 response w2. ParseDuration (st_At step) = Some offset \<and> ev_advance env offset w = (None, w1) \<and>
        MakeRequest (ev_parseURL env) (ev_send env) (Some scenarioClient) (rn_varnishURL r) (st_Request step)
          (prepare step w1) = (Inr response, w2) \<and>
        w' = flushLog env r w2 \<and>
        res = Check (st_Expectations step) response (getCallCounts mocks w') (Some (ev_jar env w'))
                (case ev_parseURL env (rn_varnishURL r @ req_URL (st_Request step)) of
                   Inl err \<Rightarrow> None | Inr u \<Rightarrow> Some u))"

fun ran_steps ::
  "('e, 'u, 'x World_scheme) Env \<Rightarrow> Runner \<Rightarrow> (ScenarioStep \<Rightarrow> 'x World_scheme \<Rightarrow> 'x World_scheme) \<Rightarrow>
   mock_ptrs \<Rightarrow> ScenarioStep list \<Rightarrow> 'x World_scheme \<Rightarrow> AssertResult list \<Rightarrow> 'x World_scheme \<Rightarrow> bool" where
  "ran_steps env r prepare mocks [] w [] w' \<longleftrightarrow> w = w'"
| "ran_steps env r prepare mocks (step # steps) w (res # ress) w' \<longleftrightarrow>
     (\<exists>w1. ran_step env r prepare mocks step w res w1 \<and> ran_steps env r prepare mocks steps w1 ress w')"
| "ran_steps env r prepare mocks steps w ress w' \<longleftrightarrow> False"

fun stepErrors :: "nat \<Rightarrow> ScenarioStep list \<Rightarrow> AssertResult list \<Rightarrow> 'e TestError list" where
  "stepErrors k (step # steps) (res # ress) =
     map (StepFailure (k + 1) (st_At step)) (ar_Errors res) @ stepErrors (k + 1) steps ress"
| "stepErrors k steps ress = []"

lemma ran_step_passed: "ran_step env r prepare mocks step w res w' \<Longrightarrow> ar_Errors res = [] \<longleftrightarrow> ar_Passed res"
  by (auto simp: ran_step_def check_verdict)

lemma scenarioLoop_spec:
  "scenarioLoop env r prepare mocks steps k errors ff w = (Inr (errors', ff'), w') \<Longrightarrow> (ff = - 1 \<longleftrightarrow> errors = []) \<Longrightarrow>
   \<exists>ress. ran_steps env r prepare mocks steps w ress w' \<and> errors' = errors @ stepErrors k steps ress \<and>
     (ff' = - 1 \<longleftrightarrow> errors' = [])"
proof (induction steps arbitrary: k errors ff w)
  case Nil
  then show ?case by (auto intro!: exI[of _ "[]"])
next
  case (Cons step steps)
  from Cons.prems(1) obtain offset w1 response w2 where
    s: "ParseDuration (st_At step) = Some offset" "ev_advance env offset w = (None, w1)"
       "MakeRequest (ev_parseURL env) (ev_send env) (Some scenarioClient) (rn_varnishURL r) (st_Request step)
          (prepare step w1) = (Inr response, w2)"
    by (auto split: option.splits prod.splits sum.splits)
  define w3 where "w3 = flushLog env r w2"
  define res where "res = Check (st_Expectations step) response (getCallCounts mocks w3) (Some (ev_jar env w3))
      (case ev_parseURL env (rn_varnishURL r @ req_URL (st_Request step)) of Inl err \<Rightarrow> None | Inr u \<Rightarrow> Some u)"
  have ran: "ran_step env r prepare mocks step w res w3"
    unfolding ran_step_def res_def w3_def using s by blast
  define e where "e = errors @ map (StepFailure (k + 1) (st_At step)) (ar_Errors res)"
  define f where "f = (if ar_Passed res then ff else if ff = - 1 then int k else ff)"
  have "scenarioLoop env r prepare mocks steps (k + 1) e f w3 = (Inr (errors', ff'), w')"
    using Cons.prems(1) s ran_step_passed[OF ran]
    by (auto simp: Let_def e_def f_def simp flip: w3_def res_def split: if_splits)
  moreover have "f = - 1 \<longleftrightarrow> e = []"
    using Cons.prems(2) ran_step_passed[OF ran] by (auto simp: f_def e_def)
  ultimately obtain ress where "ran_steps env r prepare mocks steps w3 ress w'"
    "errors' = e @ stepErrors (k + 1) steps ress" "ff' = - 1 \<longleftrightarrow> errors' = []"
    using Cons.IH by blast
  with ran show ?case by (intro exI[of _ "res # ress"]) (auto simp: e_def)
qed

text \<open>A step that cannot be run ends the scenario with an error that names it.\<close>

definition step_stops ::
  "('e, 'u, 'x World_scheme) Env \<Rightarrow> Runner \<Rightarrow> (ScenarioStep \<Rightarrow> 'x World_scheme \<Rightarrow> 'x World_scheme) \<Rightarrow>
   ScenarioStep \<Rightarrow> 'x World_scheme \<Rightarrow> 'e RunnerError \<Rightarrow> 'x World_scheme \<Rightarrow> bool" where
  "step_stops env r prepare step w e w' \<longleftrightarrow>
     ParseDuration (st_At step) = None \<and> e = InvalidOffset (st_At step) \<and> w' = w \<or>
     (\<exists>offset. ParseDuration (st_At step) = Some offset \<and>
        ((\<exists>x. ev_advance env offset w = (Some x, w') \<and> e = AdvanceFailed x) \<or>
         (\<exists>w1 x. ev_advance env offset w = (None, w1) \<and> e = MakingRequest x \<and>
            MakeRequest (ev_parseURL env) (ev_send env) (Some scenarioClient) (rn_varnishURL r) (st_Request step)
              (prepare step w1) = (Inl x, w'))))"

lemma scenarioLoop_stops:
  "scenarioLoop env r prepare mocks steps k errors ff w = (Inl e, w') \<Longrightarrow>
   \<exists>i ress w1 e'. i < length steps \<and> ran_steps env r prepare mocks (take i steps) w ress w1 \<and>
     step_stops env r prepare (steps ! i) w1 e' w' \<and> e = AtStep (k + i + 1) e'"
proof (induction steps arbitrary: k errors ff w)
  case (Cons step steps)
  show ?case
  proof (cases "\<exists>e'. step_stops env r prepare step w e' w' \<and> e = AtStep (k + 1) e'")
    case True
    then show ?thesis by (intro exI[of _ 0] exI[of _ "[]"] exI[of _ w]) simp
  next
    case False
    then obtain offset w1 response w2 where
      s: "ParseDuration (st_At step) = Some offset" "ev_advance env offset w = (None, w1)"
         "MakeRequest (ev_parseURL env) (ev_send env) (Some scenarioClient) (rn_varnishURL r) (st_Request step)
            (prepare step w1) = (Inr response, w2)"
      using Cons.prems by (auto simp: step_stops_def split: option.splits prod.splits sum.splits)
    define w3 where "w3 = flushLog env r w2"
    define res where "res = Check (st_Expectations step) response (getCallCounts mocks w3) (Some (ev_jar env w3))
        (case ev_parseURL env (rn_varnishURL r @ req_URL (st_Request step)) of Inl err \<Rightarrow> None | Inr u \<Rightarrow> Some u)"
    have ran: "ran_step env r prepare mocks step w res w3"
      unfolding ran_step_def res_def w3_def using s by blast
    obtain errors1 ff1 where "scenarioLoop env r prepare mocks steps (k + 1) errors1 ff1 w3 = (Inl e, w')"
      using Cons.prems s by (auto simp: Let_def simp flip: w3_def res_def split: if_splits)
    from Cons.IH[OF this] obtain i ress w4 e' where "i < length steps"
      "ran_steps env r prepare mocks (take i steps) w3 ress w4" "step_stops env r prepare (steps ! i) w4 e' w'"
      "e = AtStep (k + 1 + i + 1) e'" by blast
    with ran show ?thesis
      by (intro exI[of _ "Suc i"] exI[of _ "res # ress"] exI[of _ w4] exI[of _ e']) auto
  qed
qed simp

lemma ran_steps_length: "ran_steps env r prepare mocks steps w ress w' \<Longrightarrow> length ress = length steps"
  by (induction env r prepare mocks steps w ress w' rule: ran_steps.induct) auto

lemma stepErrors_Nil:
  "ran_steps env r prepare mocks steps w ress w' \<Longrightarrow> stepErrors k steps ress = [] \<longleftrightarrow> list_all ar_Passed ress"
  by (induction env r prepare mocks steps w ress w' arbitrary: k rule: ran_steps.induct)
     (auto dest: ran_step_passed)

lemma updateBackends_Cons:
  "updateBackends mocks ((n, spec) # backends) w =
     updateBackends mocks backends
       (case mget mocks n of None \<Rightarrow> w | Some p \<Rightarrow> updateMock p (UpdateConfig (backendConfig spec)) w)"
  by (simp add: updateBackends_def)

lemma updateBackends_keeps [simp]:
  "length (w_mocks (updateBackends mocks backends w)) = length (w_mocks w)"
  "w_log (updateBackends mocks backends w) = w_log w"
  unfolding updateBackends_def by (induction backends arbitrary: w) (auto split: option.split)

text \<open>Each mock named by the step gets its configuration; the others are not touched.\<close>

lemma updateBackends_nth:
  assumes "distinct (map snd mocks)" "mget mocks name = Some p"
  shows "wf_map backends \<Longrightarrow> p < length (w_mocks w) \<Longrightarrow>
    w_mocks (updateBackends mocks backends w) ! p =
      (case mget backends name of None \<Rightarrow> w_mocks w ! p
       | Some spec \<Rightarrow> UpdateConfig (backendConfig spec) (w_mocks w ! p))"
proof (induction backends arbitrary: w)
  case Nil
  then show ?case by (simp add: updateBackends_def mget_def)
next
  case (Cons b backends)
  obtain n spec where b: "b = (n, spec)" by (cases b)
  have wf: "wf_map backends" "mget backends n = None"
    using Cons.prems(1) by (auto simp: b wf_map_def mget_def map_of_eq_None_iff)
  have other: "p' \<noteq> p" if "mget mocks n = Some p'" "n \<noteq> name" for p'
  proof
    assume "p' = p"
    then have "(n, p) \<in> set mocks" "(name, p) \<in> set mocks"
      using that assms(2) by (auto simp: mget_def dest: map_of_SomeD)
    with assms(1) that(2) show False by (auto simp: distinct_map inj_on_def) fastforce
  qed
  let ?w = "case mget mocks n of None \<Rightarrow> w | Some p \<Rightarrow> updateMock p (UpdateConfig (backendConfig spec)) w"
  have len: "p < length (w_mocks ?w)" using Cons.prems(2) by (simp split: option.split)
  have "w_mocks ?w ! p = (if n = name then UpdateConfig (backendConfig spec) (w_mocks w ! p) else w_mocks w ! p)"
    using assms(2) Cons.prems(2) other by (auto simp: updateMock_nth split: option.split)
  with Cons.IH[OF wf(1) len] wf(2) show ?case
    unfolding b updateBackends_Cons by (auto simp: mget_def UpdateConfig_def split: option.split)
qed

abbreviation shared_prepare :: "Runner \<Rightarrow> ScenarioStep \<Rightarrow> 'x World_scheme \<Rightarrow> 'x World_scheme" where
  "shared_prepare r \<equiv> \<lambda>step w. resetCallCounts (mocksOf r) (updateBackends (mocksOf r) (st_Backends step) w)"

text \<open>
  What a step's verdict means: the response to the step's own request, sent with the
  scenario's client, for the calls that this request caused, with the step's backends
  configured.
\<close>

definition step_verdict ::
  "('e, 'u, 'x World_scheme) Env \<Rightarrow> (Client \<Rightarrow> 'u HttpRequest \<Rightarrow> 'x World_scheme \<Rightarrow> nat \<Rightarrow> nat) \<Rightarrow> Runner \<Rightarrow>
   ScenarioStep \<Rightarrow> AssertResult \<Rightarrow> bool" where
  "step_verdict env hits r step res \<longleftrightarrow>
     (\<exists>q w status hdrs body (jar :: 'u CookieJar) url.
        sends_request (ev_parseURL env) (rn_varnishURL r) (st_Request step) q \<and>
        fst (ev_send env scenarioClient q w) = Inr (status, hdrs, Inr body) \<and>
        (\<forall>name spec p. mget (st_Backends step) name = Some spec \<and> mget (mocksOf r) name = Some p \<longrightarrow>
           mb_config (w_mocks w ! p) = backendConfig spec) \<and>
        (ar_Passed res \<longleftrightarrow>
           expectations_met (st_Expectations step) \<lparr>resp_Status = status, resp_Headers = hdrs, resp_Body = body\<rparr>
             (calls_of (mocksOf r) (hits scenarioClient q w)) (Some jar) url))"

lemma env_keeps_length:
  assumes "varnish_env env hits"
  shows "length (w_mocks (snd (ev_send env c q w))) = length (w_mocks w)"
    "length (w_mocks (snd (ev_advance env d w))) = length (w_mocks w)"
    "length (w_mocks (ev_newJar env w)) = length (w_mocks w)"
    "length (w_mocks (flushLog env r w)) = length (w_mocks w)"
  using assms flush_mocks[OF assms, of r w] by (simp_all add: varnish_env_def)

lemma request_keeps_length:
  assumes "varnish_env env hits" "MakeRequest (ev_parseURL env) (ev_send env) cl url req w = (out, w')"
  shows "length (w_mocks w') = length (w_mocks w)"
  using MakeRequest_world[OF assms(2)] env_keeps_length(1)[OF assms(1)] by auto

lemma scenarioLoop_keeps_length:
  assumes "varnish_env env hits" "\<And>step w. length (w_mocks (prepare step w)) = length (w_mocks w)"
  shows "scenarioLoop env r prepare mocks steps k errors ff w = (out, w') \<Longrightarrow> length (w_mocks w') = length (w_mocks w)"
proof (induction steps arbitrary: k errors ff w)
  case (Cons step steps)
  have a: "length (w_mocks w1) = length (w_mocks w)" if "ev_advance env d w = (o1, w1)" for d o1 w1
    using env_keeps_length(2)[OF assms(1), of d w] that by simp
  have m: "length (w_mocks w2) = length (w_mocks w1)"
    if "MakeRequest (ev_parseURL env) (ev_send env) cl url req (prepare step w1) = (o2, w2)" for cl url req w1 o2 w2
    using request_keeps_length[OF assms(1) that] assms(2) by simp
  show ?case using Cons.prems Cons.IH a m env_keeps_length(4)[OF assms(1)]
    by (auto simp: Let_def split: option.splits prod.splits sum.splits if_splits)
qed simp

lemma test_keeps_length:
  assumes "varnish_env env hits" "RunTestWithSharedVCL env r test w = (out, w')"
  shows "length (w_mocks w') = length (w_mocks w)"
proof -
  have "length (w_mocks w') = length (w_mocks w)" if "runScenarioTestWithSharedVCL env r test w = (out, w')"
    using that scenarioLoop_keeps_length[OF assms(1), of "shared_prepare r" r "mocksOf r" "ts_Scenario test" 0 "[]" "- 1"
        "ev_newJar env w"] env_keeps_length(3)[OF assms(1), of w]
    by (auto simp: runScenarioTestWithSharedVCL_def runSteps_def Let_def split: prod.splits sum.splits if_splits)
  moreover have "length (w_mocks w') = length (w_mocks w)" if "runSingleRequestTestWithSharedVCL env r test w = (out, w')"
    using that request_keeps_length[OF assms(1)] env_keeps_length(4)[OF assms(1)]
    by (fastforce simp: runSingleRequestTestWithSharedVCL_def requestAndCheck_def Let_def split: prod.splits sum.splits)
  ultimately show ?thesis using assms(2) by (auto simp: RunTestWithSharedVCL_def split: if_splits)
qed

lemma ran_step_own:
  assumes "varnish_env env hits" "valid_ptrs (mocksOf r) w" "distinct (map snd (mocksOf r))"
    and "wf_map (st_Backends step)" "ran_step env r (shared_prepare r) (mocksOf r) step w res w'"
  shows "step_verdict env hits r step res \<and> valid_ptrs (mocksOf r) w'"
proof -
  let ?bm = "mocksOf r"
  from assms(5) obtain offset w1 response w2 url where s: "ev_advance env offset w = (None, w1)"
     "MakeRequest (ev_parseURL env) (ev_send env) (Some scenarioClient) (rn_varnishURL r) (st_Request step)
        (shared_prepare r step w1) = (Inr response, w2)"
     "w' = flushLog env r w2"
     "res = Check (st_Expectations step) response (getCallCounts ?bm w') (Some (ev_jar env w')) url"
    unfolding ran_step_def by blast
  define u where "u = updateBackends ?bm (st_Backends step) w1"
  obtain q where q: "sends_request (ev_parseURL env) (rn_varnishURL r) (st_Request step) q"
    and send: "ev_send env scenarioClient q (resetCallCounts ?bm u) =
      (Inr (resp_Status response, resp_Headers response, Inr (resp_Body response)), w2)"
    using MakeRequest_sent[OF s(2)] unfolding u_def option.case by blast
  have len1: "length (w_mocks w1) = length (w_mocks w)"
    using env_keeps_length(2)[OF assms(1), of offset w] s(1) by simp
  then have v: "valid_ptrs ?bm u" using assms(2) valid_ptrs_length[of u w] by (simp add: u_def)
  have "mb_config (w_mocks (resetCallCounts ?bm u) ! p) = backendConfig spec"
    if "mget (st_Backends step) name = Some spec" "mget ?bm name = Some p" for name spec p
  proof -
    have p: "p < length (w_mocks w1)"
      using mget_in[OF that(2)] assms(2) len1 by (auto simp: valid_ptrs_def list_all_iff)
    then have "mb_config (w_mocks u ! p) = backendConfig spec"
      using updateBackends_nth[OF assms(3) that(2) assms(4) p] that(1) by (simp add: u_def UpdateConfig_def)
    with p show ?thesis by (simp add: reset_nth u_def ResetCallCount_def)
  qed
  moreover have "ar_Passed res \<longleftrightarrow> expectations_met (st_Expectations step) response
      (calls_of ?bm (hits scenarioClient q (resetCallCounts ?bm u))) (Some (ev_jar env w')) url"
    using counts_flushed[OF assms(1) v send] by (simp add: s(3,4) check_verdict)
  ultimately have "step_verdict env hits r step res"
    unfolding step_verdict_def
    by (intro exI[of _ q] exI[of _ "resetCallCounts ?bm u"] exI[of _ "resp_Status response"]
        exI[of _ "resp_Headers response"] exI[of _ "resp_Body response"] exI[of _ "ev_jar env w'"] exI[of _ url]
        conjI allI impI) (rule q, simp add: send, blast, simp only: response_fields)
  moreover have "valid_ptrs ?bm w'"
    using env_keeps_length(1)[OF assms(1), of scenarioClient q "resetCallCounts ?bm u"] env_keeps_length(4)[OF assms(1), of r w2]
      send v s(3) valid_ptrs_length[of w' u] by simp
  ultimately show ?thesis ..
qed

lemma ran_steps_own:
  "ran_steps env r prepare mocks steps w ress w' \<Longrightarrow> prepare = shared_prepare r \<Longrightarrow> mocks = mocksOf r \<Longrightarrow>
   varnish_env env hits \<Longrightarrow> valid_ptrs mocks w \<Longrightarrow> distinct (map snd mocks) \<Longrightarrow>
   list_all (\<lambda>s. wf_map (st_Backends s)) steps \<Longrightarrow>
   list_all2 (step_verdict env hits r) steps ress"
proof (induction env r prepare mocks steps w ress w' rule: ran_steps.induct)
  case (2 env r prepare mocks step steps w res ress w')
  then obtain w1 where w1: "ran_step env r (shared_prepare r) (mocksOf r) step w res w1"
    "ran_steps env r prepare mocks steps w1 ress w'" by auto
  with 2 ran_step_own[of env hits r w step res w1] show ?case by auto
qed auto

section \<open>Properties\<close>

text \<open>
  An environment to instantiate them: varnishd sends every request on to the first mock and
  answers 200; nothing else happens.
\<close>

definition demo_hits :: "Client \<Rightarrow> string HttpRequest \<Rightarrow> World \<Rightarrow> nat \<Rightarrow> nat" where
  "demo_hits c q w p = (if p = 0 \<and> mb_serving (w_mocks w ! 0) then 1 else 0)"

definition demoEnv :: "(string, string, 'x World_scheme) Env" where
  "demoEnv = \<lparr>ev_listen = (\<lambda>w. (Inr ''127.0.0.1:8081'', w)),
     ev_exec = (\<lambda>cmd w. (Inr \<lparr>statusCode = 200, payload = []\<rparr>, w)),
     ev_parseURL = Inr,
     ev_send = (\<lambda>c q w. (Inr (200, [(''X-Varnish'', [''5''])], Inr ''hi''),
       if w_mocks w \<noteq> [] \<and> mb_serving (w_mocks w ! 0)
       then updateMock 0 (\<lambda>m. m\<lparr>mb_callCount := mb_callCount m + 1\<rparr>) w else w)),
     ev_newJar = (\<lambda>w. w), ev_jar = (\<lambda>w u. []), ev_advance = (\<lambda>d w. (None, w)), ev_signal = (\<lambda>w. (True, w)), ev_logIO = (\<lambda>w. io_ok),
     ev_mkdirTemp = (\<lambda>w. (Inr ''/tmp/x'', w)), ev_mkdirAll = (\<lambda>p w. (None, w)),
     ev_writeFile = (\<lambda>p c w. (None, w)), ev_removeAll = (\<lambda>p w. w),
     ev_walk = (\<lambda>w. \<lparr>env_cwd = Inr ''/'', env_readFile = (\<lambda>p. Inr []),
       env_parse = (\<lambda>s p. Inr \<lparr>VCLVersion = None, Declarations = []\<rparr>), env_render = (\<lambda>p. [])\<rparr>),
     ev_lower = (\<lambda>s. s), ev_ordN = (\<lambda>xs. xs), ev_ordW = (\<lambda>xs. xs), ev_ordL = (\<lambda>xs. xs)\<rparr>"

abbreviation demo_env :: "(string, string, World) Env" where
  "demo_env \<equiv> demoEnv"

lemma serves_none: "serves m 0 m"
proof -
  have "mock_run (\<lambda>e. []) Hijacked (mock_init m) [] (mock_init m)" by (rule mock_run.intros(1))
  moreover have "ms_mock (mock_init m) = m" by (simp add: mock_init_def)
  moreover have "list_all traffic_event []" "arrivals [] = 0" by simp_all
  ultimately show ?thesis unfolding serves_def by blast
qed

lemma serves_one:
  assumes "mb_serving m"
  shows "serves m 1 (m\<lparr>mb_callCount := mb_callCount m + 1\<rparr>)"
proof -
  let ?e = "Arrive 0 (sample_incoming ''/'')"
  have "mock_exec (\<lambda>e. []) Hijacked ?e (mock_init m) =
      Some ((mock_init m)\<lparr>ms_mock := m\<lparr>mb_callCount := mb_callCount m + 1\<rparr>,
        ms_handlers := (ms_handlers (mock_init m))(0 := Some (Counted (sample_incoming ''/'')))\<rparr>)"
    using assms by (simp add: mock_init_def)
  then obtain t where "mock_exec (\<lambda>e. []) Hijacked ?e (mock_init m) = Some t"
    "ms_mock t = m\<lparr>mb_callCount := mb_callCount m + 1\<rparr>" by simp
  then have "mock_run (\<lambda>e. []) Hijacked (mock_init m) [?e] t" "ms_mock t = m\<lparr>mb_callCount := mb_callCount m + 1\<rparr>"
    by (auto intro: mock_exec_all_run)
  moreover have "ms_mock (mock_init m) = m" "list_all traffic_event [?e]" "arrivals [?e] = 1"
    by (simp_all add: mock_init_def traffic_event_def)
  ultimately show ?thesis unfolding serves_def by blast
qed

lemma sample_varnish_env: "varnish_env demo_env demo_hits"
proof -
  have "serves (w_mocks w ! p) (demo_hits c q w p) (w_mocks (snd (ev_send demo_env c q w)) ! p)"
    if "p < length (w_mocks w)" for c q p w
    using that serves_none serves_one
    by (auto simp: demoEnv_def demo_hits_def updateMock_nth)
  then show ?thesis
    unfolding varnish_env_def by (auto simp: demoEnv_def demo_hits_def)
qed

lemma single_test_spec:
  fixes env :: "('e, 'u, 'x World_scheme) Env"
  assumes "varnish_env env hits" "valid_ptrs (mocksOf r) w" "\<not> IsScenario test"
    and "RunTestWithSharedVCL env r test w = (Inr result, w')"
  shows "\<exists>q status hdrs body w1.
    sends_request (ev_parseURL env) (rn_varnishURL r) (ts_Request test) q \<and>
    ev_send env defaultClient q (resetCallCounts (mocksOf r) w) = (Inr (status, hdrs, Inr body), w1) \<and>
    w' = flushLog env r w1 \<and>
    res_TestName result = ts_Name test \<and>
    (res_Passed result \<longleftrightarrow>
       expectations_met (ts_Expectations test) \<lparr>resp_Status = status, resp_Headers = hdrs, resp_Body = body\<rparr>
         (calls_of (mocksOf r) (hits defaultClient q (resetCallCounts (mocksOf r) w))) (None :: 'u CookieJar option) None) \<and>
    (res_Errors result = [] \<longleftrightarrow> res_Passed result)"
proof -
  let ?w = "resetCallCounts (mocksOf r) w"
  have "requestAndCheck env r test (mocksOf r) (rn_vclShowResult r) ?w = (Inr result, w')"
    using assms(3,4) by (simp add: RunTestWithSharedVCL_def runSingleRequestTestWithSharedVCL_def split: if_splits)
  from requestAndCheck_verdict[OF this] obtain response w1 where
    v: "MakeRequest (ev_parseURL env) (ev_send env) None (rn_varnishURL r) (ts_Request test) ?w = (Inr response, w1)"
    "w' = flushLog env r w1" "res_TestName result = ts_Name test"
    "res_Passed result \<longleftrightarrow>
       expectations_met (ts_Expectations test) response (getCallCounts (mocksOf r) w') (None :: 'u CookieJar option) None"
    "res_Errors result = [] \<longleftrightarrow> res_Passed result" by metis
  from MakeRequest_sent[OF v(1)] obtain q where
    "sends_request (ev_parseURL env) (rn_varnishURL r) (ts_Request test) q" and
    send: "ev_send env defaultClient q ?w = (Inr (resp_Status response, resp_Headers response, Inr (resp_Body response)), w1)"
    by auto
  with v counts_flushed[OF assms(1,2) send, of r] show ?thesis
    by (intro exI[of _ q] exI[of _ "resp_Status response"] exI[of _ "resp_Headers response"]
        exI[of _ "resp_Body response"] exI[of _ w1]) simp
qed

text \<open>
  A single-request test on the shared VCL passes iff its expectations are met by the
  response to its request and the number of requests that this request caused at each mock
  backend, whatever the counters were before; it has errors iff it did not pass.
\<close>

lemma single_test_verdict:
  fixes env :: "('e, 'u, 'x World_scheme) Env"
  assumes "varnish_env env hits" "valid_ptrs (mocksOf r) w" "\<not> IsScenario test"
    and "RunTestWithSharedVCL env r test w = (Inr result, w')"
  shows "\<exists>q status hdrs body w1.
    sends_request (ev_parseURL env) (rn_varnishURL r) (ts_Request test) q \<and>
    ev_send env defaultClient q (resetCallCounts (mocksOf r) w) = (Inr (status, hdrs, Inr body), w1) \<and>
    w' = flushLog env r w1 \<and>
    res_TestName result = ts_Name test \<and>
    (res_Passed result \<longleftrightarrow>
       expectations_met (ts_Expectations test) \<lparr>resp_Status = status, resp_Headers = hdrs, resp_Body = body\<rparr>
         (calls_of (mocksOf r) (hits defaultClient q (resetCallCounts (mocksOf r) w))) (None :: 'u CookieJar option) None) \<and>
    (res_Errors result = [] \<longleftrightarrow> res_Passed result)"
  using assms by (rule single_test_spec)

definition demo_expectations :: ExpectationsSpec where
  "demo_expectations = \<lparr>es_Response = \<lparr>exp_Status = 200, exp_Headers = [], exp_BodyContains = ''h''\<rparr>,
     es_Backend = Some \<lparr>be_Name = [], be_Calls = Some 1, be_Used = ''api'', be_PerBackend = []\<rparr>,
     es_Cache = None, es_Cookies = []\<rparr>"

definition demo_request :: RequestSpec where
  "demo_request = \<lparr>req_Method = ''GET'', req_URL = ''/'', req_Headers = [], req_Body = []\<rparr>"

definition demo_test :: TestSpec where
  "demo_test = \<lparr>ts_Name = ''t'', ts_Request = demo_request, ts_Backends = [],
     ts_Expectations = demo_expectations, ts_Scenario = []\<rparr>"

definition demo_runner :: Runner where
  "demo_runner = SetTimeController (SetMockBackends [(''api'', 0)]
     ((runner_New ''http://v'' ''/w'' None)\<lparr>rn_loadedVCLName := ''boot''\<rparr>))"

text \<open>A world whose mock has already been called seven times.\<close>

definition demo_world :: World where
  "demo_world = \<lparr>w_mocks = [sample_mock\<lparr>mb_callCount := 7\<rparr>], w_log = Some []\<rparr>"

lemma demo_world_ok: "valid_ptrs (mocksOf demo_runner) demo_world"
  by (simp add: valid_ptrs_def mocksOf_def demo_runner_def SetTimeController_def SetMockBackends_def demo_world_def)

lemma demo_request_sent:
  "\<exists>response w'. MakeRequest (ev_parseURL demo_env) (ev_send demo_env) cl url demo_request w = (Inr response, w')"
proof -
  have "list_all token_byte ''GET''" by code_simp
  then show ?thesis by (simp add: MakeRequest_def NewRequest_def demoEnv_def demo_request_def)
qed

lemma demo_single_run:
  "\<exists>result w'. RunTestWithSharedVCL demo_env demo_runner demo_test demo_world = (Inr result, w')"
proof -
  have "rn_loadedVCLName demo_runner \<noteq> []" "\<not> IsScenario demo_test" "ts_Request demo_test = demo_request"
    by (simp_all add: demo_runner_def SetTimeController_def SetMockBackends_def demo_test_def IsScenario_def)
  with demo_request_sent[of None "rn_varnishURL demo_runner" "resetCallCounts (mocksOf demo_runner) demo_world"]
  show ?thesis
    by (auto simp: RunTestWithSharedVCL_def runSingleRequestTestWithSharedVCL_def requestAndCheck_def Let_def)
qed

lemma scenario_spec:
  assumes "varnish_env env hits" "valid_ptrs (mocksOf r) w" "distinct (map snd (mocksOf r))"
    and "list_all (\<lambda>s. wf_map (st_Backends s)) (ts_Scenario test)"
    and "runScenarioTestWithSharedVCL env r test w = (Inr result, w')"
  shows "\<exists>ress. ran_steps env r (shared_prepare r) (mocksOf r) (ts_Scenario test) (ev_newJar env w) ress w' \<and>
    list_all2 (step_verdict env hits r) (ts_Scenario test) ress \<and>
    (res_Passed result \<longleftrightarrow> list_all ar_Passed ress) \<and>
    res_Errors result = stepErrors 0 (ts_Scenario test) ress"
proof -
  from assms(5) obtain errors ff where
    l: "scenarioLoop env r (shared_prepare r) (mocksOf r) (ts_Scenario test) 0 [] (- 1) (ev_newJar env w) =
          (Inr (errors, ff), w')"
      "res_Passed result \<longleftrightarrow> errors = []" "res_Errors result = errors"
    by (auto simp: runScenarioTestWithSharedVCL_def runSteps_def Let_def split: if_splits prod.splits sum.splits)
  from scenarioLoop_spec[OF l(1)] obtain ress where
    s: "ran_steps env r (shared_prepare r) (mocksOf r) (ts_Scenario test) (ev_newJar env w) ress w'"
      "errors = stepErrors 0 (ts_Scenario test) ress" by auto
  have "valid_ptrs (mocksOf r) (ev_newJar env w)"
    using assms(2) env_keeps_length(3)[OF assms(1), of w] valid_ptrs_length by blast
  then have "list_all2 (step_verdict env hits r) (ts_Scenario test) ress"
    using ran_steps_own[OF s(1) refl refl assms(1) _ assms(3,4)] by blast
  with s l(2,3) stepErrors_Nil[OF s(1), of 0] show ?thesis by blast
qed

text \<open>
  C7. A scenario on the shared VCL runs all its steps in order, each at its time offset,
  with the backends the step overrides reconfigured. It passes iff every step passes, and a
  step passes iff its expectations are met by its response and by the calls its own request
  caused. The reported errors are those of the failing steps, in order, each with the number
  and the offset of its step.
\<close>

theorem scenario_verdict:
  assumes "varnish_env env hits" "valid_ptrs (mocksOf r) w" "distinct (map snd (mocksOf r))"
    and "list_all (\<lambda>s. wf_map (st_Backends s)) (ts_Scenario test)"
    and "runScenarioTestWithSharedVCL env r test w = (Inr result, w')"
  shows "\<exists>ress. ran_steps env r (shared_prepare r) (mocksOf r) (ts_Scenario test) (ev_newJar env w) ress w' \<and>
    list_all2 (step_verdict env hits r) (ts_Scenario test) ress \<and>
    (res_Passed result \<longleftrightarrow> list_all ar_Passed ress) \<and>
    res_Errors result = stepErrors 0 (ts_Scenario test) ress"
  using assms by (rule scenario_spec)

definition demo_scenario :: TestSpec where
  "demo_scenario = demo_test\<lparr>ts_Request := demo_request\<lparr>req_URL := []\<rparr>, ts_Scenario :=
     [\<lparr>st_At = ''0s'', st_Request = demo_request, st_Backends = [], st_Expectations = demo_expectations\<rparr>,
      \<lparr>st_At = ''1m30s'', st_Request = demo_request, st_Backends = [], st_Expectations = demo_expectations\<rparr>]\<rparr>"

lemma sample_offsets: "ParseDuration ''0s'' = Some 0" "ParseDuration ''1m30s'' = Some 90000000000"
proof -
  have "durationPart ''0s'' = Some (0, [])" "durationPart ''1m30s'' = Some (60000000000, ''30s'')"
    "durationPart ''30s'' = Some (30000000000, [])"
    by (simp_all add: durationPart_def leadingInt_def number_char_def is_digit_def byte_def digits_val_def unitOf_def)
  then have "durationLoop 0 ''0s'' = Some 0" "durationLoop 0 ''1m30s'' = Some 90000000000"
    by (simp_all add: durationLoop.simps)
  moreover have "parse_sign ''0s'' = (False, ''0s'')" "parse_sign ''1m30s'' = (False, ''1m30s'')" by code_simp+
  ultimately show "ParseDuration ''0s'' = Some 0" "ParseDuration ''1m30s'' = Some 90000000000"
    by (simp_all add: ParseDuration_def)
qed

lemma sample_loop:
  "list_all (\<lambda>s. ParseDuration (st_At s) \<noteq> None \<and> st_Request s = demo_request) steps \<Longrightarrow>
   \<exists>errors' ff' w'. scenarioLoop demo_env demo_runner prepare mocks steps k errors ff w = (Inr (errors', ff'), w')"
proof (induction steps arbitrary: k errors ff w)
  case (Cons step steps)
  then obtain d where d: "ParseDuration (st_At step) = Some d" "st_Request step = demo_request" by auto
  have a: "ev_advance demo_env d w = (None, w)" by (simp add: demoEnv_def)
  obtain response w2 where "MakeRequest (ev_parseURL demo_env) (ev_send demo_env) (Some scenarioClient)
      (rn_varnishURL demo_runner) demo_request (prepare step w) = (Inr response, w2)"
    using demo_request_sent by metis
  with d a Cons show ?case by (simp add: Let_def)
qed simp

theorem scenario_verdict_witness:
  "\<exists>result w'. runScenarioTestWithSharedVCL demo_env demo_runner demo_scenario demo_world = (Inr result, w') \<and>
     (\<exists>ress :: AssertResult list. length ress = 2 \<and> (res_Passed result \<longleftrightarrow> list_all ar_Passed ress))"
proof -
  have t: "rn_timeController demo_runner" by (simp add: demo_runner_def SetTimeController_def)
  have "list_all (\<lambda>s. ParseDuration (st_At s) \<noteq> None \<and> st_Request s = demo_request) (ts_Scenario demo_scenario)"
    by (simp add: demo_scenario_def sample_offsets)
  from sample_loop[OF this, of "shared_prepare demo_runner" "mocksOf demo_runner" 0 "[]" "- 1" "ev_newJar demo_env demo_world"]
  have "\<exists>result w'. runScenarioTestWithSharedVCL demo_env demo_runner demo_scenario demo_world = (Inr result, w')"
    by (auto simp: runScenarioTestWithSharedVCL_def t runSteps_def Let_def)
  then obtain result w' where run:
    "runScenarioTestWithSharedVCL demo_env demo_runner demo_scenario demo_world = (Inr result, w')" by blast
  have d: "distinct (map snd (mocksOf demo_runner))"
    by (simp add: mocksOf_def demo_runner_def SetTimeController_def SetMockBackends_def)
  have b: "list_all (\<lambda>s. wf_map (st_Backends s)) (ts_Scenario demo_scenario)" by (simp add: demo_scenario_def)
  from scenario_verdict[OF sample_varnish_env demo_world_ok d b run] obtain ress where
    "ran_steps demo_env demo_runner (shared_prepare demo_runner) (mocksOf demo_runner)
       (ts_Scenario demo_scenario) (ev_newJar demo_env demo_world) ress w'"
    "res_Passed result \<longleftrightarrow> list_all ar_Passed ress" by blast
  moreover have "length ress = 2" using ran_steps_length[OF calculation(1)] by (simp add: demo_scenario_def)
  ultimately show ?thesis using run by blast
qed

end
