(* ===== verification/RunnerCli.thy ===== *)
theory RunnerCli
  imports Runner
begin

text \<open>
  The commands the runner sends to varnishd while it loads, uses and discards VCLs. The
  locale \<open>runner_cli\<close> is the contract between the runner and its environment: commands are
  answered and logged as in \<open>cli_peer\<close>, and nothing else sends a command. It is interpreted
  on the environment \<open>serverEnv\<close>, in which commands go through the model of
  \<^verbatim>\<open>varnishadm.Server\<close> over its connection.
\<close>

section \<open>Operations that send no command\<close>

definition silent :: "('w \<Rightarrow> string list) \<Rightarrow> ('w \<Rightarrow> bool) \<Rightarrow> ('w \<Rightarrow> 'w) \<Rightarrow> bool" where
  "silent sent ok f \<longleftrightarrow> (\<forall>w. sent (f w) = sent w \<and> (ok w \<longrightarrow> ok (f w)))"

lemma silentD:
  "silent sent ok f \<Longrightarrow> sent (f w) = sent w" "silent sent ok f \<Longrightarrow> ok w \<Longrightarrow> ok (f w)"
  by (auto simp: silent_def)

lemma silent_apply:
  "silent sent ok (snd \<circ> f) \<Longrightarrow> f w = (a, w') \<Longrightarrow> sent w' = sent w \<and> (ok w \<longrightarrow> ok w')"
  by (metis comp_apply silent_def snd_conv)

lemma silent_comp: "silent sent ok f \<Longrightarrow> silent sent ok g \<Longrightarrow> silent sent ok (f \<circ> g)"
  by (simp add: silent_def)

lemma silent_id: "silent sent ok (\<lambda>w. w)"
  by (simp add: silent_def)

lemma silent_fold: "(\<And>x. x \<in> set xs \<Longrightarrow> silent sent ok (f x)) \<Longrightarrow> silent sent ok (fold f xs)"
  by (induction xs) (auto simp: silent_id id_def intro: silent_comp)

text \<open>The commands that load a VCL, and those that leave it.\<close>

definition load_commands :: "string \<Rightarrow> string \<Rightarrow> string list" where
  "load_commands name file = [''vcl.load '' @ name @ '' '' @ file, ''vcl.use '' @ name, ''vcl.show -v '' @ name]"

text \<open>The commands up to and including the first that is not answered with \<^verbatim>\<open>200\<close>.\<close>

fun until_refused :: "(string \<Rightarrow> VarnishResponse) \<Rightarrow> string list \<Rightarrow> string list" where
  "until_refused reply [] = []"
| "until_refused reply (cmd # cmds) =
     (if statusCode (reply cmd) = 200 then cmd # until_refused reply cmds else [cmd])"

definition leave_commands :: "string \<Rightarrow> string list" where
  "leave_commands name = [''vcl.use boot'', ''vcl.discard '' @ name]"

section \<open>The contract and the runner as its client\<close>

locale runner_cli = cli_peer "ev_exec env" sent ok reply
  for env :: "('e, 'u, 'x World_scheme) Env" and sent :: "'x World_scheme \<Rightarrow> string list"
    and ok :: "'x World_scheme \<Rightarrow> bool" and reply :: "string \<Rightarrow> VarnishResponse" +
  assumes silent_mocks: "silent sent ok (w_mocks_update ms)"
    and silent_listen: "silent sent ok (snd \<circ> ev_listen env)"
    and silent_send: "silent sent ok (snd \<circ> ev_send env c q)"
    and silent_newJar: "silent sent ok (ev_newJar env)"
    and silent_advance: "silent sent ok (snd \<circ> ev_advance env d)"
    and silent_signal: "silent sent ok (snd \<circ> ev_signal env)"
    and silent_mkdirTemp: "silent sent ok (snd \<circ> ev_mkdirTemp env)"
    and silent_mkdirAll: "silent sent ok (snd \<circ> ev_mkdirAll env p)"
    and silent_writeFile: "silent sent ok (snd \<circ> ev_writeFile env p s)"
    and silent_removeAll: "silent sent ok (ev_removeAll env p)"
begin

lemma silent_updateMock: "silent sent ok (updateMock p f)"
proof -
  have "updateMock p f w = w_mocks_update (\<lambda>ms. (w_mocks w)[p := f (w_mocks w ! p)]) w" for w :: "'x World_scheme"
    by (simp add: updateMock_def)
  then show ?thesis using silentD[OF silent_mocks] by (simp add: silent_def)
qed

lemma silent_stopAll: "silent sent ok (stopAll bm)"
  unfolding stopAll_def by (rule silent_fold) (auto intro: silent_updateMock)

lemma silent_flush: "silent sent ok (flushLog env r)"
  using silent_signal by (simp add: silent_def flushLog_def split: option.split)

lemma silent_MakeRequest: "silent sent ok (snd \<circ> MakeRequest pu (ev_send env) cl url req)"
proof -
  have "(\<exists>c q. snd (MakeRequest pu (ev_send env) cl url req w) = (snd \<circ> ev_send env c q) w) \<or>
      snd (MakeRequest pu (ev_send env) cl url req w) = w" for w
    by (auto simp: MakeRequest_def Let_def split: sum.split prod.split) (metis snd_conv)+
  note state = this
  show ?thesis
    unfolding silent_def comp_apply
  proof
    fix w
    show "sent (snd (MakeRequest pu (ev_send env) cl url req w)) = sent w \<and>
      (ok w \<longrightarrow> ok (snd (MakeRequest pu (ev_send env) cl url req w)))"
      using state[of w] silentD[OF silent_send] by (elim disjE exE) simp_all
  qed
qed

lemma silent_requestAndCheck: "silent sent ok (snd \<circ> requestAndCheck env r test bm vs)"
  unfolding silent_def comp_apply
  by (auto simp: requestAndCheck_def Let_def split: sum.split prod.split
      dest!: silent_apply[OF silent_MakeRequest] simp: silentD[OF silent_flush])

lemma silent_startLoop: "silent sent ok (snd \<circ> startLoop env specs bm addrs)"
proof -
  have "sent (snd (startLoop env specs bm addrs w)) = sent w \<and> (ok w \<longrightarrow> ok (snd (startLoop env specs bm addrs w)))" for w
  proof (induction specs arbitrary: bm addrs w)
    case (Cons a specs)
    obtain name spec where a: "a = (name, spec)" by (cases a)
    obtain l w1 where l: "ev_listen env w = (l, w1)" by (cases "ev_listen env w")
    note l' = silent_apply[OF silent_listen l]
    show ?case
      using l' Cons.IH silentD[OF silent_stopAll] silentD[OF silent_mocks]
      by (auto simp: a l mock_Start_def Let_def split: sum.split prod.split)
  qed simp
  then show ?thesis by (simp add: silent_def)
qed

lemma silent_writeFiles: "silent sent ok (snd \<circ> writeFiles env dir files main)"
proof -
  have "sent (snd (writeFiles env dir files main w)) = sent w \<and> (ok w \<longrightarrow> ok (snd (writeFiles env dir files main w)))" for w
  proof (induction files arbitrary: main w)
    case (Cons f files)
    then show ?case
      by (auto simp: Let_def split: prod.split option.split
          dest!: silent_apply[OF silent_mkdirAll] silent_apply[OF silent_writeFile])
  qed simp
  then show ?thesis by (simp add: silent_def)
qed

text \<open>How far loading gets depends only on the replies.\<close>

lemma loadAndUse_commands:
  assumes "ok w"
  shows "ok (snd (loadAndUse env name file w)) \<and>
    (\<exists>k. k \<le> 2 \<and> sent (snd (loadAndUse env name file w)) = sent w @ take k (load_commands name file) \<and>
       (fst (loadAndUse env name file w) = Inr () \<longrightarrow> k = 2)) \<and>
    (fst (loadAndUse env name file w) = Inr () \<longleftrightarrow>
       statusCode (reply (''vcl.load '' @ name @ '' '' @ file)) = ClisOk \<and> statusCode (reply (''vcl.use '' @ name)) = ClisOk) \<and>
    (\<forall>e. fst (loadAndUse env name file w) \<noteq> Inl (MakingRequest e))"
proof -
  let ?l = "''vcl.load '' @ name @ '' '' @ file" and ?u = "''vcl.use '' @ name"
  obtain w1 where l: "ev_exec env ?l w = (Inr (reply ?l), w1)" "sent w1 = sent w @ [?l]" "ok w1"
    using exec_replies[OF assms, of ?l] by auto
  obtain w2 where u: "ev_exec env ?u w1 = (Inr (reply ?u), w2)" "sent w2 = sent w1 @ [?u]" "ok w2"
    using exec_replies[OF l(3), of ?u] by auto
  show ?thesis
  proof (cases "statusCode (reply ?l) = ClisOk")
    case True
    have e: "loadAndUse env name file w =
        (if statusCode (reply ?u) \<noteq> ClisOk then Inl (ActivationFailed (payload (reply ?u))) else Inr (), w2)"
      using l(1) u(1) True by (simp add: loadAndUse_def VCLLoad_def VCLUse_def)
    have s: "sent w2 = sent w @ take 2 (load_commands name file)" using l(2) u(2) by (simp add: load_commands_def)
    show ?thesis using e s True u(3) by auto
  next
    case False
    then have e: "loadAndUse env name file w = (Inl (CompilationFailed (payload (reply ?l))), w1)"
      using l(1) by (simp add: loadAndUse_def VCLLoad_def)
    have s: "sent w1 = sent w @ take 1 (load_commands name file)" using l(2) by (simp add: load_commands_def)
    show ?thesis using e s False l(3) by (auto intro!: exI[of _ 1])
  qed
qed

lemma show_commands:
  assumes "ok w"
  obtains w' where "ok w'" "sent w' = sent w @ [''vcl.show -v '' @ name]"
    "snd (VCLShowStructured (ev_exec env) name w) = w'"
  using command_ok(4)[OF assms] command_sends(4)[OF assms] by blast

lemma discard_commands:
  assumes "ok w"
  shows "sent (discardVCL env name w) = sent w @ leave_commands name" "ok (discardVCL env name w)"
proof -
  let ?w1 = "snd (VCLUse (ev_exec env) ''boot'' w)"
  have d: "discardVCL env name w = snd (VCLDiscard (ev_exec env) name ?w1)"
    by (simp add: discardVCL_def Let_def case_prod_beta)
  have "ok ?w1" using command_ok(2)[OF assms] .
  then show "sent (discardVCL env name w) = sent w @ leave_commands name" "ok (discardVCL env name w)"
    using command_sends(2)[OF assms, of "''boot''"] command_sends(3) command_ok(3)
    by (simp_all add: d leave_commands_def)
qed

text \<open>Loading the shared VCL once its files are written.\<close>

lemma LoadVCL_commands:
  assumes "ok w" "processVCL env vclPath backends w = Inr files"
    and "writeFiles env (PathJoin [rn_workDir r, ''vcl'']) files [] w = (Inr file, w1)"
    and "LoadVCL env vclPath backends r w = (out, r', w')" "cmds = load_commands ''shared-vcl'' file"
  shows "ok w' \<and> sent w' = sent w @ until_refused reply cmds \<and>
    (statusCode (reply (cmds ! 0)) \<noteq> 200 \<longrightarrow> out = Inl (CompilationFailed (payload (reply (cmds ! 0))))) \<and>
    (statusCode (reply (cmds ! 0)) = 200 \<and> statusCode (reply (cmds ! 1)) \<noteq> 200 \<longrightarrow>
       out = Inl (ActivationFailed (payload (reply (cmds ! 1))))) \<and>
    (out = Inr () \<longleftrightarrow> list_all (\<lambda>c. statusCode (reply c) = 200) cmds \<and>
       (\<exists>vs. parseVCLShow (payload (reply (cmds ! 2))) = Inr vs)) \<and>
    (\<forall>vs. out = Inr () \<and> parseVCLShow (payload (reply (cmds ! 2))) = Inr vs \<longrightarrow>
       r' = r\<lparr>rn_loadedVCLName := ''shared-vcl'', rn_vclShowResult := Some vs\<rparr>) \<and>
    (out \<noteq> Inr () \<longrightarrow> r' = r)"
proof -
  let ?l = "''vcl.load shared-vcl '' @ file" and ?u = "''vcl.use shared-vcl''" and ?s = "''vcl.show -v shared-vcl''"
  note silent1 = silent_apply[OF silent_writeFiles assms(3)]
  have cmds: "cmds = [?l, ?u, ?s]" using assms(5) by (simp add: load_commands_def)
  obtain w2 where l: "ev_exec env ?l w1 = (Inr (reply ?l), w2)" "sent w2 = sent w1 @ [?l]" "ok w2"
    using exec_replies[of w1 ?l] silent1 assms(1) by auto
  obtain w3 where u: "ev_exec env ?u w2 = (Inr (reply ?u), w3)" "sent w3 = sent w2 @ [?u]" "ok w3"
    using exec_replies[OF l(3), of ?u] by auto
  obtain w4 where s: "ev_exec env ?s w3 = (Inr (reply ?s), w4)" "sent w4 = sent w3 @ [?s]" "ok w4"
    using exec_replies[OF u(3), of ?s] by auto
  have out: "LoadVCL env vclPath backends r w =
      (if statusCode (reply ?l) \<noteq> 200 then (Inl (CompilationFailed (payload (reply ?l))), r, w2)
       else if statusCode (reply ?u) \<noteq> 200 then (Inl (ActivationFailed (payload (reply ?u))), r, w3)
       else case fst (VCLShowStructured (ev_exec env) ''shared-vcl'' w3) of
              Inl err \<Rightarrow> (Inl (FetchingStructure err), r, w4)
            | Inr vs \<Rightarrow> (Inr (), r\<lparr>rn_loadedVCLName := ''shared-vcl'', rn_vclShowResult := Some vs\<rparr>, w4))"
    using assms(2,3) l(1) u(1) s(1)
    by (simp add: LoadVCL_def loadAndUse_def VCLLoad_def VCLUse_def VCLShowStructured_def VCLShow_def
        structured_def ClisOk_def split: sum.split)
  have "fst (VCLShowStructured (ev_exec env) ''shared-vcl'' w3) = Inr vs \<longleftrightarrow>
      statusCode (reply ?s) = 200 \<and> parseVCLShow (payload (reply ?s)) = Inr vs" for vs
    using s(1) by (auto simp: VCLShowStructured_def VCLShow_def structured_def ClisOk_def split: sum.splits)
      (cases "parseVCLShow (payload (reply ?s))"; auto)+
  with out silent1 assms(1,4) l(2,3) u(2,3) s(2,3) show ?thesis
    by (auto simp: cmds split: if_splits sum.splits)
qed

end

text \<open>
  What a run with its own VCL sends: the commands that load it and, only when there is a
  result, those that leave it. An error after loading, such as a failed request, leaves the
  VCL loaded and active.
\<close>

definition own_commands :: "string \<Rightarrow> string list \<Rightarrow> string list \<Rightarrow> ('e RunnerError, 'a) result \<Rightarrow> bool" where
  "own_commands n before after out \<longleftrightarrow>
     (\<exists>f. case out of
        Inr result \<Rightarrow> after = before @ load_commands n f @ leave_commands n
      | Inl e \<Rightarrow> (\<exists>k. k \<le> 3 \<and> after = before @ take k (load_commands n f) \<and>
          ((\<exists>x. e = MakingRequest x) \<longrightarrow> k = 3)))"

lemma own_commands_none: "\<nexists>x. e = MakingRequest x \<Longrightarrow> own_commands n before before (Inl e)"
  unfolding own_commands_def by (auto intro!: exI[of _ 0])

lemma startLoop_error: "fst (startLoop env specs bm addrs w) = Inl e \<Longrightarrow> \<nexists>x. e = MakingRequest x"
  by (induction env specs bm addrs w rule: startLoop.induct)
     (auto simp: Let_def mock_Start_def split: prod.splits sum.splits)

lemma writeFiles_error: "fst (writeFiles env dir files main w) = Inl e \<Longrightarrow> \<nexists>x. e = MakingRequest x"
proof (induction files arbitrary: main w)
  case (Cons f files)
  then show ?case by (auto simp: Let_def split: prod.splits option.splits)
qed simp

context runner_cli
begin

lemma withLoadedVCL_commands:
  assumes "ok w" and body: "\<And>vs. silent sent ok (snd \<circ> body vs)"
    and run: "withLoadedVCL env n f body w = (out, w')"
  shows "own_commands n (sent w) (sent w') out"
proof -
  obtain w1 k where u: "ok w1" "snd (loadAndUse env n f w) = w1" "k \<le> 2" "sent w1 = sent w @ take k (load_commands n f)"
    "fst (loadAndUse env n f w) = Inr () \<longrightarrow> k = 2" "\<forall>e. fst (loadAndUse env n f w) \<noteq> Inl (MakingRequest e)"
    using loadAndUse_commands[OF assms(1), of n f] by blast
  show ?thesis
  proof (cases "fst (loadAndUse env n f w)")
    case (Inl e)
    then have "loadAndUse env n f w = (Inl e, w1)" using u(2) by (metis prod.collapse)
    then have "out = Inl e \<and> w' = w1" using run by (simp add: withLoadedVCL_def)
    then show ?thesis using u(3,4,6) Inl unfolding own_commands_def by (auto intro!: exI[of _ f] exI[of _ k])
  next
    case (Inr x)
    then have l: "loadAndUse env n f w = (Inr (), w1)" "k = 2"
      using u(2,5) by (metis prod.collapse old.unit.exhaust)+
    obtain v w2 where v: "VCLShowStructured (ev_exec env) n w1 = (v, w2)"
      by (cases "VCLShowStructured (ev_exec env) n w1")
    then have s: "ok w2" "sent w2 = sent w @ load_commands n f"
      using show_commands[OF u(1), of n] u(4) l(2) by (auto simp: load_commands_def)
    define vs where "vs = (case v of Inl err \<Rightarrow> None | Inr vs \<Rightarrow> Some vs)"
    obtain res w3 where b: "body vs w2 = (res, w3)" by (cases "body vs w2")
    have w3: "ok w3" "sent w3 = sent w @ load_commands n f" using silent_apply[OF body b] s by auto
    show ?thesis
    proof (cases res)
      case (Inl e)
      then have "out = Inl e \<and> w' = w3" using run l(1) v b by (simp add: withLoadedVCL_def vs_def)
      then show ?thesis
        using w3(2) unfolding own_commands_def by (auto simp: load_commands_def intro!: exI[of _ f] exI[of _ 3])
    next
      case (Inr result)
      then have "out = Inr result \<and> w' = discardVCL env n w3" using run l(1) v b by (simp add: withLoadedVCL_def vs_def)
      then show ?thesis
        using w3 discard_commands[OF w3(1), of n] unfolding own_commands_def by (auto intro!: exI[of _ f])
    qed
  qed
qed

lemma withTempVCL_commands:
  assumes "ok w" and body: "\<And>vs. silent sent ok (snd \<circ> body vs)"
    and run: "withTempVCL env n vclPath addrs body w = (out, w')"
  shows "own_commands n (sent w) (sent w') out"
proof (cases "processVCL env vclPath addrs w")
  case (Inl e)
  then have "out = Inl e \<and> w' = w \<and> (\<nexists>x. e = MakingRequest x)"
    using run by (auto simp: withTempVCL_def processVCL_def split: sum.splits prod.splits)
  then show ?thesis using own_commands_none by blast
next
  case (Inr files)
  obtain t w1 where t: "ev_mkdirTemp env w = (t, w1)" by (cases "ev_mkdirTemp env w")
  note w1 = silent_apply[OF silent_mkdirTemp t]
  show ?thesis
  proof (cases t)
    case (Inl e)
    then have "out = Inl (CreatingTempDir e) \<and> w' = w1" using run Inr t by (simp add: withTempVCL_def)
    then show ?thesis using w1 own_commands_none[of "CreatingTempDir e"] by simp
  next
    case (Inr dir)
    obtain wf w2 where f: "writeFiles env dir files [] w1 = (wf, w2)" by (cases "writeFiles env dir files [] w1")
    note w2 = silent_apply[OF silent_writeFiles f]
    have rem: "sent (ev_removeAll env dir w3) = sent w3" for w3 by (rule silentD(1)[OF silent_removeAll])
    show ?thesis
    proof (cases wf)
      case (Inl e)
      then have "out = Inl e \<and> w' = ev_removeAll env dir w2" "\<nexists>x. e = MakingRequest x"
        using run \<open>processVCL env vclPath addrs w = Inr files\<close> t Inr f writeFiles_error[of env dir files "[]" w1 e]
        by (simp_all add: withTempVCL_def)
      then show ?thesis using w1 w2 rem own_commands_none[of e] by simp
    next
      case (Inr f0)
      obtain w3 where "withLoadedVCL env n f0 body w2 = (out, w3)" "w' = ev_removeAll env dir w3"
        using run \<open>processVCL env vclPath addrs w = Inr files\<close> t \<open>t = Inr dir\<close> f Inr
        by (cases "withLoadedVCL env n f0 body w2") (auto simp: withTempVCL_def)
      then show ?thesis using withLoadedVCL_commands[of w2 body n f0 out w3, OF _ body] w1 w2 assms(1) rem by simp
    qed
  qed
qed

lemma withTestVCL_commands:
  assumes "ok w" and body: "\<And>bm vs. silent sent ok (snd \<circ> body bm vs)"
    and run: "withTestVCL env test vclPath body w = (out, w')"
  shows "own_commands (sanitizeVCLName (ev_lower env) (ts_Name test)) (sent w) (sent w') out"
proof -
  obtain st w1 where s: "startBackends env test w = (st, w1)" by (cases "startBackends env test w")
  note w1 = silent_apply[OF silent_startLoop s[unfolded startBackends_def]]
  show ?thesis
  proof (cases st)
    case (Inl e)
    then have "out = Inl e \<and> w' = w1" using run s by (simp add: withTestVCL_def)
    moreover have "\<nexists>x. e = MakingRequest x" using s Inl startLoop_error by (metis startBackends_def fst_conv)
    ultimately show ?thesis using w1 own_commands_none[of e] by simp
  next
    case (Inr ba)
    obtain bm addrs where ba: "ba = (bm, addrs)" by (cases ba)
    obtain w2 where "withTempVCL env (sanitizeVCLName (ev_lower env) (ts_Name test)) vclPath addrs (body bm) w1 = (out, w2)"
      "w' = stopAll bm w2"
      using run s Inr ba
      by (cases "withTempVCL env (sanitizeVCLName (ev_lower env) (ts_Name test)) vclPath addrs (body bm) w1")
         (auto simp: withTestVCL_def)
    then show ?thesis
      using withTempVCL_commands[of w1 "body bm", OF _ body] w1 assms(1) silentD(1)[OF silent_stopAll] by simp
  qed
qed

end

section \<open>The runner over the varnishadm server\<close>

text \<open>
  The world of a runner whose commands go through \<^verbatim>\<open>varnishadm.Server\<close>: the server, its
  connection, and the rest. \<open>base\<close> is any environment without them; its own executor is not
  used.
\<close>

record 'b BaseWorld = World +
  bw_rest :: 'b

record 'b ServerWorld = World +
  sw_server :: Server
  sw_conn :: Conn
  sw_rest :: 'b

definition baseOf :: "'b ServerWorld \<Rightarrow> 'b BaseWorld" where
  "baseOf w = \<lparr>w_mocks = w_mocks w, w_log = w_log w, bw_rest = sw_rest w\<rparr>"

definition putBase :: "'b ServerWorld \<Rightarrow> 'b BaseWorld \<Rightarrow> 'b ServerWorld" where
  "putBase w b = w\<lparr>w_mocks := w_mocks b, w_log := w_log b, sw_rest := bw_rest b\<rparr>"

definition onBase :: "('b BaseWorld \<Rightarrow> 'a \<times> 'b BaseWorld) \<Rightarrow> 'b ServerWorld \<Rightarrow> 'a \<times> 'b ServerWorld" where
  "onBase f w = apsnd (putBase w) (f (baseOf w))"

definition serverEnv ::
  "string \<Rightarrow> (string, 'u, 'b BaseWorld) Env \<Rightarrow> (string, 'u, 'b ServerWorld) Env" where
  "serverEnv now base =
     \<lparr>ev_listen = onBase (ev_listen base),
      ev_exec = (\<lambda>cmd w. case server_Exec now cmd (sw_server w, sw_conn w) of
                   (r, (v, c)) \<Rightarrow> (r, w\<lparr>sw_server := v, sw_conn := c\<rparr>)),
      ev_parseURL = ev_parseURL base,
      ev_send = (\<lambda>c q. onBase (ev_send base c q)),
      ev_newJar = (\<lambda>w. putBase w (ev_newJar base (baseOf w))),
      ev_jar = (\<lambda>w. ev_jar base (baseOf w)),
      ev_advance = (\<lambda>d. onBase (ev_advance base d)),
      ev_signal = onBase (ev_signal base),
      ev_logIO = (\<lambda>w. ev_logIO base (baseOf w)),
      ev_mkdirTemp = onBase (ev_mkdirTemp base),
      ev_mkdirAll = (\<lambda>p. onBase (ev_mkdirAll base p)),
      ev_writeFile = (\<lambda>p c. onBase (ev_writeFile base p c)),
      ev_removeAll = (\<lambda>p w. putBase w (ev_removeAll base p (baseOf w))),
      ev_walk = (\<lambda>w. ev_walk base (baseOf w)),
      ev_lower = ev_lower base, ev_ordN = ev_ordN base, ev_ordW = ev_ordW base, ev_ordL = ev_ordL base\<rparr>"

definition cliOf :: "'b ServerWorld \<Rightarrow> Server \<times> Conn" where
  "cliOf w = (sw_server w, sw_conn w)"

lemma putBase_cli [simp]: "cliOf (putBase w b) = cliOf w"
  by (simp add: cliOf_def putBase_def)

lemma onBase_cli [simp]: "cliOf (snd (onBase f w)) = cliOf w"
  by (simp add: onBase_def)

lemma onBase_silent: "silent (server_sent \<circ> cliOf) (in_step reply \<circ> cliOf) (snd \<circ> onBase f)"
  by (simp add: silent_def)

lemma exec_cli:
  "cliOf (snd (ev_exec (serverEnv now base) cmd w)) = snd (server_Exec now cmd (cliOf w))"
  "fst (ev_exec (serverEnv now base) cmd w) = fst (server_Exec now cmd (cliOf w))"
  by (simp_all add: serverEnv_def cliOf_def split: prod.split)

interpretation rs: runner_cli "serverEnv now base" "server_sent \<circ> cliOf" "in_step reply \<circ> cliOf" reply
  for now base reply
proof unfold_locales
  fix w :: "'b ServerWorld" and cmd :: string
  assume "(in_step reply \<circ> cliOf) w" and c: "cmd \<noteq> []"
  then have s: "in_step reply (cliOf w)" by simp
  show "(server_sent \<circ> cliOf) (snd (ev_exec (serverEnv now base) cmd w)) = (server_sent \<circ> cliOf) w @ [cmd]"
    using srv.exec_sent[OF s c] by (simp add: exec_cli)
  show "(in_step reply \<circ> cliOf) (snd (ev_exec (serverEnv now base) cmd w))"
    using srv.exec_ok[OF s c] by (simp add: exec_cli)
  show "fst (ev_exec (serverEnv now base) cmd w) = Inr (reply cmd)"
    using srv.exec_reply[OF s c] by (simp add: exec_cli)
qed (simp_all add: serverEnv_def onBase_silent, simp_all add: silent_def cliOf_def putBase_def)

section \<open>Properties\<close>

abbreviation cli_lines :: "'b ServerWorld \<Rightarrow> string list" where
  "cli_lines w \<equiv> server_sent (cliOf w)"

text \<open>
  C9. Loading the shared VCL over the varnishadm connection sends load, use and show, in
  this order, and nothing after the first that varnishd does not answer with status 200. A
  refused load or use is reported with varnishd's text. Loading succeeds iff all three are
  answered with 200 and the last answer parses; then the runner holds the name and the parsed
  structure, and otherwise it is unchanged. Unloading switches to the boot VCL before the
  discard and always leaves the runner without a VCL.
\<close>

theorem shared_vcl_commands:
  fixes base :: "(string, 'u, 'b BaseWorld) Env"
  assumes "in_step reply (cliOf w)" "env = serverEnv now base"
    and "processVCL env vclPath backends w = Inr files"
    and "writeFiles env (PathJoin [rn_workDir r, ''vcl'']) files [] w = (Inr file, w1)"
    and "LoadVCL env vclPath backends r w = (out, r', w')" "cmds = load_commands ''shared-vcl'' file"
  shows "cli_lines w' = cli_lines w @ until_refused reply cmds \<and>
    (statusCode (reply (cmds ! 0)) \<noteq> 200 \<longrightarrow> out = Inl (CompilationFailed (payload (reply (cmds ! 0))))) \<and>
    (statusCode (reply (cmds ! 0)) = 200 \<and> statusCode (reply (cmds ! 1)) \<noteq> 200 \<longrightarrow>
       out = Inl (ActivationFailed (payload (reply (cmds ! 1))))) \<and>
    (out = Inr () \<longleftrightarrow> list_all (\<lambda>c. statusCode (reply c) = 200) cmds \<and>
       (\<exists>vs. parseVCLShow (payload (reply (cmds ! 2))) = Inr vs)) \<and>
    (\<forall>vs. out = Inr () \<and> parseVCLShow (payload (reply (cmds ! 2))) = Inr vs \<longrightarrow>
       r' = r\<lparr>rn_loadedVCLName := ''shared-vcl'', rn_vclShowResult := Some vs\<rparr>) \<and>
    (out \<noteq> Inr () \<longrightarrow> r' = r) \<and>
    (out = Inr () \<longrightarrow>
      (\<exists>w''. UnloadVCL env r' w' = (r'\<lparr>rn_loadedVCLName := [], rn_vclShowResult := None\<rparr>, w'') \<and>
         cli_lines w'' = cli_lines w' @ leave_commands ''shared-vcl''))"
proof -
  from rs.LoadVCL_commands[of reply w now base vclPath backends files r "file" w1 out r' w' cmds] assms
  have l: "in_step reply (cliOf w') \<and> cli_lines w' = cli_lines w @ until_refused reply cmds \<and>
    (statusCode (reply (cmds ! 0)) \<noteq> 200 \<longrightarrow> out = Inl (CompilationFailed (payload (reply (cmds ! 0))))) \<and>
    (statusCode (reply (cmds ! 0)) = 200 \<and> statusCode (reply (cmds ! 1)) \<noteq> 200 \<longrightarrow>
       out = Inl (ActivationFailed (payload (reply (cmds ! 1))))) \<and>
    (out = Inr () \<longleftrightarrow> list_all (\<lambda>c. statusCode (reply c) = 200) cmds \<and>
       (\<exists>vs. parseVCLShow (payload (reply (cmds ! 2))) = Inr vs)) \<and>
    (\<forall>vs. out = Inr () \<and> parseVCLShow (payload (reply (cmds ! 2))) = Inr vs \<longrightarrow>
       r' = r\<lparr>rn_loadedVCLName := ''shared-vcl'', rn_vclShowResult := Some vs\<rparr>) \<and>
    (out \<noteq> Inr () \<longrightarrow> r' = r)" by simp
  then have d: "cli_lines (discardVCL env ''shared-vcl'' w') = cli_lines w' @ leave_commands ''shared-vcl''"
    using rs.discard_commands(1)[of reply w' now base "''shared-vcl''"] assms(2) by simp
  have "rn_loadedVCLName r' = ''shared-vcl''" if success: "out = Inr ()"
  proof -
    obtain vs where "r' = r\<lparr>rn_loadedVCLName := ''shared-vcl'', rn_vclShowResult := Some vs\<rparr>" using l success by blast
    then show ?thesis by simp
  qed
  with l d show ?thesis by (auto simp: UnloadVCL_def)
qed

text \<open>
  C18. A single-request test that brings its own VCL loads, uses and shows it under its
  sanitized name, and when it produces a result it has switched back to the boot VCL and
  discarded its own. When the request fails it has sent the loading commands only: the VCL
  stays loaded and active.
\<close>

theorem own_vcl_commands:
  fixes base :: "(string, 'u, 'b BaseWorld) Env"
  assumes "in_step reply (cliOf w)" "\<not> IsScenario test"
    and "RunTest (serverEnv now base) r test vclPath w = (out, w')"
  shows "own_commands (sanitizeVCLName (ev_lower base) (ts_Name test)) (cli_lines w) (cli_lines w') out"
proof -
  have "withTestVCL (serverEnv now base) test vclPath (requestAndCheck (serverEnv now base) r test) w = (out, w')"
    using assms(2,3) by (simp add: RunTest_def runSingleRequestTest_def)
  from rs.withTestVCL_commands[OF _ rs.silent_requestAndCheck this, of reply] assms(1)
  show ?thesis by (simp add: serverEnv_def)
qed

definition demo_conn :: Conn where
  "demo_conn = \<lparr>cn_in = [], cn_out = [], cn_peer = (\<lambda>l. [encodeResponse 200 []]), cn_open = True\<rparr>"

definition demo_server_world :: "unit ServerWorld" where
  "demo_server_world = \<lparr>w_mocks = [], w_log = Some [], sw_server = server_New 0 ''s'', sw_conn = demo_conn, sw_rest = ()\<rparr>"

abbreviation demo_reply :: "string \<Rightarrow> VarnishResponse" where
  "demo_reply \<equiv> \<lambda>cmd. \<lparr>statusCode = 200, payload = []\<rparr>"

lemma demo_in_step: "in_step demo_reply (cliOf demo_server_world)"
  by (simp add: in_step_def cliOf_def demo_server_world_def demo_conn_def answers_def framable_def encodeResponse_def)

lemma demo_process:
  "processVCL (serverEnv ''t'' demoEnv) ''m.vcl'' [] demo_server_world =
     Inr [\<lparr>AbsolutePath = ''/m.vcl'', RelativePath = ''m.vcl'', Content = []\<rparr>]"
  by code_simp

lemma demo_write:
  "writeFiles (serverEnv ''t'' demoEnv) dir [\<lparr>AbsolutePath = a, RelativePath = ''m.vcl'', Content = c\<rparr>] [] demo_server_world =
     (Inr (PathJoin [dir, ''m.vcl'']), demo_server_world)"
  by (simp add: serverEnv_def demoEnv_def onBase_def putBase_def baseOf_def demo_server_world_def Let_def)

theorem shared_vcl_commands_witness:
  "in_step demo_reply (cliOf demo_server_world) \<and>
   (\<exists>r' w'. LoadVCL (serverEnv ''t'' demoEnv) ''m.vcl'' [] demo_runner demo_server_world = (Inr (), r', w') \<and>
      rn_loadedVCLName r' = ''shared-vcl'' \<and>
      cli_lines w' = load_commands ''shared-vcl'' (PathJoin [''/w/vcl'', ''m.vcl'']))"
proof -
  obtain out r' w' where l: "LoadVCL (serverEnv ''t'' demoEnv) ''m.vcl'' [] demo_runner demo_server_world = (out, r', w')"
    by (cases "LoadVCL (serverEnv ''t'' demoEnv) ''m.vcl'' [] demo_runner demo_server_world")
  have d: "PathJoin [rn_workDir demo_runner, ''vcl''] = ''/w/vcl''" by code_simp
  have c: "cli_lines demo_server_world = []"
    by (simp add: server_sent_def cliOf_def demo_server_world_def demo_conn_def)
  have p: "parseVCLShow [] = Inr \<lparr>vs_Entries = [], vs_ConfigMap = [], vs_VCLSource = []\<rparr>" by code_simp
  note r = shared_vcl_commands[OF demo_in_step refl demo_process demo_write l refl]
  have ok: "out = Inr ()" using r p by (simp add: load_commands_def)
  moreover have "rn_loadedVCLName r' = ''shared-vcl''" using r p ok by simp
  moreover have "cli_lines w' = load_commands ''shared-vcl'' (PathJoin [''/w/vcl'', ''m.vcl''])"
    using r c unfolding d by (simp add: load_commands_def)
  ultimately show ?thesis using l demo_in_step by blast
qed

theorem own_vcl_commands_witness:
  "\<exists>out w'. RunTest (serverEnv ''t'' demoEnv) demo_runner demo_test ''m.vcl'' demo_server_world = (out, w') \<and>
     own_commands ''test-t'' [] (cli_lines w') out"
proof -
  obtain out w' where l: "RunTest (serverEnv ''t'' demoEnv) demo_runner demo_test ''m.vcl'' demo_server_world = (out, w')"
    by (cases "RunTest (serverEnv ''t'' demoEnv) demo_runner demo_test ''m.vcl'' demo_server_world")
  have n: "\<not> IsScenario demo_test" by (simp add: IsScenario_def demo_test_def)
  have s: "sanitizeVCLName (\<lambda>s. s) ''t'' = ''test-t''" by code_simp
  have "cli_lines demo_server_world = []"
    by (simp add: server_sent_def cliOf_def demo_server_world_def demo_conn_def)
  with own_vcl_commands[OF demo_in_step n l] s l show ?thesis by (simp add: demoEnv_def demo_test_def)
qed

end
