(* ===== verification/HarnessTests.thy ===== *)
theory HarnessTests
  imports Runner
begin

text \<open>
  The part of package \<^verbatim>\<open>harness\<close> that runs the tests: \<^verbatim>\<open>backends.go\<close> (one mock backend per
  name, shared by all tests), \<^verbatim>\<open>config.go\<close>, and of \<^verbatim>\<open>harness.go\<close> the reconfiguration of the
  mocks for a test and the loop over the tests. \<^verbatim>\<open>convertRoutes\<close> and the construction of a
  configuration are textually those of the runner.
\<close>

section \<open>Configuration and result\<close>

record HarnessConfig =
  hc_TestFile :: string
  hc_VCLPath :: string
  hc_Verbose :: bool
  hc_DebugDump :: bool

record 'e HarnessResult =
  hr_Passed :: nat
  hr_Failed :: nat
  hr_Total :: nat
  hr_Results :: "'e TestResult list"
  hr_DebugDumpPath :: string

section \<open>Addresses\<close>

text \<open>\<^verbatim>\<open>net.SplitHostPort\<close>: the port follows the last colon; brackets enclose an IPv6 host.\<close>

definition afterLastColon :: "string \<Rightarrow> string" where
  "afterLastColon s = rev (takeWhile (\<lambda>c. c \<noteq> CHR '':'') (rev s))"

definition SplitHostPort :: "string \<Rightarrow> (string \<times> string) option" where
  "SplitHostPort hostport =
     (if CHR '':'' \<notin> set hostport then None
      else
        let port = afterLastColon hostport;
            i = length hostport - length port - 1
        in if hostport ! 0 = CHR ''['' then
             (if CHR '']'' \<notin> set hostport then None
              else let e = length (takeWhile (\<lambda>c. c \<noteq> CHR '']'') hostport) in
                if e + 1 \<noteq> i then None
                else if CHR ''['' \<in> set (drop 1 hostport) \<or> CHR '']'' \<in> set (drop (e + 1) hostport) then None
                else Some (drop 1 (take e hostport), port))
           else if CHR '':'' \<in> set (take i hostport) then None
           else if CHR ''['' \<in> set hostport \<or> CHR '']'' \<in> set hostport then None
           else Some (take i hostport, port))"

definition parseAddress :: "string \<Rightarrow> (string, string \<times> string) result" where
  "parseAddress addr =
     (case SplitHostPort addr of
        None \<Rightarrow> Inl addr
      | Some (host, portStr) \<Rightarrow> (case Atoi portStr of None \<Rightarrow> Inl addr | Some p \<Rightarrow> Inr (host, portStr)))"

section \<open>Starting the mock backends\<close>

definition addFirst :: "string \<times> BackendSpec \<Rightarrow> (string, BackendSpec) gomap \<Rightarrow> (string, BackendSpec) gomap" where
  "addFirst ns m = (case mget m (fst ns) of Some s \<Rightarrow> m | None \<Rightarrow> mput (fst ns) (snd ns) m)"

definition collectConfigs :: "TestSpec list \<Rightarrow> (string, BackendSpec) gomap" where
  "collectConfigs tests = fold (\<lambda>test m. fold addFirst (ts_Backends test) m) tests []"

definition okBackend :: BackendSpec where
  "okBackend = \<lparr>bs_Status = 200, bs_Headers = None, bs_Body = [], bs_FailureMode = [], bs_Routes = None, bs_EchoRequest = False\<rparr>"

fun startAllLoop ::
  "('e, 'u, 'x World_scheme) Env \<Rightarrow> (string \<times> BackendSpec) list \<Rightarrow> mock_ptrs \<Rightarrow>
   (string, BackendAddress) gomap \<Rightarrow> 'x World_scheme \<Rightarrow>
   ('e RunnerError, (string, BackendAddress) gomap \<times> mock_ptrs) result \<times> 'x World_scheme" where
  "startAllLoop env [] mockBackends addresses w = (Inr (addresses, mockBackends), w)"
| "startAllLoop env ((name, spec) # specs) mockBackends addresses w =
     (let (listen, w1) = ev_listen env w in
      case mock_Start listen (mock_New (backendConfig spec)) of
        (Inl err, mock) \<Rightarrow> (Inl (StartingBackend name err), stopAll mockBackends w1)
      | (Inr addr, mock) \<Rightarrow>
          let w2 = w1\<lparr>w_mocks := w_mocks w1 @ [mock]\<rparr> in
          case parseAddress addr of
            Inl a \<Rightarrow> (Inl (ParsingAddress name a), stopAll mockBackends w2)
          | Inr (host, port) \<Rightarrow>
              startAllLoop env specs (mput name (length (w_mocks w1)) mockBackends)
                (mput name \<lparr>Host = host, Port = port\<rparr> addresses) w2)"

text \<open>\<open>ord\<close> is the order in which the collected configurations are visited.\<close>

definition startAllBackends ::
  "((string \<times> BackendSpec) list \<Rightarrow> (string \<times> BackendSpec) list) \<Rightarrow> ('e, 'u, 'x World_scheme) Env \<Rightarrow>
   TestSpec list \<Rightarrow> 'x World_scheme \<Rightarrow>
   ('e RunnerError, (string, BackendAddress) gomap \<times> mock_ptrs) result \<times> 'x World_scheme" where
  "startAllBackends ord env tests w =
     (let collected = collectConfigs tests;
          backendConfigs = (if length collected = 0 then mput ''default'' okBackend collected else collected)
      in startAllLoop env (ord backendConfigs) [] [] w)"

section \<open>Running the tests\<close>

definition configureBackendsForTest :: "mock_ptrs \<Rightarrow> TestSpec \<Rightarrow> 'x World_scheme \<Rightarrow> 'x World_scheme" where
  "configureBackendsForTest mockBackends test w =
     fold (\<lambda>(name, spec) w.
       case mget mockBackends name of
         None \<Rightarrow> w
       | Some mock \<Rightarrow> updateMock mock (UpdateConfig (backendConfig spec)) w) (ts_Backends test) w"

definition failedResult :: "TestSpec \<Rightarrow> 'e TestError \<Rightarrow> 'e TestResult" where
  "failedResult test err =
     \<lparr>res_TestName = ts_Name test, res_Passed = False, res_Errors = [err], res_VCLTrace = None\<rparr>"

definition addFailed :: "'e TestResult \<Rightarrow> 'e HarnessResult \<Rightarrow> 'e HarnessResult" where
  "addFailed tr result = result\<lparr>hr_Failed := hr_Failed result + 1, hr_Results := hr_Results result @ [tr]\<rparr>"

definition addResult :: "'e TestResult \<Rightarrow> 'e HarnessResult \<Rightarrow> 'e HarnessResult" where
  "addResult tr result =
     (if res_Passed tr then result\<lparr>hr_Passed := hr_Passed result + 1, hr_Results := hr_Results result @ [tr]\<rparr>
      else result\<lparr>hr_Failed := hr_Failed result + 1, hr_Results := hr_Results result @ [tr]\<rparr>)"

fun runTestsLoop ::
  "('e, 'u, 'x World_scheme) Env \<Rightarrow> Runner \<Rightarrow> mock_ptrs \<Rightarrow> TestSpec list \<Rightarrow> 'e HarnessResult \<Rightarrow> 'x World_scheme \<Rightarrow>
   'e HarnessResult \<times> 'x World_scheme" where
  "runTestsLoop env r mockBackends [] result w = (result, w)"
| "runTestsLoop env r mockBackends (test # tests) result w =
     (case BanNukeCache (ev_exec env) w of
        (Inl err, w1) \<Rightarrow>
          runTestsLoop env r mockBackends tests (addFailed (failedResult test (NukeFailed err)) result) w1
      | (Inr resp, w1) \<Rightarrow>
          (case RunTestWithSharedVCL env r test (configureBackendsForTest mockBackends test w1) of
             (Inl err, w2) \<Rightarrow>
               runTestsLoop env r mockBackends tests (addFailed (failedResult test (RunFailed err)) result) w2
           | (Inr testResult, w2) \<Rightarrow>
               runTestsLoop env r mockBackends tests (addResult testResult result) w2))"

definition harness_runTests ::
  "('e, 'u, 'x World_scheme) Env \<Rightarrow> Runner \<Rightarrow> mock_ptrs \<Rightarrow> TestSpec list \<Rightarrow> 'x World_scheme \<Rightarrow>
   'e HarnessResult \<times> 'x World_scheme" where
  "harness_runTests env r mockBackends tests w =
     runTestsLoop env r mockBackends tests
       \<lparr>hr_Passed = 0, hr_Failed = 0, hr_Total = length tests, hr_Results = [], hr_DebugDumpPath = []\<rparr> w"

section \<open>The verdict of a test run\<close>

lemma configure_is_update: "configureBackendsForTest bm test w = updateBackends bm (ts_Backends test) w"
  by (simp add: configureBackendsForTest_def updateBackends_def)

text \<open>
  The mocks after the reconfiguration for a test: those the test names have the test's
  configuration, the others keep the one they had.
\<close>

definition configured :: "mock_ptrs \<Rightarrow> TestSpec \<Rightarrow> 'x World_scheme \<Rightarrow> 'x World_scheme \<Rightarrow> bool" where
  "configured bm test w w' \<longleftrightarrow>
     (\<forall>name p. mget bm name = Some p \<longrightarrow>
        mb_config (w_mocks w' ! p) =
          (case mget (ts_Backends test) name of
             Some spec \<Rightarrow> backendConfig spec
           | None \<Rightarrow> mb_config (w_mocks w ! p)))"

text \<open>
  A test of one request, from the state \<open>w\<close> to the state \<open>w'\<close>: with the counters at zero the
  request of the test was sent to the runner's URL, and the test passed iff its expectations are
  met by the response and by the calls this request caused; or there was no response, and
  that is the error.
\<close>

definition single_ran ::
  "('e, 'u, 'x World_scheme) Env \<Rightarrow> (Client \<Rightarrow> 'u HttpRequest \<Rightarrow> 'x World_scheme \<Rightarrow> nat \<Rightarrow> nat) \<Rightarrow> Runner \<Rightarrow>
   TestSpec \<Rightarrow> 'x World_scheme \<Rightarrow> 'e TestResult \<Rightarrow> 'x World_scheme \<Rightarrow> bool" where
  "single_ran env hits r test w res w' \<longleftrightarrow>
     (\<exists>q status hdrs body w1.
        sends_request (ev_parseURL env) (rn_varnishURL r) (ts_Request test) q \<and>
        ev_send env defaultClient q (resetCallCounts (mocksOf r) w) = (Inr (status, hdrs, Inr body), w1) \<and>
        w' = flushLog env r w1 \<and>
        (res_Passed res \<longleftrightarrow>
           expectations_met (ts_Expectations test) \<lparr>resp_Status = status, resp_Headers = hdrs, resp_Body = body\<rparr>
             (calls_of (mocksOf r) (hits defaultClient q (resetCallCounts (mocksOf r) w)))
             (None :: 'u CookieJar option) None)) \<or>
     (\<exists>x. MakeRequest (ev_parseURL env) (ev_send env) None (rn_varnishURL r) (ts_Request test)
            (resetCallCounts (mocksOf r) w) = (Inl x, w') \<and>
          res_Errors res = [RunFailed (MakingRequest x)])"

text \<open>
  A scenario: all its steps ran in order, with a new cookie jar, and it passed iff they all
  passed; or the steps before some step ran, that one could not be run, and it is the error.
\<close>

definition scenario_ran ::
  "('e, 'u, 'x World_scheme) Env \<Rightarrow> (Client \<Rightarrow> 'u HttpRequest \<Rightarrow> 'x World_scheme \<Rightarrow> nat \<Rightarrow> nat) \<Rightarrow> Runner \<Rightarrow>
   TestSpec \<Rightarrow> 'x World_scheme \<Rightarrow> 'e TestResult \<Rightarrow> 'x World_scheme \<Rightarrow> bool" where
  "scenario_ran env hits r test w res w' \<longleftrightarrow>
     (if \<not> rn_timeController r then res_Errors res = [RunFailed NoTimeController] \<and> w' = w
      else
        (\<exists>ress. ran_steps env r (shared_prepare r) (mocksOf r) (ts_Scenario test) (ev_newJar env w) ress w' \<and>
           list_all2 (step_verdict env hits r) (ts_Scenario test) ress \<and>
           (res_Passed res \<longleftrightarrow> list_all ar_Passed ress) \<and>
           res_Errors res = stepErrors 0 (ts_Scenario test) ress) \<or>
        (\<exists>i ress w1 e. i < length (ts_Scenario test) \<and>
           ran_steps env r (shared_prepare r) (mocksOf r) (take i (ts_Scenario test)) (ev_newJar env w) ress w1 \<and>
           step_stops env r (shared_prepare r) (ts_Scenario test ! i) w1 e w' \<and>
           res_Errors res = [RunFailed (AtStep (i + 1) e)]))"

text \<open>
  One test of a run, from the state \<open>w\<close> it finds to the state \<open>w'\<close> it leaves: the ban of all
  cached objects is sent first (its status is not looked at), then the mocks are reconfigured,
  then the test runs.
\<close>

definition test_ran ::
  "('e, 'u, 'x World_scheme) Env \<Rightarrow> (Client \<Rightarrow> 'u HttpRequest \<Rightarrow> 'x World_scheme \<Rightarrow> nat \<Rightarrow> nat) \<Rightarrow> Runner \<Rightarrow>
   TestSpec \<Rightarrow> 'x World_scheme \<Rightarrow> 'e TestResult \<Rightarrow> 'x World_scheme \<Rightarrow> bool" where
  "test_ran env hits r test w res w' \<longleftrightarrow>
     res_TestName res = ts_Name test \<and> (res_Errors res = [] \<longleftrightarrow> res_Passed res) \<and>
     (\<exists>b w1. ev_exec env ''ban req.url ~ .'' w = (b, w1) \<and>
        (case b of
           Inl e \<Rightarrow> res_Errors res = [NukeFailed e] \<and> w' = w1
         | Inr resp \<Rightarrow>
             (\<exists>w2. w2 = configureBackendsForTest (mocksOf r) test w1 \<and> configured (mocksOf r) test w1 w2 \<and>
                (if rn_loadedVCLName r = [] then res_Errors res = [RunFailed NoVCLLoaded] \<and> w' = w2
                 else if IsScenario test then scenario_ran env hits r test w2 res w'
                 else single_ran env hits r test w2 res w'))))"

text \<open>The tests of a run, one after the other, each in the state the one before it left.\<close>

fun tests_ran ::
  "('e, 'u, 'x World_scheme) Env \<Rightarrow> (Client \<Rightarrow> 'u HttpRequest \<Rightarrow> 'x World_scheme \<Rightarrow> nat \<Rightarrow> nat) \<Rightarrow> Runner \<Rightarrow>
   TestSpec list \<Rightarrow> 'x World_scheme \<Rightarrow> 'e TestResult list \<Rightarrow> 'x World_scheme \<Rightarrow> bool" where
  "tests_ran env hits r [] w [] w' \<longleftrightarrow> w = w'"
| "tests_ran env hits r (test # tests) w (res # ress) w' \<longleftrightarrow>
     (\<exists>w1. test_ran env hits r test w res w1 \<and> tests_ran env hits r tests w1 ress w')"
| "tests_ran env hits r tests w ress w' \<longleftrightarrow> False"

lemma tests_ran_length: "tests_ran env hits r tests w ress w' \<Longrightarrow> length ress = length tests"
  by (induction env hits r tests w ress w' rule: tests_ran.induct) auto

lemma configured_configure:
  assumes "distinct (map snd bm)" "valid_ptrs bm w" "wf_map (ts_Backends test)"
  shows "configured bm test w (configureBackendsForTest bm test w)"
  unfolding configured_def
proof (intro allI impI)
  fix name p
  assume n: "mget bm name = Some p"
  have p: "p < length (w_mocks w)" using mget_in[OF n] assms(2) by (auto simp: valid_ptrs_def list_all_iff)
  show "mb_config (w_mocks (configureBackendsForTest bm test w) ! p) =
      (case mget (ts_Backends test) name of Some spec \<Rightarrow> backendConfig spec | None \<Rightarrow> mb_config (w_mocks w ! p))"
    using updateBackends_nth[OF assms(1) n assms(3) p]
    by (simp add: configure_is_update UpdateConfig_def split: option.split)
qed

lemma scenario_name:
  "runScenarioTestWithSharedVCL env r test w = (Inr result, w') \<Longrightarrow>
   res_TestName result = ts_Name test \<and> (res_Errors result = [] \<longleftrightarrow> res_Passed result)"
  by (auto simp: runScenarioTestWithSharedVCL_def runSteps_def Let_def split: if_splits prod.splits sum.splits)

lemma scenario_ran_spec:
  assumes "varnish_env env hits" "valid_ptrs (mocksOf r) w" "distinct (map snd (mocksOf r))"
    and "list_all (\<lambda>s. wf_map (st_Backends s)) (ts_Scenario test)"
    and "runScenarioTestWithSharedVCL env r test w = (out, w')"
  shows "scenario_ran env hits r test w (case out of Inr res \<Rightarrow> res | Inl e \<Rightarrow> failedResult test (RunFailed e)) w'"
proof (cases out)
  case (Inr result)
  then have "rn_timeController r" using assms(5) by (simp add: runScenarioTestWithSharedVCL_def split: if_splits)
  with scenario_spec[OF assms(1-4) assms(5)[unfolded Inr]] show ?thesis by (auto simp: scenario_ran_def Inr)
next
  case (Inl e)
  show ?thesis
  proof (cases "rn_timeController r")
    case False
    then show ?thesis using assms(5) by (auto simp: scenario_ran_def Inl failedResult_def runScenarioTestWithSharedVCL_def)
  next
    case True
    then have "scenarioLoop env r (shared_prepare r) (mocksOf r) (ts_Scenario test) 0 [] (- 1) (ev_newJar env w) = (Inl e, w')"
      using assms(5) by (auto simp: Inl runScenarioTestWithSharedVCL_def runSteps_def Let_def split: prod.splits sum.splits)
    from scenarioLoop_stops[OF this] True show ?thesis by (auto simp: scenario_ran_def Inl failedResult_def)
  qed
qed

lemma single_ran_spec:
  assumes "varnish_env env hits" "valid_ptrs (mocksOf r) w" "\<not> IsScenario test" "rn_loadedVCLName r \<noteq> []"
    and "RunTestWithSharedVCL env r test w = (out, w')"
  shows "single_ran env hits r test w (case out of Inr res \<Rightarrow> res | Inl e \<Rightarrow> failedResult test (RunFailed e)) w'"
proof (cases out)
  case (Inr result)
  from single_test_spec[OF assms(1-3) assms(5)[unfolded Inr]] show ?thesis
    unfolding single_ran_def Inr sum.case by blast
next
  case (Inl e)
  then have "requestAndCheck env r test (mocksOf r) (rn_vclShowResult r) (resetCallCounts (mocksOf r) w) = (Inl e, w')"
    using assms(3-5) by (simp add: RunTestWithSharedVCL_def runSingleRequestTestWithSharedVCL_def)
  then show ?thesis
    by (auto simp: requestAndCheck_def Let_def single_ran_def Inl failedResult_def split: prod.splits sum.splits)
qed

lemma test_ran_spec:
  assumes "varnish_env env hits" "valid_ptrs (mocksOf r) w1" "distinct (map snd (mocksOf r))"
    and "wf_map (ts_Backends test)" "list_all (\<lambda>s. wf_map (st_Backends s)) (ts_Scenario test)"
    and "BanNukeCache (ev_exec env) w = (Inr resp, w1)"
    and "RunTestWithSharedVCL env r test (configureBackendsForTest (mocksOf r) test w1) = (out, w')"
  shows "test_ran env hits r test w (case out of Inr res \<Rightarrow> res | Inl e \<Rightarrow> failedResult test (RunFailed e)) w'"
proof -
  let ?w2 = "configureBackendsForTest (mocksOf r) test w1"
  let ?res = "case out of Inr res \<Rightarrow> res | Inl e \<Rightarrow> failedResult test (RunFailed e)"
  have v2: "valid_ptrs (mocksOf r) ?w2" using assms(2) by (simp add: configure_is_update valid_ptrs_def)
  have body: "if rn_loadedVCLName r = [] then res_Errors ?res = [RunFailed NoVCLLoaded] \<and> w' = ?w2
      else if IsScenario test then scenario_ran env hits r test ?w2 ?res w' else single_ran env hits r test ?w2 ?res w'"
    using assms(7) scenario_ran_spec[OF assms(1) v2 assms(3,5), of out w'] single_ran_spec[OF assms(1) v2, of test out w']
    by (auto simp: RunTestWithSharedVCL_def failedResult_def)
  have "res_TestName ?res = ts_Name test \<and> (res_Errors ?res = [] \<longleftrightarrow> res_Passed ?res)"
  proof (cases out)
    case (Inr result)
    show ?thesis
    proof (cases "IsScenario test")
      case True
      then show ?thesis using assms(7) scenario_name[of env r test ?w2] by (auto simp: Inr RunTestWithSharedVCL_def split: if_splits)
    next
      case False
      from single_test_spec[OF assms(1) v2 False assms(7)[unfolded Inr]] show ?thesis by (auto simp: Inr)
    qed
  qed (simp add: failedResult_def)
  with body configured_configure[OF assms(3,2,4)] assms(6) show ?thesis
    by (simp add: test_ran_def BanNukeCache_def)
qed

text \<open>Talking to varnishadm does not touch the mocks.\<close>

definition cli_env :: "('e, 'u, 'x World_scheme) Env \<Rightarrow> bool" where
  "cli_env env \<longleftrightarrow> (\<forall>cmd w. w_mocks (snd (ev_exec env cmd w)) = w_mocks w)"

abbreviation passes :: "'e TestResult list \<Rightarrow> nat" where
  "passes rs \<equiv> length (filter res_Passed rs)"

abbreviation fails :: "'e TestResult list \<Rightarrow> nat" where
  "fails rs \<equiv> length (filter (\<lambda>tr. \<not> res_Passed tr) rs)"

definition extends :: "'e HarnessResult \<Rightarrow> 'e TestResult list \<Rightarrow> 'e HarnessResult \<Rightarrow> bool" where
  "extends result new result' \<longleftrightarrow>
     hr_Total result' = hr_Total result \<and> hr_Results result' = hr_Results result @ new \<and>
     hr_Passed result' = hr_Passed result + passes new \<and> hr_Failed result' = hr_Failed result + fails new"

lemma extends_add:
  "\<not> res_Passed tr \<Longrightarrow> extends (addFailed tr result) new result' \<Longrightarrow> extends result (tr # new) result'"
  "extends (addResult tr result) new result' \<Longrightarrow> extends result (tr # new) result'"
  by (auto simp: extends_def addFailed_def addResult_def split: if_splits)

lemma runTestsLoop_spec:
  assumes "varnish_env env hits" "cli_env env" "distinct (map snd (mocksOf r))"
  shows "runTestsLoop env r (mocksOf r) tests result w = (result', w') \<Longrightarrow> valid_ptrs (mocksOf r) w \<Longrightarrow>
    list_all (\<lambda>t. wf_map (ts_Backends t) \<and> list_all (\<lambda>s. wf_map (st_Backends s)) (ts_Scenario t)) tests \<Longrightarrow>
    \<exists>new. extends result new result' \<and> tests_ran env hits r tests w new w'"
proof (induction tests arbitrary: result w)
  case Nil
  then show ?case by (auto simp: extends_def intro!: exI[of _ "[]"])
next
  case (Cons test tests)
  obtain b w1 where ban: "BanNukeCache (ev_exec env) w = (b, w1)" by fastforce
  have "w_mocks w1 = w_mocks w" using assms(2) ban unfolding BanNukeCache_def cli_env_def by (metis snd_conv)
  then have v1: "valid_ptrs (mocksOf r) w1" using Cons.prems(2) by (simp add: valid_ptrs_def)
  have wf: "wf_map (ts_Backends test)" "list_all (\<lambda>s. wf_map (st_Backends s)) (ts_Scenario test)"
    "list_all (\<lambda>t. wf_map (ts_Backends t) \<and> list_all (\<lambda>s. wf_map (st_Backends s)) (ts_Scenario t)) tests"
    using Cons.prems(3) by simp_all
  show ?case
  proof (cases b)
    case (Inl err)
    let ?tr = "failedResult test (NukeFailed err)"
    have l: "runTestsLoop env r (mocksOf r) tests (addFailed ?tr result) w1 = (result', w')"
      using Cons.prems(1) ban Inl by simp
    have "test_ran env hits r test w ?tr w1"
      using ban Inl by (simp add: test_ran_def failedResult_def BanNukeCache_def)
    then show ?thesis using Cons.IH[OF l v1 wf(3)] extends_add(1)[of ?tr]
      by (metis tests_ran.simps(2) failedResult_def TestResult.select_convs(2))
  next
    case (Inr resp)
    obtain o2 w2 where run: "RunTestWithSharedVCL env r test (configureBackendsForTest (mocksOf r) test w1) = (o2, w2)" by fastforce
    have v2: "valid_ptrs (mocksOf r) w2"
      using v1 test_keeps_length[OF assms(1) run] by (simp add: valid_ptrs_def configure_is_update)
    note t = test_ran_spec[OF assms(1) v1 assms(3) wf(1,2) ban[unfolded Inr] run]
    show ?thesis
    proof (cases o2)
      case (Inl err)
      let ?tr = "failedResult test (RunFailed err)"
      have l: "runTestsLoop env r (mocksOf r) tests (addFailed ?tr result) w2 = (result', w')"
        using Cons.prems(1) ban run Inl \<open>b = Inr resp\<close> by simp
      then show ?thesis using Cons.IH[OF l v2 wf(3)] extends_add(1)[of ?tr] t
        by (metis Inl tests_ran.simps(2) failedResult_def TestResult.select_convs(2) sum.case(1))
    next
      case o2: (Inr tr)
      have l: "runTestsLoop env r (mocksOf r) tests (addResult tr result) w2 = (result', w')"
        using Cons.prems(1) ban run o2 Inr by simp
      then show ?thesis using Cons.IH[OF l v2 wf(3)] extends_add(2)[of tr] t
        by (metis o2 tests_ran.simps(2) sum.case(2))
    qed
  qed
qed

section \<open>One mock per backend name\<close>

text \<open>The configuration of the first test that names the backend.\<close>

fun firstSpec :: "TestSpec list \<Rightarrow> string \<Rightarrow> BackendSpec option" where
  "firstSpec [] name = None"
| "firstSpec (test # tests) name =
     (case mget (ts_Backends test) name of Some spec \<Rightarrow> Some spec | None \<Rightarrow> firstSpec tests name)"

lemma addFirst_all:
  "mget (fold addFirst bs m) name = (case mget m name of Some s \<Rightarrow> Some s | None \<Rightarrow> mget bs name)"
proof (induction bs arbitrary: m)
  case (Cons b bs)
  have "mget (b # bs) name = (if fst b = name then Some (snd b) else mget bs name)" by (simp add: mget_def)
  with Cons show ?case by (auto simp: addFirst_def split: option.split)
qed (simp add: mget_def split: option.split)

lemma addFirst_wf: "wf_map m \<Longrightarrow> wf_map (fold addFirst bs m)"
  by (induction bs arbitrary: m) (auto simp: addFirst_def split: option.split)

lemma collect_fold:
  "mget (fold (\<lambda>test m. fold addFirst (ts_Backends test) m) tests m) name =
     (case mget m name of Some s \<Rightarrow> Some s | None \<Rightarrow> firstSpec tests name)"
  by (induction tests arbitrary: m) (auto simp: addFirst_all split: option.split)

lemma collectConfigs_get: "mget (collectConfigs tests) name = firstSpec tests name"
  by (simp add: collectConfigs_def collect_fold)

lemma collectConfigs_wf: "wf_map (collectConfigs tests)"
proof -
  have "wf_map m \<Longrightarrow> wf_map (fold (\<lambda>test m. fold addFirst (ts_Backends test) m) tests m)" for m
    by (induction tests arbitrary: m) (auto intro: addFirst_wf)
  then show ?thesis by (simp add: collectConfigs_def)
qed

lemma mput_fresh: "mget m k = None \<Longrightarrow> mput k v m = m @ [(k, v)]"
  unfolding mput_def mget_def by (induction m) (auto split: if_splits)

lemma stop_stop [simp]: "mock_Stop (mock_Stop m) = mock_Stop m"
  by (simp add: mock_Stop_def Let_def)

lemma stopAll_length [simp]: "length (w_mocks (stopAll bm w)) = length (w_mocks w)"
  unfolding stopAll_def by (induction bm arbitrary: w) auto

lemma stopAll_nth:
  "q < length (w_mocks w) \<Longrightarrow>
   w_mocks (stopAll bm w) ! q = (if q \<in> snd ` set bm then mock_Stop (w_mocks w ! q) else w_mocks w ! q)"
proof (induction bm arbitrary: w)
  case (Cons a bm)
  obtain name p where a: "a = (name, p)" by (cases a)
  let ?w = "updateMock p mock_Stop w"
  have "w_mocks (stopAll (a # bm) w) ! q = w_mocks (stopAll bm ?w) ! q"
    by (simp add: a stopAll_def)
  also have "\<dots> = (if q \<in> snd ` set bm then mock_Stop (w_mocks ?w ! q) else w_mocks ?w ! q)"
    using Cons.prems by (intro Cons.IH) simp
  finally show ?case using Cons.prems by (auto simp: a updateMock_nth)
qed (simp add: stopAll_def)

text \<open>Listening on a port leaves the mocks alone.\<close>

definition listen_env :: "('e, 'u, 'x World_scheme) Env \<Rightarrow> bool" where
  "listen_env env \<longleftrightarrow> (\<forall>w. w_mocks (snd (ev_listen env w)) = w_mocks w)"

text \<open>
  The state of the loop: the mocks recorded so far are those appended to the store since the
  loop began, at position \<open>base\<close>, in order.
\<close>

definition started ::
  "nat \<Rightarrow> mock_ptrs \<Rightarrow> (string, BackendAddress) gomap \<Rightarrow> 'x World_scheme \<Rightarrow> bool" where
  "started base bm addresses w \<longleftrightarrow>
     wf_map bm \<and> map snd bm = [base..<length (w_mocks w)] \<and> base \<le> length (w_mocks w) \<and> dom (mget addresses) = dom (mget bm)"

text \<open>A mock that serves with a configuration, under an address that was recorded.\<close>

definition serving_as :: "string \<Rightarrow> BackendSpec \<Rightarrow> mock_ptrs \<Rightarrow> (string, BackendAddress) gomap \<Rightarrow> 'x World_scheme \<Rightarrow> bool" where
  "serving_as name spec bm addresses w \<longleftrightarrow>
     (\<exists>p addr host port. mget bm name = Some p \<and> p < length (w_mocks w) \<and>
        w_mocks w ! p = (mock_New (backendConfig spec))\<lparr>mb_addr := Some addr, mb_serving := True\<rparr> \<and>
        SplitHostPort addr = Some (host, port) \<and> mget addresses name = Some \<lparr>Host = host, Port = port\<rparr>)"

lemma started_next:
  assumes "started base bm addresses w" "mget bm name = None" "w_mocks w' = w_mocks w @ [mock]"
  shows "started base (mput name (length (w_mocks w)) bm) (mput name a addresses) w'"
proof -
  have "dom (mget (mput name a addresses)) = insert name (dom (mget addresses))"
    "dom (mget (mput name (length (w_mocks w)) bm)) = insert name (dom (mget bm))"
    by (auto simp: dom_def)
  moreover have "wf_map (mput name (length (w_mocks w)) bm)" using assms(1) by (simp add: started_def)
  moreover have "map snd (mput name (length (w_mocks w)) bm) = [base..<length (w_mocks w')]"
    using assms by (simp add: started_def mput_fresh)
  ultimately show ?thesis using assms(1,3) by (simp add: started_def)
qed

lemma parseAddress_ok: "parseAddress addr = Inr (host, port) \<Longrightarrow> SplitHostPort addr = Some (host, port)"
  by (auto simp: parseAddress_def split: option.splits prod.splits)

lemma startAllLoop_ok:
  assumes "listen_env env"
  shows "startAllLoop env specs bm addresses w = (Inr (addresses', bm'), w') \<Longrightarrow> started base bm addresses w \<Longrightarrow>
    distinct (map fst specs) \<Longrightarrow> \<forall>n \<in> fst ` set specs. mget bm n = None \<Longrightarrow>
    started base bm' addresses' w' \<and> dom (mget bm') = dom (mget bm) \<union> fst ` set specs \<and>
    (\<forall>n. n \<notin> fst ` set specs \<longrightarrow> mget bm' n = mget bm n \<and> mget addresses' n = mget addresses n) \<and>
    (\<forall>p < length (w_mocks w). w_mocks w' ! p = w_mocks w ! p) \<and> length (w_mocks w) \<le> length (w_mocks w') \<and>
    (\<forall>(n, spec) \<in> set specs. serving_as n spec bm' addresses' w')"
proof (induction specs arbitrary: bm addresses w)
  case (Cons s specs)
  obtain name spec where s: "s = (name, spec)" by (cases s)
  obtain listen w1 where l: "ev_listen env w = (listen, w1)" by fastforce
  have w1: "w_mocks w1 = w_mocks w" using assms l unfolding listen_env_def by (metis snd_conv)
  obtain addr where a: "listen = Inr addr"
    using Cons.prems(1) by (auto simp: s l mock_Start_def split: sum.splits)
  define mock where "mock = (mock_New (backendConfig spec))\<lparr>mb_addr := Some addr, mb_serving := True\<rparr>"
  define w2 where "w2 = w1\<lparr>w_mocks := w_mocks w1 @ [mock]\<rparr>"
  obtain host port where hp: "parseAddress addr = Inr (host, port)"
    and rest: "startAllLoop env specs (mput name (length (w_mocks w1)) bm)
      (mput name \<lparr>Host = host, Port = port\<rparr> addresses) w2 = (Inr (addresses', bm'), w')"
    using Cons.prems(1) by (auto simp: s l a mock_Start_def Let_def w2_def mock_def split: sum.splits prod.splits)
  let ?bm = "mput name (length (w_mocks w1)) bm" and ?ad = "mput name \<lparr>Host = host, Port = port\<rparr> addresses"
  have new: "mget bm name = None" using Cons.prems(4) s by simp
  have st: "started base ?bm ?ad w2"
    using started_next[OF Cons.prems(2) new, of w2 mock] by (simp add: w2_def w1)
  have fresh: "\<forall>n \<in> fst ` set specs. mget ?bm n = None" using Cons.prems(3,4) s by auto
  note ih = Cons.IH[OF rest st _ fresh]
  have name: "name \<notin> fst ` set specs" using Cons.prems(3) s by simp
  have "serving_as name spec bm' addresses' w'"
  proof -
    have "mget bm' name = Some (length (w_mocks w))" "mget addresses' name = Some \<lparr>Host = host, Port = port\<rparr>"
      using ih name Cons.prems(3) s w1 by auto
    moreover have "w_mocks w' ! length (w_mocks w) = mock" "length (w_mocks w) < length (w_mocks w')"
      using ih Cons.prems(3) s by (auto simp: w2_def w1)
    ultimately show ?thesis using parseAddress_ok[OF hp]
      by (auto simp: serving_as_def mock_def)
  qed
  moreover have "\<forall>p < length (w_mocks w). w_mocks w' ! p = w_mocks w ! p"
    using ih Cons.prems(3) s by (auto simp: w2_def w1 nth_append)
  moreover have "dom (mget ?bm) = insert name (dom (mget bm))" by (auto simp: dom_def)
  ultimately show ?case using ih Cons.prems(3) s by (auto simp: w2_def w1)
qed auto

lemma startAllLoop_failed:
  assumes "listen_env env"
  shows "startAllLoop env specs bm addresses w = (Inl err, w') \<Longrightarrow> started base bm addresses w \<Longrightarrow>
    distinct (map fst specs) \<Longrightarrow> \<forall>n \<in> fst ` set specs. mget bm n = None \<Longrightarrow>
    (\<forall>p. base \<le> p \<and> p + (case err of ParsingAddress n a \<Rightarrow> 1 | _ \<Rightarrow> 0) < length (w_mocks w') \<longrightarrow> mb_stopped (w_mocks w' ! p))"
proof (induction specs arbitrary: bm addresses w)
  case (Cons s specs)
  obtain name spec where s: "s = (name, spec)" by (cases s)
  obtain listen w1 where l: "ev_listen env w = (listen, w1)" by fastforce
  have w1: "w_mocks w1 = w_mocks w" using assms l unfolding listen_env_def by (metis snd_conv)
  have cover: "snd ` set bm = {base..<length (w_mocks w)}"
    using Cons.prems(2) unfolding started_def by (metis atLeastLessThan_upt list.set_map)
  have stopped: "mb_stopped (mock_Stop m)" for m by (simp add: mock_Stop_def Let_def)
  show ?case
  proof (cases listen)
    case (Inl e)
    then show ?thesis using Cons.prems(1) cover stopped
      by (auto simp: s l mock_Start_def w1 stopAll_nth)
  next
    case (Inr addr)
    define mock where "mock = (mock_New (backendConfig spec))\<lparr>mb_addr := Some addr, mb_serving := True\<rparr>"
    define w2 where "w2 = w1\<lparr>w_mocks := w_mocks w1 @ [mock]\<rparr>"
    have new: "mget bm name = None" using Cons.prems(4) s by simp
    show ?thesis
    proof (cases "parseAddress addr")
      case (Inl a)
      then have "w' = stopAll bm w2" "err = ParsingAddress name a"
        using Cons.prems(1) Inr by (auto simp: s l mock_Start_def Let_def w2_def mock_def)
      then show ?thesis using cover stopped by (auto simp: stopAll_nth w2_def w1)
    next
      case (Inr hp)
      obtain host port where hp: "hp = (host, port)" by (cases hp)
      let ?bm = "mput name (length (w_mocks w1)) bm" and ?ad = "mput name \<lparr>Host = host, Port = port\<rparr> addresses"
      have rest: "startAllLoop env specs ?bm ?ad w2 = (Inl err, w')"
        using Cons.prems(1) Inr hp \<open>listen = Inr addr\<close> by (simp add: s l mock_Start_def Let_def w2_def mock_def)
      have st: "started base ?bm ?ad w2"
        using started_next[OF Cons.prems(2) new, of w2 mock] by (simp add: w2_def w1)
      have fresh: "\<forall>n \<in> fst ` set specs. mget ?bm n = None" using Cons.prems(3,4) s by auto
      from Cons.IH[OF rest st _ fresh] Cons.prems(3) s show ?thesis by simp
    qed
  qed
qed simp

section \<open>Properties\<close>

lemma runTests_spec:
  assumes "varnish_env env hits" "cli_env env" "valid_ptrs (mocksOf r) w" "distinct (map snd (mocksOf r))"
    and "list_all (\<lambda>t. wf_map (ts_Backends t) \<and> list_all (\<lambda>s. wf_map (st_Backends s)) (ts_Scenario t)) tests"
    and "harness_runTests env r (mocksOf r) tests w = (result, w')"
  shows "hr_Total result = length tests \<and>
    hr_Passed result = length (filter res_Passed (hr_Results result)) \<and>
    hr_Failed result = length (filter (\<lambda>tr. \<not> res_Passed tr) (hr_Results result)) \<and>
    hr_Passed result + hr_Failed result = hr_Total result \<and>
    tests_ran env hits r tests w (hr_Results result) w'"
proof -
  obtain new where new: "hr_Results result = new" "hr_Total result = length tests" "hr_Passed result = passes new"
    "hr_Failed result = fails new" "tests_ran env hits r tests w new w'"
    using runTestsLoop_spec[OF assms(1,2,4) assms(6)[unfolded harness_runTests_def] assms(3,5)]
    by (auto simp: extends_def)
  moreover have "length new = length tests" using tests_ran_length[OF new(5)] .
  ultimately show ?thesis using sum_length_filter_compl[of res_Passed new] by simp
qed

text \<open>
  C3. A test run reports every test exactly once, in order, and counts correctly: the
  total is the number of tests, passed and failed are the numbers of passed and failed results.
  The tests run one after the other, each in the state the one before it left. Each first sends
  the ban of all cached objects and gives the mocks it names its own configurations (a mock it
  does not name keeps the configuration an earlier test gave it). A test of one request then
  sends its own request to the runner's URL with the call counters at zero, and passes iff its
  expectations are met by the response and by the backend calls this request caused; a scenario
  runs its own steps from there and passes iff all of them do. A test that could not be run is
  reported as failed with the error that stopped it.
\<close>

theorem run_tests_verdicts:
  assumes "varnish_env env hits" "cli_env env" "valid_ptrs (mocksOf r) w" "distinct (map snd (mocksOf r))"
    and "list_all (\<lambda>t. wf_map (ts_Backends t) \<and> list_all (\<lambda>s. wf_map (st_Backends s)) (ts_Scenario t)) tests"
    and "harness_runTests env r (mocksOf r) tests w = (result, w')"
  shows "hr_Total result = length tests \<and>
    hr_Passed result = length (filter res_Passed (hr_Results result)) \<and>
    hr_Failed result = length (filter (\<lambda>tr. \<not> res_Passed tr) (hr_Results result)) \<and>
    hr_Passed result + hr_Failed result = hr_Total result \<and>
    tests_ran env hits r tests w (hr_Results result) w'"
  using assms by (rule runTests_spec)

theorem run_tests_verdicts_witness:
  "\<exists>result w'. harness_runTests demo_env demo_runner (mocksOf demo_runner) [demo_test, demo_test] demo_world = (result, w') \<and>
     hr_Total result = 2 \<and> hr_Passed result + hr_Failed result = 2 \<and>
     tests_ran demo_env demo_hits demo_runner [demo_test, demo_test] demo_world (hr_Results result) w'"
proof -
  obtain result w' where run: "harness_runTests demo_env demo_runner (mocksOf demo_runner) [demo_test, demo_test] demo_world = (result, w')"
    by (meson surj_pair)
  have "cli_env demo_env" by (simp add: cli_env_def demoEnv_def)
  moreover have "distinct (map snd (mocksOf demo_runner))"
    by (simp add: mocksOf_def demo_runner_def SetTimeController_def SetMockBackends_def)
  moreover have "list_all (\<lambda>t. wf_map (ts_Backends t) \<and> list_all (\<lambda>s. wf_map (st_Backends s)) (ts_Scenario t)) [demo_test, demo_test]"
    by (simp add: demo_test_def wf_map_def)
  ultimately show ?thesis
    using run_tests_verdicts[OF sample_varnish_env _ demo_world_ok _ _ run] run by auto
qed

text \<open>
  C14. One mock backend serves each backend name of the whole test file, with the
  configuration of the first test that names it, and its address is recorded under that name;
  a file that names none gets a backend called default. When a backend cannot be started, the
  ones started before it are stopped; only a backend whose own address cannot be parsed is
  left running.
\<close>

theorem backends_shared_by_tests:
  assumes "listen_env env" "range_order ord" "startAllBackends ord env tests w = (out, w')"
  shows "case out of
      Inr (addresses, bm) \<Rightarrow>
        wf_map bm \<and> valid_ptrs bm w' \<and> distinct (map snd bm) \<and> dom (mget addresses) = dom (mget bm) \<and>
        dom (mget bm) = (if dom (firstSpec tests) = {} then {''default''} else dom (firstSpec tests)) \<and>
        (\<forall>name spec. firstSpec tests name = Some spec \<longrightarrow> serving_as name spec bm addresses w') \<and>
        (dom (firstSpec tests) = {} \<longrightarrow> serving_as ''default'' okBackend bm addresses w')
    | Inl err \<Rightarrow>
        (\<forall>p. length (w_mocks w) \<le> p \<and> p + (case err of ParsingAddress n a \<Rightarrow> 1 | _ \<Rightarrow> 0) < length (w_mocks w') \<longrightarrow>
           mb_stopped (w_mocks w' ! p))"
proof -
  let ?c = "collectConfigs tests"
  define cfgs where "cfgs = (if length ?c = 0 then mput ''default'' okBackend ?c else ?c)"
  have run: "startAllLoop env (ord cfgs) [] [] w = (out, w')"
    using assms(3) by (simp add: startAllBackends_def cfgs_def Let_def)
  have wf: "wf_map cfgs" using collectConfigs_wf[of tests] by (simp add: cfgs_def)
  have perm: "mset (ord cfgs) = mset cfgs" using assms(2) by (simp add: range_order_def)
  have dist: "distinct (map fst (ord cfgs))"
    using wf perm by (metis wf_map_def mset_map mset_eq_imp_distinct_iff)
  have st: "started (length (w_mocks w)) [] [] w" by (simp add: started_def dom_def)
  have empty: "?c = [] \<longleftrightarrow> dom (firstSpec tests) = {}"
    using collectConfigs_get[of tests] by (auto simp: mget_None_iff dom_def fun_eq_iff simp flip: collectConfigs_get)
  have in_cfgs: "(name, spec) \<in> set (ord cfgs) \<longleftrightarrow> mget cfgs name = Some spec" for name spec
    using wf perm wf_map_mget_iff by (metis mset_eq_setD)
  have get: "mget cfgs name = (if dom (firstSpec tests) = {} \<and> name = ''default'' then Some okBackend else firstSpec tests name)" for name
    using empty by (auto simp: cfgs_def collectConfigs_get)
  show ?thesis
  proof (cases out)
    case (Inl err)
    with startAllLoop_failed[OF assms(1) run[unfolded Inl] st dist] show ?thesis by simp
  next
    case (Inr ab)
    obtain addresses bm where ab: "ab = (addresses, bm)" by (cases ab)
    note ok = startAllLoop_ok[OF assms(1) run[unfolded Inr ab] st dist]
    have names: "fst ` set (ord cfgs) = dom (mget cfgs)"
      using in_cfgs by (force simp: dom_def)
    have d: "dom (mget cfgs) = (if dom (firstSpec tests) = {} then {''default''} else dom (firstSpec tests))"
      using get by (auto simp: dom_def)
    have s: "started (length (w_mocks w)) bm addresses w'" "dom (mget bm) = dom (mget cfgs)"
      using ok names by (auto simp: dom_def)
    have serve: "serving_as n spec bm addresses w'" if "mget cfgs n = Some spec" for n spec
      using ok in_cfgs[of n spec] that by auto
    have v: "valid_ptrs bm w'" "distinct (map snd bm)"
    proof -
      have "snd ` set bm = {length (w_mocks w)..<length (w_mocks w')}"
        using s(1) unfolding started_def by (metis atLeastLessThan_upt list.set_map)
      then show "valid_ptrs bm w'" by (force simp: valid_ptrs_def list_all_iff)
      show "distinct (map snd bm)" using s(1) by (simp add: started_def)
    qed
    have "serving_as n spec bm addresses w'" if "firstSpec tests n = Some spec" for n spec
      using that get[of n] by (intro serve) auto
    moreover have "dom (firstSpec tests) = {} \<Longrightarrow> serving_as ''default'' okBackend bm addresses w'"
      using get[of "''default''"] by (intro serve) simp
    ultimately show ?thesis using s v d by (auto simp: Inr ab started_def)
  qed
qed

definition demo_tests :: "TestSpec list" where
  "demo_tests = [demo_test, demo_test\<lparr>ts_Backends := [(''api'', okBackend\<lparr>bs_Status := 404\<rparr>)]\<rparr>]"

theorem backends_shared_by_tests_witness:
  "\<exists>addresses bm w'. startAllBackends rev demo_env demo_tests demo_world = (Inr (addresses, bm), w') \<and>
     serving_as ''api'' (okBackend\<lparr>bs_Status := 404\<rparr>) bm addresses w'"
proof -
  have l: "listen_env demo_env" by (simp add: listen_env_def demoEnv_def)
  have a: "parseAddress ''127.0.0.1:8081'' = Inr (''127.0.0.1'', ''8081'')"
  proof -
    have "SplitHostPort ''127.0.0.1:8081'' = Some (''127.0.0.1'', ''8081'')" by code_simp
    moreover have "Atoi (Itoa 8081) = Some 8081" by (rule Atoi_Itoa) (simp add: in_int64_def)
    moreover have "Itoa 8081 = ''8081''" by (simp add: Itoa_def nat_digits_numeral)
    ultimately show ?thesis by (simp add: parseAddress_def)
  qed
  have c: "collectConfigs demo_tests = [(''api'', okBackend\<lparr>bs_Status := 404\<rparr>)]"
    by (simp add: collectConfigs_def demo_tests_def demo_test_def addFirst_def mput_def)
  have "\<exists>addresses bm w'. startAllBackends rev demo_env demo_tests demo_world = (Inr (addresses, bm), w')"
    by (simp add: startAllBackends_def c Let_def demoEnv_def mock_Start_def a)
  then obtain addresses bm w' where run: "startAllBackends rev demo_env demo_tests demo_world = (Inr (addresses, bm), w')"
    by blast
  have "firstSpec demo_tests ''api'' = Some (okBackend\<lparr>bs_Status := 404\<rparr>)"
    by (simp add: demo_tests_def demo_test_def mget_def)
  with backends_shared_by_tests[OF l range_order_rev run] run show ?thesis by auto
qed

end
