(* ===== verification/AdmServer.thy ===== *)
theory AdmServer
  imports AdmWire
begin

text \<open>
  The concurrent part of \<^verbatim>\<open>varnishadm/varnishadm.go\<close>: \<^verbatim>\<open>Server.Run\<close> (the accept loop),
  \<^verbatim>\<open>handleConnection\<close> (the loop that takes requests from the channel) and \<^verbatim>\<open>Exec\<close> (the
  callers), as a step relation. The goroutine of \<^verbatim>\<open>Run\<close> is the thread; every call of
  \<^verbatim>\<open>Exec\<close> has its index in the list of calls.
\<close>

section \<open>State\<close>

text \<open>
  A call of \<^verbatim>\<open>Exec\<close> waits for room in the request channel, then for its response or the
  timeout.
\<close>

datatype Call =
    Queueing string
  | Waiting string
  | Answered string VarnishResponse
  | TimedOut string

fun command_of :: "Call \<Rightarrow> string" where
  "command_of (Queueing cmd) = cmd"
| "command_of (Waiting cmd) = cmd"
| "command_of (Answered cmd resp) = cmd"
| "command_of (TimedOut cmd) = cmd"

text \<open>
  The thread: in \<^verbatim>\<open>Accept\<close>, in the \<^verbatim>\<open>select\<close> of the handler, sending a response on the
  channel of a request, returned from \<^verbatim>\<open>Run\<close>, or in a panic.
\<close>

datatype 'e Thread =
    Accepting
  | Serving Conn
  | Delivering Conn nat VarnishResponse
  | Returned "'e option"
  | Panicked

record 'e AdmSys =
  sy_server :: Server
  sy_thread :: "'e Thread"
  sy_reqCh :: "(nat \<times> string) list"
  sy_calls :: "Call list"
  sy_cancelled :: bool

datatype 'e AdmEvent =
    Accepted Conn
  | AcceptFailed 'e
  | LeftConnection
  | Ran nat string "(RunError, VarnishResponse) result"
  | Delivered nat
  | Invoked string
  | Queued nat
  | Expired nat
  | Cancelled

definition reqChCap :: nat where "reqChCap = 1"

definition afterBanner :: "BannerError option \<Rightarrow> Conn \<Rightarrow> 'e Thread" where
  "afterBanner err conn =
     (case err of
        None \<Rightarrow> Serving conn
      | Some e \<Rightarrow> if e = ChallengeCrash \<or> e = AuthFailed ServerCrash then Panicked else Accepting)"

definition afterRun :: "nat \<Rightarrow> (RunError, VarnishResponse) result \<Rightarrow> Conn \<Rightarrow> 'e Thread" where
  "afterRun i out conn =
     (case out of
        Inr resp \<Rightarrow> Delivering conn i resp
      | Inl e \<Rightarrow> if e = ServerCrash then Panicked else Accepting)"

section \<open>Steps\<close>

text \<open>
  Sending on the unbuffered response channel is a rendezvous: it happens when the caller is
  still in its \<^verbatim>\<open>select\<close>. The handler's \<^verbatim>\<open>select\<close> does not cover that send.
\<close>

inductive adm_step :: "(string \<Rightarrow> string) \<Rightarrow> 'e AdmSys \<Rightarrow> 'e AdmEvent \<Rightarrow> 'e AdmSys \<Rightarrow> bool" for sha256 where
  accept: "sy_thread s = Accepting \<Longrightarrow>
    readBanner sha256 now ((sy_server s)\<lparr>sv_bannerReceived := False, sv_banner := []\<rparr>) conn = (err, v, conn') \<Longrightarrow>
    adm_step sha256 s (Accepted conn) (s\<lparr>sy_server := v, sy_thread := afterBanner err conn'\<rparr>)"
| accept_failed: "sy_thread s = Accepting \<Longrightarrow>
    adm_step sha256 s (AcceptFailed e)
      (s\<lparr>sy_thread := Returned (if sy_cancelled s then None else Some e)\<rparr>)"
| leave: "sy_thread s = Serving conn \<Longrightarrow> sy_cancelled s \<Longrightarrow>
    adm_step sha256 s LeftConnection (s\<lparr>sy_thread := Accepting\<rparr>)"
| serve: "sy_thread s = Serving conn \<Longrightarrow> sy_reqCh s = (i, cmd) # reqs \<Longrightarrow>
    run now cmd (sy_server s) conn = (out, v, conn') \<Longrightarrow>
    adm_step sha256 s (Ran i cmd out)
      (s\<lparr>sy_server := v, sy_thread := afterRun i out conn', sy_reqCh := reqs\<rparr>)"
| deliver: "sy_thread s = Delivering conn i resp \<Longrightarrow> i < length (sy_calls s) \<Longrightarrow> sy_calls s ! i = Waiting cmd \<Longrightarrow>
    adm_step sha256 s (Delivered i)
      (s\<lparr>sy_thread := Serving conn, sy_calls := (sy_calls s)[i := Answered cmd resp]\<rparr>)"
| invoke: "adm_step sha256 s (Invoked cmd) (s\<lparr>sy_calls := sy_calls s @ [Queueing cmd]\<rparr>)"
| queue: "i < length (sy_calls s) \<Longrightarrow> sy_calls s ! i = Queueing cmd \<Longrightarrow> length (sy_reqCh s) < reqChCap \<Longrightarrow>
    adm_step sha256 s (Queued i)
      (s\<lparr>sy_calls := (sy_calls s)[i := Waiting cmd], sy_reqCh := sy_reqCh s @ [(i, cmd)]\<rparr>)"
| expire: "i < length (sy_calls s) \<Longrightarrow> sy_calls s ! i = Waiting cmd \<Longrightarrow>
    adm_step sha256 s (Expired i) (s\<lparr>sy_calls := (sy_calls s)[i := TimedOut cmd]\<rparr>)"
| cancel: "adm_step sha256 s Cancelled (s\<lparr>sy_cancelled := True\<rparr>)"

inductive_cases adm_stepE: "adm_step sha256 s e t"

inductive adm_run :: "(string \<Rightarrow> string) \<Rightarrow> 'e AdmSys \<Rightarrow> 'e AdmEvent list \<Rightarrow> 'e AdmSys \<Rightarrow> bool" for sha256 where
  adm_nil: "adm_run sha256 s [] s"
| adm_snoc: "adm_run sha256 s es t \<Longrightarrow> adm_step sha256 t e u \<Longrightarrow> adm_run sha256 s (es @ [e]) u"

text \<open>\<^verbatim>\<open>Run\<close> needs a listener; without one it returns at once.\<close>

definition server_Run :: "'e \<Rightarrow> Server \<Rightarrow> 'e AdmSys" where
  "server_Run noListener v =
     \<lparr>sy_server = v, sy_thread = (if sv_listening v then Accepting else Returned (Some noListener)),
      sy_reqCh = [], sy_calls = [], sy_cancelled = False\<rparr>"

section \<open>Every call gets the answer to its own command\<close>

fun invoked :: "'e AdmEvent list \<Rightarrow> string list" where
  "invoked [] = []"
| "invoked (Invoked cmd # es) = cmd # invoked es"
| "invoked (e # es) = invoked es"

fun runs_of :: "nat \<Rightarrow> 'e AdmEvent list \<Rightarrow> (string \<times> (RunError, VarnishResponse) result) list" where
  "runs_of i [] = []"
| "runs_of i (Ran j cmd out # es) = (if i = j then (cmd, out) # runs_of i es else runs_of i es)"
| "runs_of i (e # es) = runs_of i es"

lemma invoked_append [simp]: "invoked (es @ fs) = invoked es @ invoked fs"
  by (induction es rule: invoked.induct) auto

lemma runs_of_append [simp]: "runs_of i (es @ fs) = runs_of i es @ runs_of i fs"
  by (induction i es rule: runs_of.induct) auto

text \<open>What is known of a call after the events \<open>es\<close>.\<close>

definition call_ok :: "'e AdmEvent list \<Rightarrow> 'e AdmSys \<Rightarrow> nat \<Rightarrow> bool" where
  "call_ok es s i \<longleftrightarrow>
     (case sy_calls s ! i of
        Queueing cmd \<Rightarrow> runs_of i es = [] \<and> i \<notin> fst ` set (sy_reqCh s)
      | Waiting cmd \<Rightarrow> length (runs_of i es) \<le> 1 \<and> (i \<in> fst ` set (sy_reqCh s) \<longrightarrow> runs_of i es = [])
      | TimedOut cmd \<Rightarrow> length (runs_of i es) \<le> 1 \<and> (i \<in> fst ` set (sy_reqCh s) \<longrightarrow> runs_of i es = [])
      | Answered cmd resp \<Rightarrow> runs_of i es = [(cmd, Inr resp)] \<and> i \<notin> fst ` set (sy_reqCh s))"

definition adm_inv :: "'e AdmEvent list \<Rightarrow> 'e AdmSys \<Rightarrow> bool" where
  "adm_inv es s \<longleftrightarrow>
     map command_of (sy_calls s) = invoked es \<and>
     (\<forall>i < length (sy_calls s). call_ok es s i) \<and>
     (\<forall>i \<ge> length (sy_calls s). runs_of i es = []) \<and>
     distinct (map fst (sy_reqCh s)) \<and>
     (\<forall>i cmd. (i, cmd) \<in> set (sy_reqCh s) \<longrightarrow> i < length (sy_calls s) \<and> command_of (sy_calls s ! i) = cmd) \<and>
     (\<forall>conn i resp. sy_thread s = Delivering conn i resp \<longrightarrow>
        i < length (sy_calls s) \<and> runs_of i es = [(command_of (sy_calls s ! i), Inr resp)])"

lemma adm_inv_frame:
  assumes "adm_inv es s" "sy_calls t = sy_calls s" "sy_reqCh t = sy_reqCh s" "invoked [e] = []" "\<And>i. runs_of i [e] = []"
    and "\<And>conn i resp. sy_thread t = Delivering conn i resp \<Longrightarrow> sy_thread s = Delivering conn i resp"
  shows "adm_inv (es @ [e]) t"
proof -
  have "call_ok (es @ [e]) t i = call_ok es s i" for i
    using assms(2-5) by (simp add: call_ok_def split: Call.split)
  then show ?thesis using assms by (auto simp: adm_inv_def)
qed

lemma afterBanner_Delivering [simp]: "afterBanner err conn \<noteq> Delivering c i resp"
  by (simp add: afterBanner_def split: option.split)

lemma afterRun_Delivering [simp]: "afterRun i out conn = Delivering c j resp \<longleftrightarrow> c = conn \<and> j = i \<and> out = Inr resp"
  by (auto simp: afterRun_def split: sum.split)

lemma adm_inv_serve:
  assumes inv: "adm_inv es s" and q: "sy_reqCh s = (i, cmd) # reqs"
  shows "adm_inv (es @ [Ran i cmd out]) (s\<lparr>sy_server := v, sy_thread := afterRun i out conn, sy_reqCh := reqs\<rparr>)"
    (is "adm_inv ?es ?t")
proof -
  have i: "i < length (sy_calls s)" "command_of (sy_calls s ! i) = cmd" "i \<notin> fst ` set reqs"
    and ok: "call_ok es s i" using inv q by (auto simp: adm_inv_def)
  have new: "runs_of i es = []" using ok q by (auto simp: call_ok_def split: Call.splits)
  have "call_ok ?es ?t j" if "j < length (sy_calls s)" for j
  proof -
    have "call_ok es s j" using inv that by (simp add: adm_inv_def)
    then show ?thesis using i(3) new ok q by (cases "j = i") (auto simp: call_ok_def split: Call.splits)
  qed
  with inv i q new show ?thesis by (auto simp: adm_inv_def)
qed

lemma adm_inv_deliver:
  assumes inv: "adm_inv es s" and d: "sy_thread s = Delivering conn i resp" "i < length (sy_calls s)" "sy_calls s ! i = Waiting cmd"
  shows "adm_inv (es @ [Delivered i]) (s\<lparr>sy_thread := Serving conn, sy_calls := (sy_calls s)[i := Answered cmd resp]\<rparr>)"
    (is "adm_inv ?es ?t")
proof -
  have r: "runs_of i es = [(cmd, Inr resp)]" using inv d by (auto simp: adm_inv_def)
  have "call_ok es s i" using inv d(2) by (simp add: adm_inv_def)
  with d r have n: "i \<notin> fst ` set (sy_reqCh s)" by (auto simp: call_ok_def)
  have "call_ok ?es ?t j" if "j < length (sy_calls s)" for j
  proof -
    have "call_ok es s j" using inv that by (simp add: adm_inv_def)
    then show ?thesis using d n r by (cases "j = i") (auto simp: call_ok_def split: Call.splits)
  qed
  moreover have "map command_of ((sy_calls s)[i := Answered cmd resp]) = map command_of (sy_calls s)"
    using d by (simp add: map_update list_update_same_conv)
  moreover have "(i, c) \<notin> set (sy_reqCh s)" for c using n by force
  ultimately show ?thesis using inv d by (auto simp: adm_inv_def nth_list_update)
qed

text \<open>A call that changes its phase without an answer: it is queued or it expires.\<close>

lemma adm_inv_phase:
  assumes inv: "adm_inv es s" and i: "i < length (sy_calls s)" "command_of c = command_of (sy_calls s ! i)"
    and e: "invoked [e] = []" "\<And>j. runs_of j [e] = []"
    and q: "sy_reqCh s' = sy_reqCh s \<and> sy_calls s ! i = Waiting cmd \<and> c = TimedOut cmd \<or>
            sy_reqCh s' = sy_reqCh s @ [(i, cmd)] \<and> sy_calls s ! i = Queueing cmd \<and> c = Waiting cmd"
    and s': "sy_calls s' = (sy_calls s)[i := c]" "sy_thread s' = sy_thread s"
  shows "adm_inv (es @ [e]) s'"
proof -
  have ok: "call_ok es s i" using inv i by (simp add: adm_inv_def)
  have "call_ok (es @ [e]) s' j" if "j < length (sy_calls s)" for j
  proof -
    have "call_ok es s j" using inv that by (simp add: adm_inv_def)
    then show ?thesis using i e q s' ok by (cases "j = i") (auto simp: call_ok_def split: Call.splits)
  qed
  moreover have "map command_of (sy_calls s') = map command_of (sy_calls s)"
    using i s' by (simp add: map_update list_update_same_conv)
  moreover have "sy_calls s ! i = Queueing cmd \<Longrightarrow> i \<notin> fst ` set (sy_reqCh s)"
    using ok by (simp add: call_ok_def)
  moreover have "cmd = c'" if "(i, c') \<in> set (sy_reqCh s)" for c'
    using inv that q unfolding adm_inv_def by (metis command_of.simps(1,2))
  ultimately show ?thesis using inv i e q s' by (auto simp: adm_inv_def nth_list_update)
qed

lemma adm_inv_invoke:
  assumes inv: "adm_inv es s"
  shows "adm_inv (es @ [Invoked cmd]) (s\<lparr>sy_calls := sy_calls s @ [Queueing cmd]\<rparr>)" (is "adm_inv ?es ?t")
proof -
  have "call_ok ?es ?t j" if "j < length (sy_calls s) + 1" for j
  proof (cases "j = length (sy_calls s)")
    case True
    have "j \<notin> fst ` set (sy_reqCh s)" using inv True by (fastforce simp: adm_inv_def)
    with inv True show ?thesis by (auto simp: call_ok_def adm_inv_def)
  next
    case False
    then have "j < length (sy_calls s)" using that by simp
    with inv show ?thesis by (auto simp: adm_inv_def call_ok_def nth_append split: Call.splits)
  qed
  with inv show ?thesis by (fastforce simp: adm_inv_def nth_append)
qed

lemma adm_inv_step: "adm_inv es s \<Longrightarrow> adm_step sha256 s e t \<Longrightarrow> adm_inv (es @ [e]) t"
proof (erule adm_stepE, goal_cases)
  case 4 then show ?case by (auto intro: adm_inv_serve)
next
  case 5 then show ?case by (auto intro: adm_inv_deliver)
next
  case 6 then show ?case by (auto intro: adm_inv_invoke)
next
  case (7 i cmd) then show ?case by (auto intro: adm_inv_phase[of es s i "Waiting cmd" _ _ cmd])
next
  case (8 i cmd) then show ?case by (auto intro: adm_inv_phase[of es s i "TimedOut cmd" _ _ cmd])
qed (auto intro: adm_inv_frame)

lemma adm_run_inv: "adm_run sha256 s es t \<Longrightarrow> adm_inv [] s \<Longrightarrow> adm_inv es t"
  by (induction rule: adm_run.induct) (auto intro: adm_inv_step)

lemma server_Run_inv: "adm_inv [] (server_Run e v)"
  by (simp add: adm_inv_def server_Run_def)

section \<open>A reply that nobody waits for\<close>

definition blocked_on :: "Conn \<Rightarrow> nat \<Rightarrow> VarnishResponse \<Rightarrow> 'e AdmSys \<Rightarrow> bool" where
  "blocked_on conn i resp s \<longleftrightarrow>
     sy_thread s = Delivering conn i resp \<and> i < length (sy_calls s) \<and> (\<exists>cmd. sy_calls s ! i = TimedOut cmd)"

definition answered :: "'e AdmSys \<Rightarrow> (nat \<times> Call) set" where
  "answered s = {(j, c). j < length (sy_calls s) \<and> c = sy_calls s ! j \<and> (\<exists>cmd resp. c = Answered cmd resp)}"

lemma blocked_step:
  assumes "blocked_on conn i resp s" "adm_step sha256 s e t"
  shows "blocked_on conn i resp t \<and> answered t = answered s"
  using assms(2,1)
  by (cases rule: adm_step.cases)
     (auto simp: blocked_on_def answered_def nth_append nth_list_update split: if_splits)

lemma blocked_run:
  "adm_run sha256 s es t \<Longrightarrow> blocked_on conn i resp s \<Longrightarrow> blocked_on conn i resp t \<and> answered t = answered s"
proof (induction rule: adm_run.induct)
  case (adm_snoc s es t e u)
  then show ?case using blocked_step[OF _ adm_snoc.hyps(2)] by auto
qed simp

text \<open>
  A call that was given a response and has not received it is the one the thread is
  delivering to; a call that has expired stays so.
\<close>

definition undelivered :: "'e AdmEvent list \<Rightarrow> 'e AdmSys \<Rightarrow> bool" where
  "undelivered es s \<longleftrightarrow>
     (\<forall>i cmd resp. Ran i cmd (Inr resp) \<in> set es \<and> (\<exists>c. sy_calls s ! i = Waiting c \<or> sy_calls s ! i = TimedOut c) \<longrightarrow>
        (\<exists>conn. sy_thread s = Delivering conn i resp)) \<and>
     (\<forall>i. Expired i \<in> set es \<longrightarrow> i < length (sy_calls s) \<and> (\<exists>c. sy_calls s ! i = TimedOut c))"

lemma Ran_runs_of: "Ran i cmd out \<in> set es \<longleftrightarrow> (cmd, out) \<in> set (runs_of i es)"
  by (induction i es rule: runs_of.induct) auto

lemma undelivered_step:
  assumes "undelivered es s" "adm_inv es s" "adm_step sha256 s e t"
  shows "undelivered (es @ [e]) t"
proof -
  have known: "i < length (sy_calls s)" if "Ran i c out \<in> set es" for i c out
  proof (rule ccontr)
    assume "\<not> i < length (sy_calls s)"
    then have "runs_of i es = []" using assms(2) by (simp add: adm_inv_def)
    with that show False by (simp add: Ran_runs_of)
  qed
  have queueing: "Ran i c out \<notin> set es" if "i < length (sy_calls s)" "sy_calls s ! i = Queueing cmd" for i c out cmd
  proof -
    have "call_ok es s i" using assms(2) that by (simp add: adm_inv_def)
    with that(2) show ?thesis by (simp add: call_ok_def Ran_runs_of)
  qed
  show ?thesis
    using assms(3,1)
    by (cases rule: adm_step.cases)
      (auto simp: undelivered_def nth_list_update nth_append dest: known queueing split: if_splits)
qed

lemma undelivered_run:
  "adm_run sha256 s es t \<Longrightarrow> adm_inv [] s \<Longrightarrow> undelivered es t"
proof (induction rule: adm_run.induct)
  case (adm_nil s)
  then show ?case by (simp add: undelivered_def)
next
  case (adm_snoc s es t e u)
  then show ?case using undelivered_step[OF _ adm_run_inv] by blast
qed

section \<open>Properties\<close>

text \<open>
  C8. Concurrent callers of \<^verbatim>\<open>Exec\<close> never get each other's answers: in every
  interleaving of callers, timeouts, reconnections and the server goroutine, each command is
  run at most once, and a call that returns a response returns the one varnishd gave to the
  command of that very call.
\<close>

theorem exec_gets_own_answer:
  assumes "adm_run sha256 (server_Run noListener v) es s" "i < length (sy_calls s)"
  shows "command_of (sy_calls s ! i) = invoked es ! i \<and> length (runs_of i es) \<le> 1 \<and>
    (\<forall>cmd resp. sy_calls s ! i = Answered cmd resp \<longrightarrow> runs_of i es = [(invoked es ! i, Inr resp)])"
proof -
  have inv: "adm_inv es s" using adm_run_inv[OF assms(1) server_Run_inv] .
  then have c: "command_of (sy_calls s ! i) = invoked es ! i" and ok: "call_ok es s i"
    using assms(2) by (auto simp: adm_inv_def simp flip: nth_map)
  then show ?thesis by (cases "sy_calls s ! i") (auto simp: call_ok_def)
qed

text \<open>
  C19. Once a call has expired and varnishd has also answered its command, in whichever
  order the two happened, the server is blocked for good: the goroutine is in the send of
  that answer on the unbuffered response channel and stays there in every continuation, so no
  later command is ever answered, and cancelling the context does not end it either.
\<close>

theorem late_reply_blocks_server:
  assumes "adm_run sha256 (server_Run noListener v) es s"
    and "Expired i \<in> set es" "Ran i cmd (Inr resp) \<in> set es"
  shows "\<exists>conn. sy_thread s = Delivering conn i resp \<and>
    (\<forall>es' t. adm_run sha256 s es' t \<longrightarrow> sy_thread t = Delivering conn i resp \<and> answered t = answered s)"
proof -
  have "undelivered es s" using undelivered_run[OF assms(1) server_Run_inv] .
  then obtain conn where b: "blocked_on conn i resp s"
    using assms(2,3) unfolding undelivered_def blocked_on_def by metis
  have "sy_thread t = Delivering conn i resp \<and> answered t = answered s" if "adm_run sha256 s es' t" for es' t
    using blocked_run[OF that b] by (simp add: blocked_on_def)
  moreover have "sy_thread s = Delivering conn i resp" using b by (simp add: blocked_on_def)
  ultimately show ?thesis by blast
qed

definition sample_server :: Server where
  "sample_server =
     \<lparr>sv_Port = 6082, sv_Secret = ''s'', sv_listening = True, sv_banner = [], sv_bannerReceived = False,
      sv_environment = [], sv_version = [], sv_transcript = None\<rparr>"

definition sample_banner :: "BannerError option \<times> Server \<times> Conn" where
  "sample_banner = readBanner id ''t'' sample_server sample_auth_conn"

definition sample_resp :: VarnishResponse where
  "sample_resp = \<lparr>statusCode = 200, payload = ''varnish-7.7.3''\<rparr>"

lemma sample_banner_ok: "fst sample_banner = None"
  by code_simp

lemma sample_ping: "fst (run ''t'' ''ping'' (fst (snd sample_banner)) (snd (snd sample_banner))) = Inr sample_resp"
  by code_simp

text \<open>A connection is accepted and one command run; the response is about to be delivered.\<close>

definition sample_trace :: "string AdmEvent list" where
  "sample_trace = [Accepted sample_auth_conn, Invoked ''ping'', Queued 0, Ran 0 ''ping'' (Inr sample_resp)]"

lemma sample_delivering:
  "\<exists>s conn. adm_run id (server_Run ''no listener'' sample_server) sample_trace s \<and>
     sy_thread s = Delivering conn 0 sample_resp \<and> sy_calls s = [Waiting ''ping'']"
proof -
  obtain v conn where b: "sample_banner = (None, v, conn)" using sample_banner_ok by (metis prod.collapse)
  obtain v' conn' where r: "run ''t'' ''ping'' v conn = (Inr sample_resp, v', conn')"
    using sample_ping b by (metis prod.collapse fst_conv snd_conv)
  let ?s0 = "server_Run ''no listener'' sample_server :: string AdmSys"
  let ?s1 = "?s0\<lparr>sy_server := v, sy_thread := afterBanner None conn\<rparr>"
  let ?s2 = "?s1\<lparr>sy_calls := sy_calls ?s1 @ [Queueing ''ping'']\<rparr>"
  let ?s3 = "?s2\<lparr>sy_calls := (sy_calls ?s2)[0 := Waiting ''ping''], sy_reqCh := sy_reqCh ?s2 @ [(0, ''ping'')]\<rparr>"
  let ?s4 = "?s3\<lparr>sy_server := v', sy_thread := afterRun 0 (Inr sample_resp) conn', sy_reqCh := []\<rparr>"
  have fresh: "(sy_server ?s0)\<lparr>sv_bannerReceived := False, sv_banner := []\<rparr> = sample_server"
    by (simp add: server_Run_def sample_server_def)
  have s1: "adm_step id ?s0 (Accepted sample_auth_conn) ?s1"
    by (rule adm_step.accept[of _ _ "''t''"]) (use b fresh in \<open>simp_all add: server_Run_def sample_banner_def sample_server_def\<close>)
  have s2: "adm_step id ?s1 (Invoked ''ping'') ?s2" by (rule adm_step.invoke)
  have s3: "adm_step id ?s2 (Queued 0) ?s3"
    by (rule adm_step.queue) (simp_all add: server_Run_def reqChCap_def)
  have s4: "adm_step id ?s3 (Ran 0 ''ping'' (Inr sample_resp)) ?s4"
    by (rule adm_step.serve[of _ conn _ _ _ "''t''"]) (use r in \<open>simp_all add: server_Run_def afterBanner_def\<close>)
  have "adm_run id ?s0 (((([] @ [Accepted sample_auth_conn]) @ [Invoked ''ping'']) @ [Queued 0]) @ [Ran 0 ''ping'' (Inr sample_resp)]) ?s4"
    by (rule adm_snoc[OF adm_snoc[OF adm_snoc[OF adm_snoc[OF adm_nil s1] s2] s3] s4])
  then show ?thesis
    by (intro exI[of _ ?s4] exI[of _ conn']) (simp add: sample_trace_def server_Run_def afterRun_def)
qed

theorem exec_gets_own_answer_witness:
  "\<exists>s. adm_run id (server_Run ''no listener'' sample_server) (sample_trace @ [Delivered 0]) s \<and>
     sy_calls s = [Answered ''ping'' sample_resp] \<and>
     runs_of 0 (sample_trace @ [Delivered 0]) = [(''ping'', Inr sample_resp)]"
proof -
  obtain s conn where s: "adm_run id (server_Run ''no listener'' sample_server) sample_trace s"
    "sy_thread s = Delivering conn 0 sample_resp" "sy_calls s = [Waiting ''ping'']"
    using sample_delivering by blast
  let ?t = "s\<lparr>sy_thread := Serving conn, sy_calls := (sy_calls s)[0 := Answered ''ping'' sample_resp]\<rparr>"
  have "adm_step id s (Delivered 0) ?t"
    by (rule adm_step.deliver) (use s in simp_all)
  with s(1) have run: "adm_run id (server_Run ''no listener'' sample_server) (sample_trace @ [Delivered 0]) ?t"
    by (rule adm_snoc)
  have "invoked (sample_trace @ [Delivered 0]) = [''ping'']" by (simp add: sample_trace_def)
  with exec_gets_own_answer[OF run, of 0] s run show ?thesis by (intro exI[of _ ?t]) simp
qed

text \<open>The other order: the call expires while its command is still in the queue.\<close>

definition late_trace :: "string AdmEvent list" where
  "late_trace = [Accepted sample_auth_conn, Invoked ''ping'', Queued 0, Expired 0, Ran 0 ''ping'' (Inr sample_resp)]"

lemma sample_late:
  "\<exists>s. adm_run id (server_Run ''no listener'' sample_server) late_trace s \<and> sy_calls s = [TimedOut ''ping'']"
proof -
  obtain v conn where b: "sample_banner = (None, v, conn)" using sample_banner_ok by (metis prod.collapse)
  obtain v' conn' where r: "run ''t'' ''ping'' v conn = (Inr sample_resp, v', conn')"
    using sample_ping b by (metis prod.collapse fst_conv snd_conv)
  let ?s0 = "server_Run ''no listener'' sample_server :: string AdmSys"
  let ?s1 = "?s0\<lparr>sy_server := v, sy_thread := afterBanner None conn\<rparr>"
  let ?s2 = "?s1\<lparr>sy_calls := sy_calls ?s1 @ [Queueing ''ping'']\<rparr>"
  let ?s3 = "?s2\<lparr>sy_calls := (sy_calls ?s2)[0 := Waiting ''ping''], sy_reqCh := sy_reqCh ?s2 @ [(0, ''ping'')]\<rparr>"
  let ?s4 = "?s3\<lparr>sy_calls := (sy_calls ?s3)[0 := TimedOut ''ping'']\<rparr>"
  let ?s5 = "?s4\<lparr>sy_server := v', sy_thread := afterRun 0 (Inr sample_resp) conn', sy_reqCh := []\<rparr>"
  have fresh: "(sy_server ?s0)\<lparr>sv_bannerReceived := False, sv_banner := []\<rparr> = sample_server"
    by (simp add: server_Run_def sample_server_def)
  have s1: "adm_step id ?s0 (Accepted sample_auth_conn) ?s1"
    by (rule adm_step.accept[of _ _ "''t''"]) (use b fresh in \<open>simp_all add: server_Run_def sample_banner_def sample_server_def\<close>)
  have s2: "adm_step id ?s1 (Invoked ''ping'') ?s2" by (rule adm_step.invoke)
  have s3: "adm_step id ?s2 (Queued 0) ?s3"
    by (rule adm_step.queue) (simp_all add: server_Run_def reqChCap_def)
  have s4: "adm_step id ?s3 (Expired 0) ?s4"
    by (rule adm_step.expire) (simp_all add: server_Run_def)
  have s5: "adm_step id ?s4 (Ran 0 ''ping'' (Inr sample_resp)) ?s5"
    by (rule adm_step.serve[of _ conn _ _ _ "''t''"]) (use r in \<open>simp_all add: server_Run_def afterBanner_def\<close>)
  have "adm_run id ?s0 ((((([] @ [Accepted sample_auth_conn]) @ [Invoked ''ping'']) @ [Queued 0]) @ [Expired 0]) @
      [Ran 0 ''ping'' (Inr sample_resp)]) ?s5"
    by (rule adm_snoc[OF adm_snoc[OF adm_snoc[OF adm_snoc[OF adm_snoc[OF adm_nil s1] s2] s3] s4] s5])
  then show ?thesis by (intro exI[of _ ?s5]) (simp add: late_trace_def server_Run_def)
qed

theorem late_reply_blocks_server_witness:
  "\<exists>s conn. adm_run id (server_Run ''no listener'' sample_server) late_trace s \<and>
     sy_thread (s\<lparr>sy_cancelled := True\<rparr>) = Delivering conn 0 sample_resp \<and> answered (s\<lparr>sy_cancelled := True\<rparr>) = {}"
proof -
  obtain s where s: "adm_run id (server_Run ''no listener'' sample_server) late_trace s"
    "sy_calls s = [TimedOut ''ping'']" using sample_late by blast
  have "Expired 0 \<in> set late_trace" "Ran 0 ''ping'' (Inr sample_resp) \<in> set late_trace"
    by (simp_all add: late_trace_def)
  from late_reply_blocks_server[OF s(1) this] obtain conn where
    b: "\<And>es' t. adm_run id s es' t \<Longrightarrow> sy_thread t = Delivering conn 0 sample_resp \<and> answered t = answered s"
    by blast
  have "adm_run id s ([] @ [Cancelled]) (s\<lparr>sy_cancelled := True\<rparr>)" by (rule adm_snoc[OF adm_nil adm_step.cancel])
  from b[OF this] have "sy_thread (s\<lparr>sy_cancelled := True\<rparr>) = Delivering conn 0 sample_resp"
    "answered (s\<lparr>sy_cancelled := True\<rparr>) = answered s" by simp_all
  moreover have "answered s = {}" using s(2) by (auto simp: answered_def)
  ultimately show ?thesis using s(1) by blast
qed

end
