(* ===== verification/VarnishProc.thy ===== *)
theory VarnishProc
  imports GoPaths GoMaps GoDuration "HOL-Library.Sublist"
begin

text \<open>
  Package \<^verbatim>\<open>varnish\<close> (\<^verbatim>\<open>process.go\<close>, \<^verbatim>\<open>config.go\<close>, \<^verbatim>\<open>types.go\<close>, \<^verbatim>\<open>logwriter.go\<close>): the
  arguments and the environment varnishd is started with, the files it finds, and the
  control of its clock through the modification time of a file. The file system is a record
  with a fault function: any operation may fail.
\<close>

section \<open>The file system\<close>

record FileNode =
  fn_Content :: string
  fn_Perm :: nat
  fn_ModTime :: int

text \<open>Times are nanoseconds; \<open>fs_now\<close> is the wall clock.\<close>

record 'e FS =
  fs_files :: "string \<Rightarrow> FileNode option"
  fs_dirs :: "string \<Rightarrow> nat option"
  fs_fault :: "string \<Rightarrow> string \<Rightarrow> 'e option"
  fs_now :: int

definition MkdirAll :: "string \<Rightarrow> nat \<Rightarrow> 'e FS \<Rightarrow> 'e option \<times> 'e FS" where
  "MkdirAll path perm fs =
     (case fs_fault fs ''mkdir'' path of
        Some e \<Rightarrow> (Some e, fs)
      | None \<Rightarrow> (None, if fs_dirs fs path = None then fs\<lparr>fs_dirs := (fs_dirs fs)(path \<mapsto> perm)\<rparr> else fs))"

definition Chmod :: "string \<Rightarrow> nat \<Rightarrow> 'e FS \<Rightarrow> 'e option \<times> 'e FS" where
  "Chmod path perm fs =
     (case fs_fault fs ''chmod'' path of
        Some e \<Rightarrow> (Some e, fs)
      | None \<Rightarrow> (None, fs\<lparr>fs_dirs := (fs_dirs fs)(path \<mapsto> perm)\<rparr>))"

text \<open>The permissions count only for a file that is created.\<close>

definition WriteFile :: "string \<Rightarrow> string \<Rightarrow> nat \<Rightarrow> 'e FS \<Rightarrow> 'e option \<times> 'e FS" where
  "WriteFile path data perm fs =
     (case fs_fault fs ''write'' path of
        Some e \<Rightarrow> (Some e, fs)
      | None \<Rightarrow>
          (None, fs\<lparr>fs_files := (fs_files fs)(path \<mapsto>
             \<lparr>fn_Content = data,
              fn_Perm = (case fs_files fs path of None \<Rightarrow> perm | Some f \<Rightarrow> fn_Perm f),
              fn_ModTime = fs_now fs\<rparr>)\<rparr>))"

text \<open>\<^verbatim>\<open>os.Chtimes\<close> on a file that exists; \<open>missing\<close> is the error otherwise.\<close>

definition Chtimes :: "'e \<Rightarrow> string \<Rightarrow> int \<Rightarrow> 'e FS \<Rightarrow> 'e option \<times> 'e FS" where
  "Chtimes missing path t fs =
     (case fs_fault fs ''chtimes'' path of
        Some e \<Rightarrow> (Some e, fs)
      | None \<Rightarrow>
          (case fs_files fs path of
             None \<Rightarrow> (Some missing, fs)
           | Some f \<Rightarrow> (None, fs\<lparr>fs_files := (fs_files fs)(path \<mapsto> f\<lparr>fn_ModTime := t\<rparr>)\<rparr>)))"

definition exists_file :: "'e FS \<Rightarrow> string \<Rightarrow> bool" where
  "exists_file fs path \<longleftrightarrow> fs_fault fs ''stat'' path = None \<and> fs_files fs path \<noteq> None"

section \<open>Configuration\<close>

record HTTPConfig =
  ht_Address :: string
  ht_Port :: int

record HTTPSConfig =
  hs_Address :: string
  hs_Port :: int

record TimeConfig =
  tm_Enabled :: bool
  tm_LibPath :: string

record LicenseConfig =
  lc_Text :: string
  lc_File :: string

record VarnishConfig =
  vn_AdminPort :: int
  vn_HTTP :: "HTTPConfig list"
  vn_HTTPS :: "HTTPSConfig list"
  vn_ExtraArgs :: "string list"
  vn_Time :: TimeConfig

record VarnishdConfig =
  vd_WorkDir :: string
  vd_VarnishDir :: string
  vd_StorageArgs :: "string list"
  vd_VCLPath :: string
  vd_License :: LicenseConfig
  vd_Varnish :: VarnishConfig

definition httpSpec :: "HTTPConfig \<Rightarrow> string" where
  "httpSpec http =
     (if ht_Port http = 0 then '':0,http''
      else if ht_Address http \<noteq> [] then ht_Address http @ '':'' @ Itoa (ht_Port http) @ '',http''
      else '':'' @ Itoa (ht_Port http) @ '',http'')"

definition httpsSpec :: "HTTPSConfig \<Rightarrow> string" where
  "httpsSpec https =
     (if hs_Address https \<noteq> [] then hs_Address https @ '':'' @ Itoa (hs_Port https) @ '',https''
      else '':'' @ Itoa (hs_Port https) @ '',https'')"

definition BuildArgs :: "VarnishdConfig \<Rightarrow> string list" where
  "BuildArgs cfg =
     (if lc_Text (vd_License cfg) \<noteq> [] \<or> lc_File (vd_License cfg) \<noteq> []
      then [''-L'', PathJoin [vd_WorkDir cfg, ''varnish-enterprise.lic'']] else []) @
     [''-S'', PathJoin [vd_WorkDir cfg, ''secret''],
      ''-M'', ''localhost:'' @ Itoa (vn_AdminPort (vd_Varnish cfg)),
      ''-n'', vd_VarnishDir cfg, ''-F'', ''-f'', vd_VCLPath cfg] @
     concat (map (\<lambda>http. [''-a'', httpSpec http]) (vn_HTTP (vd_Varnish cfg))) @
     concat (map (\<lambda>https. [''-a'', httpsSpec https]) (vn_HTTPS (vd_Varnish cfg))) @
     vd_StorageArgs cfg @ vn_ExtraArgs (vd_Varnish cfg) @
     [''-p'', ''vcl_path='' @ PathJoin [vd_WorkDir cfg, ''vcl''], ''-p'', ''feature=+trace'']"

text \<open>The argument is the \<^verbatim>\<open>yaml\<close> tag of the field.\<close>

definition GetParamName :: "string \<Rightarrow> string" where
  "GetParamName yamlTag =
     (if yamlTag = [] \<or> yamlTag = ''-'' then []
      else takeWhile (\<lambda>c. c \<noteq> CHR '','') yamlTag)"

section \<open>The process manager\<close>

record Manager =
  mg_workDir :: string
  mg_varnishDir :: string
  mg_secret :: string
  mg_timeControlFile :: string
  mg_testStartTime :: int

definition manager_New :: "string \<Rightarrow> string \<Rightarrow> Manager" where
  "manager_New workDir customVarnishDir =
     \<lparr>mg_workDir = workDir,
      mg_varnishDir = (if customVarnishDir = [] then PathJoin [workDir, ''varnish''] else customVarnishDir),
      mg_secret = [], mg_timeControlFile = [], mg_testStartTime = 0\<rparr>"

datatype 'e ProcError =
    CreateDirectory string 'e
  | SetPermissions string 'e
  | WriteSecret 'e
  | WriteLicense 'e
  | VarnishdNotFound 'e
  | LibPathNotFound 'e
  | LibNotFound
  | UnsupportedOS string
  | CreateControlFile 'e
  | SetControlTime 'e
  | TimeControlNotInitialized
  | UpdateControlTime 'e
  | CmdStart 'e
  | ProcessFailed 'e

definition writeSecretFile :: "string \<Rightarrow> Manager \<Rightarrow> 'e FS \<Rightarrow> 'e ProcError option \<times> Manager \<times> 'e FS" where
  "writeSecretFile secret m fs =
     (let m1 = m\<lparr>mg_secret := secret\<rparr> in
      case WriteFile (PathJoin [mg_workDir m1, ''secret'']) secret 384 fs of
        (Some e, fs1) \<Rightarrow> (Some (WriteSecret e), m1, fs1)
      | (None, fs1) \<Rightarrow> (None, m1, fs1))"

definition writeLicenseFile :: "string \<Rightarrow> Manager \<Rightarrow> 'e FS \<Rightarrow> 'e ProcError option \<times> 'e FS" where
  "writeLicenseFile licenseText m fs =
     (if licenseText = [] then (None, fs)
      else case WriteFile (PathJoin [mg_workDir m, ''varnish-enterprise.lic'']) licenseText 420 fs of
             (Some e, fs1) \<Rightarrow> (Some (WriteLicense e), fs1)
           | (None, fs1) \<Rightarrow> (None, fs1))"

text \<open>The permissions 0755, 0600 and 0644 are written in decimal: 493, 384 and 420.\<close>

definition PrepareWorkspace :: "string \<Rightarrow> string \<Rightarrow> Manager \<Rightarrow> 'e FS \<Rightarrow> 'e ProcError option \<times> Manager \<times> 'e FS" where
  "PrepareWorkspace secret licenseText m fs =
     (case MkdirAll (mg_workDir m) 493 fs of
        (Some e, fs1) \<Rightarrow> (Some (CreateDirectory (mg_workDir m) e), m, fs1)
      | (None, fs1) \<Rightarrow>
          let vclDir = PathJoin [mg_workDir m, ''vcl''] in
          (case MkdirAll vclDir 493 fs1 of
             (Some e, fs2) \<Rightarrow> (Some (CreateDirectory vclDir e), m, fs2)
           | (None, fs2) \<Rightarrow>
               (case MkdirAll (mg_varnishDir m) 493 fs2 of
                  (Some e, fs3) \<Rightarrow> (Some (CreateDirectory (mg_varnishDir m) e), m, fs3)
                | (None, fs3) \<Rightarrow>
                    (case Chmod (mg_varnishDir m) 493 fs3 of
                       (Some e, fs4) \<Rightarrow> (Some (SetPermissions (mg_varnishDir m) e), m, fs4)
                     | (None, fs4) \<Rightarrow>
                         (case writeSecretFile secret m fs4 of
                            (Some e, m1, fs5) \<Rightarrow> (Some e, m1, fs5)
                          | (None, m1, fs5) \<Rightarrow>
                              (case writeLicenseFile licenseText m1 fs5 of
                                 (e, fs6) \<Rightarrow> (e, m1, fs6)))))))"

definition GetSecretPath :: "Manager \<Rightarrow> string" where
  "GetSecretPath m = PathJoin [mg_workDir m, ''secret'']"

definition GetLicensePath :: "Manager \<Rightarrow> string" where
  "GetLicensePath m = PathJoin [mg_workDir m, ''varnish-enterprise.lic'']"

section \<open>Fake time\<close>

fun firstExisting :: "(string \<Rightarrow> bool) \<Rightarrow> string list \<Rightarrow> string option" where
  "firstExisting exists [] = None"
| "firstExisting exists (path # paths) = (if exists path then Some path else firstExisting exists paths)"

definition detectLibfaketimePath ::
  "string \<Rightarrow> 'e \<Rightarrow> string \<Rightarrow> 'e FS \<Rightarrow> 'e ProcError + string" where
  "detectLibfaketimePath goos missing customPath fs =
     (if customPath \<noteq> [] then
        if exists_file fs customPath then Inr customPath else Inl (LibPathNotFound missing)
      else if goos = ''darwin'' \<or> goos = ''linux'' then
        let candidates = (if goos = ''darwin''
              then [''/opt/homebrew/lib/faketime/libfaketime.1.dylib'', ''/usr/local/lib/faketime/libfaketime.1.dylib'']
              else [''/usr/lib/x86_64-linux-gnu/faketime/libfaketime.so.1'', ''/usr/lib/faketime/libfaketime.so.1''])
        in case firstExisting (exists_file fs) candidates of None \<Rightarrow> Inl LibNotFound | Some path \<Rightarrow> Inr path
      else Inl (UnsupportedOS goos))"

definition initTimeControl :: "'e \<Rightarrow> Manager \<Rightarrow> 'e FS \<Rightarrow> ('e ProcError + string) \<times> Manager \<times> 'e FS" where
  "initTimeControl missing m fs =
     (let m1 = m\<lparr>mg_testStartTime := fs_now fs\<rparr>;
          controlFile = PathJoin [mg_workDir m1, ''faketime.control'']
      in case WriteFile controlFile [] 438 fs of
           (Some e, fs1) \<Rightarrow> (Inl (CreateControlFile e), m1, fs1)
         | (None, fs1) \<Rightarrow>
             (case Chtimes missing controlFile (mg_testStartTime m1) fs1 of
                (Some e, fs2) \<Rightarrow> (Inl (SetControlTime e), m1, fs2)
              | (None, fs2) \<Rightarrow> (Inr controlFile, m1\<lparr>mg_timeControlFile := controlFile\<rparr>, fs2)))"

definition AdvanceTimeBy :: "'e \<Rightarrow> int \<Rightarrow> Manager \<Rightarrow> 'e FS \<Rightarrow> 'e ProcError option \<times> 'e FS" where
  "AdvanceTimeBy missing offset m fs =
     (if mg_timeControlFile m = [] then (Some TimeControlNotInitialized, fs)
      else case Chtimes missing (mg_timeControlFile m) (mg_testStartTime m + offset) fs of
             (Some e, fs1) \<Rightarrow> (Some (UpdateControlTime e), fs1)
           | (None, fs1) \<Rightarrow> (None, fs1))"

text \<open>The zero time is \<open>None\<close>.\<close>

definition GetCurrentFakeTime :: "Manager \<Rightarrow> 'e FS \<Rightarrow> int option" where
  "GetCurrentFakeTime m fs =
     (if mg_timeControlFile m = [] \<or> \<not> exists_file fs (mg_timeControlFile m) then None
      else map_option fn_ModTime (fs_files fs (mg_timeControlFile m)))"

section \<open>Starting varnishd\<close>

record Command =
  cmd_Path :: string
  cmd_Args :: "string list"
  cmd_Dir :: string
  cmd_Env :: "string list"
  cmd_Setpgid :: bool

definition setupFaketime ::
  "string \<Rightarrow> 'e \<Rightarrow> TimeConfig \<Rightarrow> Command \<Rightarrow> Manager \<Rightarrow> 'e FS \<Rightarrow> ('e ProcError + Command) \<times> Manager \<times> 'e FS" where
  "setupFaketime goos missing tc cmd m fs =
     (case detectLibfaketimePath goos missing (tm_LibPath tc) fs of
        Inl e \<Rightarrow> (Inl e, m, fs)
      | Inr libPath \<Rightarrow>
          (case initTimeControl missing m fs of
             (Inl e, m1, fs1) \<Rightarrow> (Inl e, m1, fs1)
           | (Inr controlFile, m1, fs1) \<Rightarrow>
               let env1 = cmd_Env cmd @ [''FAKETIME=%'', ''FAKETIME_FOLLOW_FILE='' @ controlFile,
                                         ''FAKETIME_DONT_RESET=1'', ''FAKETIME_NO_CACHE=1'']
               in if goos = ''darwin'' then
                    (Inr (cmd\<lparr>cmd_Env := env1 @ [''DYLD_INSERT_LIBRARIES='' @ libPath, ''DYLD_FORCE_FLAT_NAMESPACE=1'']\<rparr>), m1, fs1)
                  else if goos = ''linux'' then
                    (Inr (cmd\<lparr>cmd_Env := env1 @ [''LD_PRELOAD='' @ libPath]\<rparr>), m1, fs1)
                  else (Inl (UnsupportedOS goos), m1, fs1)))"

text \<open>
  \<open>lookPath\<close> is the search in PATH, \<open>environ\<close> the process environment, \<open>started\<close> and
  \<open>exited\<close> the outcomes of starting the command and of waiting for it. The command that was
  started is returned beside the result.
\<close>

definition manager_Start ::
  "string \<Rightarrow> 'e \<Rightarrow> ('e + string) \<Rightarrow> string list \<Rightarrow> (Command \<Rightarrow> 'e option) \<Rightarrow> (Command \<Rightarrow> 'e option) \<Rightarrow>
   string \<Rightarrow> string list \<Rightarrow> TimeConfig option \<Rightarrow> Manager \<Rightarrow> 'e FS \<Rightarrow>
   'e ProcError option \<times> Command option \<times> Manager \<times> 'e FS" where
  "manager_Start goos missing lookPath environ started exited varnishCmd args timeConfig m fs =
     (case (if varnishCmd = [] then lookPath else Inr varnishCmd) of
        Inl e \<Rightarrow> (Some (VarnishdNotFound e), None, m, fs)
      | Inr path \<Rightarrow>
          let cmd = \<lparr>cmd_Path = path, cmd_Args = args, cmd_Dir = mg_varnishDir m, cmd_Env = environ, cmd_Setpgid = True\<rparr>
          in case (case timeConfig of
                     None \<Rightarrow> (Inr cmd, m, fs)
                   | Some tc \<Rightarrow> if tm_Enabled tc then setupFaketime goos missing tc cmd m fs else (Inr cmd, m, fs)) of
               (Inl e, m1, fs1) \<Rightarrow> (Some e, None, m1, fs1)
             | (Inr cmd1, m1, fs1) \<Rightarrow>
                 (case started cmd1 of
                    Some e \<Rightarrow> (Some (CmdStart e), None, m1, fs1)
                  | None \<Rightarrow>
                      (case exited cmd1 of
                         Some e \<Rightarrow> (Some (ProcessFailed e), Some cmd1, m1, fs1)
                       | None \<Rightarrow> (None, Some cmd1, m1, fs1))))"

section \<open>The output of varnishd\<close>

datatype Level = LevelDebug | LevelWarn | LevelError

definition classify :: "string \<Rightarrow> Level \<times> string" where
  "classify line =
     (if HasPrefix line ''Debug:'' then (LevelDebug, TrimSpace (TrimPrefix line ''Debug:''))
      else if HasPrefix line ''Info:'' then (LevelDebug, TrimSpace (TrimPrefix line ''Info:''))
      else if HasPrefix line ''Warning:'' \<or> HasPrefix line ''Warn:''
      then (LevelWarn, TrimSpace (TrimPrefix (TrimPrefix line ''Warning:'') ''Warn:''))
      else if HasPrefix line ''Error:'' then (LevelError, TrimSpace (TrimPrefix line ''Error:''))
      else (LevelDebug, line))"

text \<open>
  The records logged for one write, and the number of bytes it reports. The scanner stops
  at a line of 64 KiB or more.
\<close>

definition logWriter_Write :: "string \<Rightarrow> (Level \<times> string) list \<times> nat" where
  "logWriter_Write p =
     (map classify
        (filter (\<lambda>line. line \<noteq> [])
           (map TrimSpace (takeWhile (\<lambda>line. length line < 65536) (Split p [newline])))),
      length p)"

section \<open>Facts\<close>

lemma plain_names:
  "plain_name ''secret''" "plain_name ''vcl''" "plain_name ''varnish-enterprise.lic''" "plain_name ''faketime.control''"
  by (simp_all add: plain_name_def)

text \<open>Moving the clock, with other readings of the wall clock in between.\<close>

fun advance_all :: "'e \<Rightarrow> (int \<times> int) list \<Rightarrow> Manager \<Rightarrow> 'e FS \<Rightarrow> 'e ProcError option \<times> 'e FS" where
  "advance_all missing [] m fs = (None, fs)"
| "advance_all missing ((offset, now) # rest) m fs =
     (case AdvanceTimeBy missing offset m (fs\<lparr>fs_now := now\<rparr>) of
        (Some e, fs1) \<Rightarrow> (Some e, fs1)
      | (None, fs1) \<Rightarrow> advance_all missing rest m fs1)"

definition faked :: "Manager \<Rightarrow> int \<Rightarrow> 'e FS \<Rightarrow> bool" where
  "faked m t fs \<longleftrightarrow>
     mg_timeControlFile m \<noteq> [] \<and> map_option fn_ModTime (fs_files fs (mg_timeControlFile m)) = Some t"

lemma AdvanceTimeBy_faked:
  assumes "AdvanceTimeBy missing offset m fs = (None, fs')"
  shows "faked m (mg_testStartTime m + offset) fs' \<and> fs_fault fs' = fs_fault fs"
  using assms
  by (auto simp: AdvanceTimeBy_def Chtimes_def faked_def split: if_splits option.splits prod.splits)

lemma advance_all_faked:
  "advance_all missing steps m fs = (None, fs') \<Longrightarrow> steps \<noteq> [] \<Longrightarrow>
   faked m (mg_testStartTime m + fst (last steps)) fs' \<and> fs_fault fs' = fs_fault fs"
proof (induction steps arbitrary: fs)
  case (Cons s steps)
  obtain offset now where s: "s = (offset, now)" by (cases s)
  obtain fs1 where a: "AdvanceTimeBy missing offset m (fs\<lparr>fs_now := now\<rparr>) = (None, fs1)"
    "advance_all missing steps m fs1 = (None, fs')"
    using Cons.prems(1) by (auto simp: s split: option.splits prod.splits)
  from AdvanceTimeBy_faked[OF a(1)] a(2) Cons.IH[OF a(2)] show ?case by (cases steps) (auto simp: s)
qed simp

lemma initTimeControl_ok:
  assumes "initTimeControl missing m fs = (Inr cf, m', fs')"
  shows "mg_timeControlFile m' = cf \<and> cf \<noteq> [] \<and> mg_testStartTime m' = fs_now fs \<and> faked m' (fs_now fs) fs' \<and>
    fs_fault fs' = fs_fault fs"
  using assms PathJoin_nonempty[OF plain_names(4), of "mg_workDir m"]
  by (auto simp: initTimeControl_def Let_def WriteFile_def Chtimes_def faked_def split: option.splits prod.splits)

lemma setupFaketime_ok:
  assumes "setupFaketime goos missing tc cmd m fs = (Inr cmd', m', fs')"
  shows "\<exists>cf. initTimeControl missing m fs = (Inr cf, m', fs') \<and> ''FAKETIME_FOLLOW_FILE='' @ cf \<in> set (cmd_Env cmd')"
  using assms by (auto simp: setupFaketime_def Let_def split: sum.splits prod.splits if_splits)

section \<open>Properties\<close>

text \<open>
  C16. Time control is absolute: once varnishd was started with fake time, its clock file
  is the one named in its environment and shows the start time, and every advance sets it to
  the start time plus the offset, whatever advances came before and however much real time
  passed. Without fake time an advance fails and changes nothing.
\<close>

theorem fake_time_absolute:
  assumes "manager_Start goos missing lookPath environ started exited varnishCmd args tc m fs = (out, Some cmd, m', fs')"
    and "mg_timeControlFile m = []" "\<And>path. fs_fault fs ''stat'' path = None"
  shows "if (\<exists>t. tc = Some t \<and> tm_Enabled t)
    then mg_testStartTime m' = fs_now fs \<and>
      ''FAKETIME_FOLLOW_FILE='' @ mg_timeControlFile m' \<in> set (cmd_Env cmd) \<and>
      GetCurrentFakeTime m' fs' = Some (fs_now fs) \<and>
      (\<forall>steps fs''. steps \<noteq> [] \<and> advance_all missing steps m' fs' = (None, fs'') \<longrightarrow>
         GetCurrentFakeTime m' fs'' = Some (fs_now fs + fst (last steps)))
    else (\<forall>offset fs0. AdvanceTimeBy missing offset m' fs0 = (Some TimeControlNotInitialized, fs0))"
proof (cases "\<exists>t. tc = Some t \<and> tm_Enabled t")
  case True
  then obtain t where t: "tc = Some t" "tm_Enabled t" by blast
  obtain path where "setupFaketime goos missing t
      \<lparr>cmd_Path = path, cmd_Args = args, cmd_Dir = mg_varnishDir m, cmd_Env = environ, cmd_Setpgid = True\<rparr> m fs = (Inr cmd, m', fs')"
    using assms(1) t by (auto simp: manager_Start_def Let_def split: sum.splits prod.splits option.splits if_splits)
  from setupFaketime_ok[OF this] obtain cf where cf: "initTimeControl missing m fs = (Inr cf, m', fs')"
    "''FAKETIME_FOLLOW_FILE='' @ cf \<in> set (cmd_Env cmd)" by (elim exE conjE) (rule that)
  note i = initTimeControl_ok[OF cf(1)]
  have now: "GetCurrentFakeTime m' fs0 = Some x" if "faked m' x fs0" "fs_fault fs0 = fs_fault fs" for fs0 x
    using that assms(3) by (auto simp: GetCurrentFakeTime_def faked_def exists_file_def)
  have "GetCurrentFakeTime m' fs'' = Some (fs_now fs + fst (last steps))"
    if "steps \<noteq> []" "advance_all missing steps m' fs' = (None, fs'')" for steps fs''
    using now[of _ fs''] advance_all_faked[OF that(2,1)] i by simp
  with True i cf(2) now[of "fs_now fs" fs'] show ?thesis by auto
next
  case False
  then have "m' = m" using assms(1) by (auto simp: manager_Start_def Let_def split: sum.splits prod.splits option.splits if_splits)
  with False assms(2) show ?thesis by (auto simp: AdvanceTimeBy_def)
qed

definition demo_fs :: "nat FS" where
  "demo_fs = \<lparr>fs_files = (\<lambda>p. if p = ''/lib/ft.so'' then Some \<lparr>fn_Content = [], fn_Perm = 420, fn_ModTime = 0\<rparr> else None),
     fs_dirs = (\<lambda>p. None), fs_fault = (\<lambda>op p. None), fs_now = 1000\<rparr>"

theorem fake_time_absolute_witness:
  "\<exists>cmd m' fs'. manager_Start ''linux'' 0 (Inr ''varnishd'') [] (\<lambda>c. None) (\<lambda>c. None) ''varnishd'' []
       (Some \<lparr>tm_Enabled = True, tm_LibPath = ''/lib/ft.so''\<rparr>) (manager_New ''/w'' ''/v'') demo_fs = (None, Some cmd, m', fs') \<and>
     (\<forall>fs''. advance_all 0 [(30, 1001), (90, 5000)] m' fs' = (None, fs'') \<longrightarrow> GetCurrentFakeTime m' fs'' = Some 1090)"
proof -
  let ?tc = "Some \<lparr>tm_Enabled = True, tm_LibPath = ''/lib/ft.so''\<rparr>"
  have "\<exists>cmd m' fs'. manager_Start ''linux'' 0 (Inr ''varnishd'') [] (\<lambda>c. None) (\<lambda>c. None) ''varnishd'' []
       ?tc (manager_New ''/w'' ''/v'') demo_fs = (None, Some cmd, m', fs')"
    by (simp add: manager_Start_def setupFaketime_def detectLibfaketimePath_def exists_file_def demo_fs_def
        initTimeControl_def Let_def WriteFile_def Chtimes_def)
  then obtain cmd m' fs' where s: "manager_Start ''linux'' 0 (Inr ''varnishd'') [] (\<lambda>c. None) (\<lambda>c. None) ''varnishd'' []
       ?tc (manager_New ''/w'' ''/v'') demo_fs = (None, Some cmd, m', fs')" by blast
  have "mg_timeControlFile (manager_New ''/w'' ''/v'') = []" by (simp add: manager_New_def)
  moreover have "fs_fault demo_fs ''stat'' path = None" for path by (simp add: demo_fs_def)
  moreover have "fs_now demo_fs = 1000" by (simp add: demo_fs_def)
  ultimately have "\<forall>steps fs''. steps \<noteq> [] \<and> advance_all 0 steps m' fs' = (None, fs'') \<longrightarrow>
         GetCurrentFakeTime m' fs'' = Some (1000 + fst (last steps))"
    using fake_time_absolute[OF s] by simp
  from this[rule_format, of "[(30, 1001), (90, 5000)]"] s show ?thesis by simp
qed

lemma MkdirAll_ok:
  assumes "MkdirAll p perm fs = (None, fs')"
  shows "fs_files fs' = fs_files fs" "fs_now fs' = fs_now fs" "fs_dirs fs' p \<noteq> None"
    "fs_dirs fs q \<noteq> None \<Longrightarrow> fs_dirs fs' q \<noteq> None"
  using assms by (auto simp: MkdirAll_def split: option.splits if_splits)

lemma Chmod_ok:
  assumes "Chmod p perm fs = (None, fs')"
  shows "fs_files fs' = fs_files fs" "fs_now fs' = fs_now fs" "fs_dirs fs' = (fs_dirs fs)(p \<mapsto> perm)"
  using assms by (auto simp: Chmod_def split: option.splits)

lemma WriteFile_ok:
  assumes "WriteFile p data perm fs = (None, fs')"
  shows "fs_files fs' = (fs_files fs)(p \<mapsto> \<lparr>fn_Content = data,
      fn_Perm = (case fs_files fs p of None \<Rightarrow> perm | Some f \<Rightarrow> fn_Perm f), fn_ModTime = fs_now fs\<rparr>)"
    "fs_now fs' = fs_now fs" "fs_dirs fs' = fs_dirs fs"
  using assms by (auto simp: WriteFile_def split: option.splits)

text \<open>The operations of a successful preparation, in order.\<close>

lemma PrepareWorkspace_ok:
  assumes "PrepareWorkspace secret text m fs = (None, m', fs')"
  obtains fs1 fs2 fs3 fs4 fs5 where "MkdirAll (mg_workDir m) 493 fs = (None, fs1)"
    "MkdirAll (PathJoin [mg_workDir m, ''vcl'']) 493 fs1 = (None, fs2)" "MkdirAll (mg_varnishDir m) 493 fs2 = (None, fs3)"
    "Chmod (mg_varnishDir m) 493 fs3 = (None, fs4)"
    "WriteFile (PathJoin [mg_workDir m, ''secret'']) secret 384 fs4 = (None, fs5)"
    "text = [] \<and> fs' = fs5 \<or>
     text \<noteq> [] \<and> WriteFile (PathJoin [mg_workDir m, ''varnish-enterprise.lic'']) text 420 fs5 = (None, fs')"
    "m' = m\<lparr>mg_secret := secret\<rparr>"
  using assms
  by (auto simp: PrepareWorkspace_def writeSecretFile_def writeLicenseFile_def Let_def
      split: option.splits prod.splits if_splits)

text \<open>On a file system that refuses nothing the preparation succeeds.\<close>

lemma PrepareWorkspace_succeeds:
  assumes "\<And>op p. fs_fault fs op p = None"
  shows "\<exists>m' fs'. PrepareWorkspace secret text m fs = (None, m', fs')"
proof -
  have k: "\<exists>g. MkdirAll p n f = (None, g) \<and> (\<forall>op p. fs_fault g op p = None)"
    "\<exists>g. Chmod p n f = (None, g) \<and> (\<forall>op p. fs_fault g op p = None)"
    "\<exists>g. WriteFile p d n f = (None, g) \<and> (\<forall>op p. fs_fault g op p = None)"
    if "\<forall>op p. fs_fault f op p = None" for p n d and f :: "'a FS"
    using that by (simp_all add: MkdirAll_def Chmod_def WriteFile_def)
  obtain fs1 where 1: "MkdirAll (mg_workDir m) 493 fs = (None, fs1)" "\<forall>op p. fs_fault fs1 op p = None" using k(1) assms by blast
  obtain fs2 where 2: "MkdirAll (PathJoin [mg_workDir m, ''vcl'']) 493 fs1 = (None, fs2)" "\<forall>op p. fs_fault fs2 op p = None"
    using k(1) 1(2) by blast
  obtain fs3 where 3: "MkdirAll (mg_varnishDir m) 493 fs2 = (None, fs3)" "\<forall>op p. fs_fault fs3 op p = None" using k(1) 2(2) by blast
  obtain fs4 where 4: "Chmod (mg_varnishDir m) 493 fs3 = (None, fs4)" "\<forall>op p. fs_fault fs4 op p = None" using k(2) 3(2) by blast
  obtain fs5 where 5: "WriteFile (PathJoin [mg_workDir m, ''secret'']) secret 384 fs4 = (None, fs5)" "\<forall>op p. fs_fault fs5 op p = None"
    using k(3) 4(2) by blast
  obtain fs6 where 6: "WriteFile (PathJoin [mg_workDir m, ''varnish-enterprise.lic'']) text 420 fs5 = (None, fs6)"
    using k(3) 5(2) by blast
  from 1 2 3 4 5 6 show ?thesis by (simp add: PrepareWorkspace_def writeSecretFile_def writeLicenseFile_def Let_def)
qed

lemma sublist_mid: "sublist ys (xs @ ys @ zs)"
  by (auto simp: sublist_def)

lemma BuildArgs_parts:
  shows "sublist [''-S'', PathJoin [vd_WorkDir cfg, ''secret'']] (BuildArgs cfg)"
    and "sublist [''-n'', vd_VarnishDir cfg] (BuildArgs cfg)"
    and "sublist [''-f'', vd_VCLPath cfg] (BuildArgs cfg)"
    and "sublist (concat (map (\<lambda>http. [''-a'', httpSpec http]) (vn_HTTP (vd_Varnish cfg)))) (BuildArgs cfg)"
    and "suffix (vn_ExtraArgs (vd_Varnish cfg) @
      [''-p'', ''vcl_path='' @ PathJoin [vd_WorkDir cfg, ''vcl''], ''-p'', ''feature=+trace'']) (BuildArgs cfg)"
    and "lc_File (vd_License cfg) \<noteq> [] \<Longrightarrow>
      prefix [''-L'', PathJoin [vd_WorkDir cfg, ''varnish-enterprise.lic'']] (BuildArgs cfg)"
    and "sublist [''-M'', ''localhost:'' @ Itoa (vn_AdminPort (vd_Varnish cfg))] (BuildArgs cfg)"
proof -
  define lic where "lic = (if lc_Text (vd_License cfg) \<noteq> [] \<or> lc_File (vd_License cfg) \<noteq> []
      then [''-L'', PathJoin [vd_WorkDir cfg, ''varnish-enterprise.lic'']] else [])"
  define http where "http = concat (map (\<lambda>http. [''-a'', httpSpec http]) (vn_HTTP (vd_Varnish cfg)))"
  define rest where "rest = concat (map (\<lambda>https. [''-a'', httpsSpec https]) (vn_HTTPS (vd_Varnish cfg))) @ vd_StorageArgs cfg"
  define end0 where "end0 = vn_ExtraArgs (vd_Varnish cfg) @
      [''-p'', ''vcl_path='' @ PathJoin [vd_WorkDir cfg, ''vcl''], ''-p'', ''feature=+trace'']"
  let ?S = "[''-S'', PathJoin [vd_WorkDir cfg, ''secret'']]" and ?M = "[''-M'', ''localhost:'' @ Itoa (vn_AdminPort (vd_Varnish cfg))]"
  let ?n = "[''-n'', vd_VarnishDir cfg]" and ?f = "[''-f'', vd_VCLPath cfg]"
  have B: "BuildArgs cfg = lic @ ?S @ ?M @ ?n @ [''-F''] @ ?f @ http @ rest @ end0"
    by (simp add: BuildArgs_def lic_def http_def rest_def end0_def)
  show "sublist ?S (BuildArgs cfg)" unfolding B by (rule sublist_mid)
  show "sublist ?n (BuildArgs cfg)" unfolding B using sublist_mid[of ?n "lic @ ?S @ ?M"] by simp
  show "sublist ?f (BuildArgs cfg)" unfolding B using sublist_mid[of ?f "lic @ ?S @ ?M @ ?n @ [''-F'']"] by simp
  have "sublist http (BuildArgs cfg)" unfolding B using sublist_mid[of http "lic @ ?S @ ?M @ ?n @ [''-F''] @ ?f"] by simp
  then show "sublist (concat (map (\<lambda>http. [''-a'', httpSpec http]) (vn_HTTP (vd_Varnish cfg)))) (BuildArgs cfg)" by (simp only: http_def)
  have "suffix end0 (BuildArgs cfg)" unfolding B by (auto simp: suffix_def)
  then show "suffix (vn_ExtraArgs (vd_Varnish cfg) @
      [''-p'', ''vcl_path='' @ PathJoin [vd_WorkDir cfg, ''vcl''], ''-p'', ''feature=+trace'']) (BuildArgs cfg)" by (simp only: end0_def)
  show "lc_File (vd_License cfg) \<noteq> [] \<Longrightarrow>
      prefix [''-L'', PathJoin [vd_WorkDir cfg, ''varnish-enterprise.lic'']] (BuildArgs cfg)"
    unfolding B by (simp add: lic_def prefix_def)
  show "sublist ?M (BuildArgs cfg)" unfolding B using sublist_mid[of ?M "lic @ ?S"] by simp
qed

text \<open>
  The arguments varnishd is started with fit the prepared workspace: the secret file
  of \<^verbatim>\<open>-S\<close> holds the secret with permissions 0600 when it is new, the directory of \<^verbatim>\<open>-n\<close>
  exists, the VCL of \<^verbatim>\<open>-f\<close> is the configured one, there is one \<^verbatim>\<open>-a\<close> per listening address,
  and the VCL directory and the trace feature are set last, after all user arguments, on an
  existing directory. A licence given as a file only is passed on but never written.
\<close>

lemma workspace_matches_args:
  assumes "PrepareWorkspace secret (lc_Text (vd_License cfg)) m fs = (None, m', fs')"
    and "m = manager_New (vd_WorkDir cfg) (vd_VarnishDir cfg)" "vd_VarnishDir cfg \<noteq> []" "\<And>p. fs_files fs p = None"
  shows "sublist [''-S'', GetSecretPath m'] (BuildArgs cfg) \<and>
    fs_files fs' (GetSecretPath m') =
      Some \<lparr>fn_Content = secret, fn_Perm = 384, fn_ModTime = fs_now fs\<rparr> \<and>
    sublist [''-n'', vd_VarnishDir cfg] (BuildArgs cfg) \<and> fs_dirs fs' (vd_VarnishDir cfg) = Some 493 \<and>
    sublist [''-f'', vd_VCLPath cfg] (BuildArgs cfg) \<and>
    sublist (concat (map (\<lambda>http. [''-a'', httpSpec http]) (vn_HTTP (vd_Varnish cfg)))) (BuildArgs cfg) \<and>
    suffix (vn_ExtraArgs (vd_Varnish cfg) @
      [''-p'', ''vcl_path='' @ PathJoin [vd_WorkDir cfg, ''vcl''], ''-p'', ''feature=+trace'']) (BuildArgs cfg) \<and>
    fs_dirs fs' (PathJoin [vd_WorkDir cfg, ''vcl'']) \<noteq> None \<and>
    (lc_Text (vd_License cfg) \<noteq> [] \<longrightarrow>
       map_option fn_Content (fs_files fs' (GetLicensePath m')) = Some (lc_Text (vd_License cfg))) \<and>
    (lc_Text (vd_License cfg) = [] \<and> lc_File (vd_License cfg) \<noteq> [] \<longrightarrow>
       prefix [''-L'', GetLicensePath m'] (BuildArgs cfg) \<and> fs_files fs' (GetLicensePath m') = None)"
proof -
  let ?w = "vd_WorkDir cfg"
  have m: "mg_workDir m = ?w" "mg_varnishDir m = vd_VarnishDir cfg" using assms(2,3) by (simp_all add: manager_New_def)
  obtain fs1 fs2 fs3 fs4 fs5 where o: "MkdirAll ?w 493 fs = (None, fs1)"
    "MkdirAll (PathJoin [?w, ''vcl'']) 493 fs1 = (None, fs2)" "MkdirAll (vd_VarnishDir cfg) 493 fs2 = (None, fs3)"
    "Chmod (vd_VarnishDir cfg) 493 fs3 = (None, fs4)" "WriteFile (PathJoin [?w, ''secret'']) secret 384 fs4 = (None, fs5)"
    "lc_Text (vd_License cfg) = [] \<and> fs' = fs5 \<or> lc_Text (vd_License cfg) \<noteq> [] \<and>
       WriteFile (PathJoin [?w, ''varnish-enterprise.lic'']) (lc_Text (vd_License cfg)) 420 fs5 = (None, fs')"
    "m' = m\<lparr>mg_secret := secret\<rparr>"
    using PrepareWorkspace_ok[OF assms(1)] unfolding m by metis
  have m': "mg_workDir m' = ?w" using o(7) m by simp
  have d: "PathJoin [?w, ''secret''] \<noteq> PathJoin [?w, ''varnish-enterprise.lic'']"
    using PathJoin_distinct[OF plain_names(1,3)] by simp
  have f4: "fs_files fs4 p = None" for p
    using MkdirAll_ok(1)[OF o(1)] MkdirAll_ok(1)[OF o(2)] MkdirAll_ok(1)[OF o(3)] Chmod_ok(1)[OF o(4)] assms(4) by simp
  have now: "fs_now fs4 = fs_now fs"
    using MkdirAll_ok(2)[OF o(1)] MkdirAll_ok(2)[OF o(2)] MkdirAll_ok(2)[OF o(3)] Chmod_ok(2)[OF o(4)] by simp
  have dirs: "fs_dirs fs' = fs_dirs fs4" using WriteFile_ok(3)[OF o(5)] o(6) WriteFile_ok(3) by metis
  have f5: "fs_files fs5 = (\<lambda>p. None)(PathJoin [?w, ''secret''] \<mapsto>
      \<lparr>fn_Content = secret, fn_Perm = 384, fn_ModTime = fs_now fs\<rparr>)"
    using WriteFile_ok(1)[OF o(5)] f4 now by (auto simp: fun_eq_iff)
  have sec: "fs_files fs' (PathJoin [?w, ''secret'']) = Some \<lparr>fn_Content = secret, fn_Perm = 384, fn_ModTime = fs_now fs\<rparr>"
    using o(6) WriteFile_ok(1) f5 d by fastforce
  have lic: "lc_Text (vd_License cfg) \<noteq> [] \<longrightarrow>
       map_option fn_Content (fs_files fs' (PathJoin [?w, ''varnish-enterprise.lic''])) = Some (lc_Text (vd_License cfg))"
    using o(6) WriteFile_ok(1) by fastforce
  have nolic: "lc_Text (vd_License cfg) = [] \<longrightarrow> fs_files fs' (PathJoin [?w, ''varnish-enterprise.lic'']) = None"
    using o(6) f5 d by auto
  have vdir: "fs_dirs fs' (vd_VarnishDir cfg) = Some 493" using dirs Chmod_ok(3)[OF o(4)] by simp
  have vcl: "fs_dirs fs' (PathJoin [?w, ''vcl'']) \<noteq> None"
    using dirs Chmod_ok(3)[OF o(4)] MkdirAll_ok(4)[OF o(3)] MkdirAll_ok(3)[OF o(2)] by simp
  have S: "sublist [''-S'', PathJoin [?w, ''secret'']] (BuildArgs cfg)"
    and n: "sublist [''-n'', vd_VarnishDir cfg] (BuildArgs cfg)"
    and f: "sublist [''-f'', vd_VCLPath cfg] (BuildArgs cfg)"
    and a: "sublist (concat (map (\<lambda>http. [''-a'', httpSpec http]) (vn_HTTP (vd_Varnish cfg)))) (BuildArgs cfg)"
    and p: "suffix (vn_ExtraArgs (vd_Varnish cfg) @
      [''-p'', ''vcl_path='' @ PathJoin [?w, ''vcl''], ''-p'', ''feature=+trace'']) (BuildArgs cfg)"
    and L: "lc_File (vd_License cfg) \<noteq> [] \<Longrightarrow> prefix [''-L'', PathJoin [?w, ''varnish-enterprise.lic'']] (BuildArgs cfg)"
    by (rule BuildArgs_parts)+
  show ?thesis using sec lic nolic vdir vcl S n f a p L m' by (simp add: GetSecretPath_def GetLicensePath_def)
qed

definition demo_varnishd :: VarnishdConfig where
  "demo_varnishd = \<lparr>vd_WorkDir = ''/w'', vd_VarnishDir = ''/v'', vd_StorageArgs = [], vd_VCLPath = ''/w/vcl/m.vcl'',
     vd_License = \<lparr>lc_Text = [], lc_File = ''/l''\<rparr>,
     vd_Varnish = \<lparr>vn_AdminPort = 6082, vn_HTTP = [\<lparr>ht_Address = [], ht_Port = 0\<rparr>], vn_HTTPS = [], vn_ExtraArgs = [],
       vn_Time = \<lparr>tm_Enabled = False, tm_LibPath = []\<rparr>\<rparr>\<rparr>"

end
