(* ===== verification/Service.thy ===== *)
theory Service
  imports AdmServer AdmCommands VarnishProc
begin

text \<open>
  Package \<^verbatim>\<open>service\<close> (\<^verbatim>\<open>manager.go\<close>, \<^verbatim>\<open>types.go\<close>): the manager that wires the varnishadm
  server and the varnishd process. \<^verbatim>\<open>Start\<close> runs two goroutines and waits for the first
  failure or the end of the context: a step relation. \<^verbatim>\<open>GetHTTPPort\<close> asks varnishd for its
  addresses.
\<close>

section \<open>The manager\<close>

record ServiceConfig =
  sc_VarnishadmPort :: nat
  sc_Secret :: string
  sc_VarnishCmd :: string
  sc_VCLPath :: string
  sc_VarnishConfig :: "VarnishdConfig option"
  sc_Logger :: bool  \<comment> \<open>a logger is set (not nil)\<close>

datatype ConfigError = ConfigNil | LoggerNil | VarnishConfigNil | SecretEmpty | VCLPathEmpty

text \<open>The manager shares the varnish configuration with its caller and updates it in \<^verbatim>\<open>Start\<close>.\<close>

record ServiceManager =
  sm_config :: ServiceConfig
  sm_varnishConfig :: VarnishdConfig
  sm_varnishadm :: Server
  sm_varnishManager :: Manager

definition NewManager :: "ServiceConfig option \<Rightarrow> (ConfigError, ServiceManager) result" where
  "NewManager config =
     (case config of
        None \<Rightarrow> Inl ConfigNil
      | Some cfg \<Rightarrow>
          if \<not> sc_Logger cfg then Inl LoggerNil
          else (case sc_VarnishConfig cfg of
                  None \<Rightarrow> Inl VarnishConfigNil
                | Some vcfg \<Rightarrow>
                    if sc_Secret cfg = [] then Inl SecretEmpty
                    else if sc_VCLPath cfg = [] then Inl VCLPathEmpty
                    else Inr \<lparr>sm_config = cfg, sm_varnishConfig = vcfg,
                              sm_varnishadm = server_New (sc_VarnishadmPort cfg) (sc_Secret cfg),
                              sm_varnishManager = manager_New (vd_WorkDir vcfg) (vd_VarnishDir vcfg)\<rparr>))"

definition SetVarnishadmTranscript :: "ServiceManager \<Rightarrow> ServiceManager" where
  "SetVarnishadmTranscript m = m\<lparr>sm_varnishadm := (sm_varnishadm m)\<lparr>sv_transcript := Some []\<rparr>\<rparr>"

definition service_AdvanceTimeBy :: "'e \<Rightarrow> int \<Rightarrow> ServiceManager \<Rightarrow> 'e FS \<Rightarrow> 'e ProcError option \<times> 'e FS" where
  "service_AdvanceTimeBy missing offset m fs = AdvanceTimeBy missing offset (sm_varnishManager m) fs"

section \<open>The HTTP port\<close>

fun containsColon :: "string \<Rightarrow> bool" where
  "containsColon [] = False"
| "containsColon (c # s) = (if c = CHR '':'' then True else containsColon s)"

text \<open>The ports \<^verbatim>\<open>ipv4Port\<close> and \<^verbatim>\<open>fallbackPort\<close> after the loop.\<close>

fun portLoop :: "ListenAddress list \<Rightarrow> int \<Rightarrow> int \<times> int" where
  "portLoop [] fallbackPort = (0, fallbackPort)"
| "portLoop (addr # addrs) fallbackPort =
     (if la_Port addr \<le> 0 then portLoop addrs fallbackPort
      else if \<not> containsColon (la_Address addr) then (la_Port addr, fallbackPort)
      else portLoop addrs (if fallbackPort = 0 then la_Port addr else fallbackPort))"

datatype 'e PortError = GettingAddresses "'e CmdError" | NoHTTPAddress nat

definition GetHTTPPort :: "('e, 's) executor \<Rightarrow> 's \<Rightarrow> ('e PortError, int) result \<times> 's" where
  "GetHTTPPort exec s =
     (case DebugListenAddressStructured exec s of
        (Inl err, s1) \<Rightarrow> (Inl (GettingAddresses err), s1)
      | (Inr addresses, s1) \<Rightarrow>
          let (ipv4Port, fallbackPort) = portLoop addresses 0 in
          if ipv4Port > 0 then (Inr ipv4Port, s1)
          else if fallbackPort > 0 then (Inr fallbackPort, s1)
          else (Inl (NoHTTPAddress (length addresses)), s1))"

section \<open>Starting the services\<close>

datatype 'e StartError =
    ListenError "'e ListenError"
  | WorkspaceError "'e ProcError"
  | AdmFailed 'e
  | DaemonFailed "'e ProcError"
  | ContextDone

datatype 'e Pc = AtListen | AtPrepare | AtSelect | Finished "'e StartError"

text \<open>
  The goroutine that runs varnishd: not yet started, about to call \<^verbatim>\<open>varnish.Manager.Start\<close>,
  with the command that was started (if any) and the error that call will return, or ended.
\<close>

datatype 'e Daemon =
    DaemonIdle
  | DaemonLaunched "string list"
  | DaemonRunning "Command option" "'e ProcError option"
  | DaemonEnded

text \<open>
  The goroutine that runs \<^verbatim>\<open>varnishadm.Server.Run\<close>: not yet started, in its accept loop,
  returned with an error that is not yet on the channel, or ended.
\<close>

datatype 'e Adm = AdmIdle | AdmServing | AdmReturned 'e | AdmEnded

text \<open>
  \<open>se_open\<close> says whether the listener that \<^verbatim>\<open>Listen\<close> created is open; the field
  \<open>sv_listening\<close> of the server only says that there is one, and closing does not reset it.
\<close>

record 'e Service =
  se_mgr :: ServiceManager
  se_fs :: "'e FS"
  se_pc :: "'e Pc"
  se_open :: bool
  se_adm :: "'e Adm"
  se_daemon :: "'e Daemon"
  se_errCh :: "'e StartError list"
  se_cancelled :: bool

definition service_Start :: "ServiceManager \<Rightarrow> 'e FS \<Rightarrow> 'e Service" where
  "service_Start m fs =
     \<lparr>se_mgr = m, se_fs = fs, se_pc = AtListen, se_open = False, se_adm = AdmIdle, se_daemon = DaemonIdle,
      se_errCh = [], se_cancelled = False\<rparr>"

text \<open>
  The parameters are the system: the port \<^verbatim>\<open>net.Listen\<close> binds, the operating system's name,
  the missing-file error, the search path, the environment, and how starting and waiting for
  a command end. The varnishadm goroutine ends when \<^verbatim>\<open>Accept\<close> fails: with an error, or
  silently once the context is done. Either way its deferred call closes the listener, and so
  does the goroutine that waits for the context.
\<close>

inductive svc_step ::
  "(nat \<Rightarrow> ('e, nat) result) \<Rightarrow> string \<Rightarrow> 'e \<Rightarrow> ('e + string) \<Rightarrow> string list \<Rightarrow> (Command \<Rightarrow> 'e option) \<Rightarrow>
   (Command \<Rightarrow> 'e option) \<Rightarrow> 'e Service \<Rightarrow> 'e Service \<Rightarrow> bool"
  for listen goos missing lookPath environ started exited where
  listen_failed: "se_pc s = AtListen \<Longrightarrow> server_Listen listen (sm_varnishadm (se_mgr s)) = (Inl e, v) \<Longrightarrow>
    svc_step listen goos missing lookPath environ started exited s
      (s\<lparr>se_pc := Finished (ListenError e)\<rparr>)"
| listened: "se_pc s = AtListen \<Longrightarrow> server_Listen listen (sm_varnishadm (se_mgr s)) = (Inr port, v) \<Longrightarrow>
    svc_step listen goos missing lookPath environ started exited s
      (s\<lparr>se_pc := AtPrepare, se_open := True, se_adm := AdmServing,
         se_mgr := (se_mgr s)\<lparr>sm_varnishadm := v,
           sm_varnishConfig := (sm_varnishConfig (se_mgr s))
             \<lparr>vd_Varnish := (vd_Varnish (sm_varnishConfig (se_mgr s)))\<lparr>vn_AdminPort := int port\<rparr>\<rparr>\<rparr>\<rparr>)"
| prepare_failed: "se_pc s = AtPrepare \<Longrightarrow>
    PrepareWorkspace (sc_Secret (sm_config (se_mgr s))) (lc_Text (vd_License (sm_varnishConfig (se_mgr s))))
      (sm_varnishManager (se_mgr s)) (se_fs s) = (Some e, m, fs) \<Longrightarrow>
    svc_step listen goos missing lookPath environ started exited s
      (s\<lparr>se_pc := Finished (WorkspaceError e), se_fs := fs, se_mgr := (se_mgr s)\<lparr>sm_varnishManager := m\<rparr>\<rparr>)"
| prepared: "se_pc s = AtPrepare \<Longrightarrow>
    PrepareWorkspace (sc_Secret (sm_config (se_mgr s))) (lc_Text (vd_License (sm_varnishConfig (se_mgr s))))
      (sm_varnishManager (se_mgr s)) (se_fs s) = (None, m, fs) \<Longrightarrow>
    svc_step listen goos missing lookPath environ started exited s
      (s\<lparr>se_pc := AtSelect, se_fs := fs, se_mgr := (se_mgr s)\<lparr>sm_varnishManager := m\<rparr>,
         se_daemon := DaemonLaunched (BuildArgs (sm_varnishConfig (se_mgr s)))\<rparr>)"
| accept_failed: "se_adm s = AdmServing \<Longrightarrow> \<not> se_cancelled s \<Longrightarrow>
    svc_step listen goos missing lookPath environ started exited s
      (s\<lparr>se_adm := AdmReturned e, se_open := False\<rparr>)"
| accept_stopped: "se_adm s = AdmServing \<Longrightarrow> se_cancelled s \<Longrightarrow>
    svc_step listen goos missing lookPath environ started exited s
      (s\<lparr>se_adm := AdmEnded, se_open := False\<rparr>)"
| adm_reported: "se_adm s = AdmReturned e \<Longrightarrow>
    svc_step listen goos missing lookPath environ started exited s
      (s\<lparr>se_adm := AdmEnded, se_errCh := se_errCh s @ [AdmFailed e]\<rparr>)"
| listener_closed: "se_adm s \<noteq> AdmIdle \<Longrightarrow> se_cancelled s \<Longrightarrow>
    svc_step listen goos missing lookPath environ started exited s (s\<lparr>se_open := False\<rparr>)"
| daemon_started: "se_daemon s = DaemonLaunched args \<Longrightarrow>
    manager_Start goos missing lookPath environ started exited (sc_VarnishCmd (sm_config (se_mgr s))) args
      (Some (vn_Time (vd_Varnish (sm_varnishConfig (se_mgr s))))) (sm_varnishManager (se_mgr s)) (se_fs s) = (err, cmd, m, fs) \<Longrightarrow>
    svc_step listen goos missing lookPath environ started exited s
      (s\<lparr>se_daemon := DaemonRunning cmd err, se_fs := fs, se_mgr := (se_mgr s)\<lparr>sm_varnishManager := m\<rparr>\<rparr>)"
| daemon_ended: "se_daemon s = DaemonRunning cmd err \<Longrightarrow>
    svc_step listen goos missing lookPath environ started exited s
      (s\<lparr>se_daemon := DaemonEnded, se_errCh := se_errCh s @ (case err of None \<Rightarrow> [] | Some e \<Rightarrow> [DaemonFailed e])\<rparr>)"
| failed: "se_pc s = AtSelect \<Longrightarrow> se_errCh s = e # es \<Longrightarrow>
    svc_step listen goos missing lookPath environ started exited s (s\<lparr>se_pc := Finished e, se_errCh := es\<rparr>)"
| cancelled: "se_pc s = AtSelect \<Longrightarrow> se_cancelled s \<Longrightarrow>
    svc_step listen goos missing lookPath environ started exited s (s\<lparr>se_pc := Finished ContextDone\<rparr>)"
| cancel: "svc_step listen goos missing lookPath environ started exited s (s\<lparr>se_cancelled := True\<rparr>)"

inductive_cases svc_stepE: "svc_step listen goos missing lookPath environ started exited s t"

inductive svc_reachable ::
  "(nat \<Rightarrow> ('e, nat) result) \<Rightarrow> string \<Rightarrow> 'e \<Rightarrow> ('e + string) \<Rightarrow> string list \<Rightarrow> (Command \<Rightarrow> 'e option) \<Rightarrow>
   (Command \<Rightarrow> 'e option) \<Rightarrow> 'e Service \<Rightarrow> 'e Service \<Rightarrow> bool"
  for listen goos missing lookPath environ started exited where
  svc_start: "svc_reachable listen goos missing lookPath environ started exited s s"
| svc_next: "svc_reachable listen goos missing lookPath environ started exited s t \<Longrightarrow>
    svc_step listen goos missing lookPath environ started exited t u \<Longrightarrow>
    svc_reachable listen goos missing lookPath environ started exited s u"

section \<open>Invariant\<close>

definition bound :: "VarnishdConfig \<Rightarrow> 'e Service \<Rightarrow> bool" where
  "bound vcfg s \<longleftrightarrow>
     sv_listening (sm_varnishadm (se_mgr s)) \<and>
     sm_varnishConfig (se_mgr s) = vcfg\<lparr>vd_Varnish := (vd_Varnish vcfg)
       \<lparr>vn_AdminPort := int (sv_Port (sm_varnishadm (se_mgr s)))\<rparr>\<rparr>"

definition secret_written :: "ServiceConfig \<Rightarrow> VarnishdConfig \<Rightarrow> 'e FS \<Rightarrow> bool" where
  "secret_written cfg vcfg fs \<longleftrightarrow>
     map_option fn_Content (fs_files fs (PathJoin [vd_WorkDir vcfg, ''secret''])) = Some (sc_Secret cfg)"

text \<open>
  The listener is open unless the context was cancelled or the varnishadm server has failed,
  and then its error is on the way to the caller of \<^verbatim>\<open>Start\<close>.
\<close>

definition adm_failure :: "'e Service \<Rightarrow> bool" where
  "adm_failure s \<longleftrightarrow>
     (\<exists>e. se_adm s = AdmReturned e \<or> AdmFailed e \<in> set (se_errCh s) \<or> se_pc s = Finished (AdmFailed e))"

definition listener_inv :: "'e Service \<Rightarrow> bool" where
  "listener_inv s \<longleftrightarrow>
     (se_pc s = AtListen \<longrightarrow> se_adm s = AdmIdle) \<and>
     (se_adm s \<noteq> AdmIdle \<longrightarrow> se_open s \<or> se_cancelled s \<or> adm_failure s) \<and>
     (se_adm s = AdmIdle \<longrightarrow> se_daemon s = DaemonIdle \<and> (se_pc s = AtListen \<or> (\<exists>e. se_pc s = Finished (ListenError e))))"

lemma listener_inv_step:
  assumes "listener_inv s" "svc_step listen goos missing lookPath environ started exited s t"
  shows "listener_inv t"
  using assms(2,1)
  by cases (auto simp: listener_inv_def adm_failure_def split: option.split)

lemma listener_inv_reachable:
  "svc_reachable listen goos missing lookPath environ started exited s t \<Longrightarrow> listener_inv s \<Longrightarrow> listener_inv t"
  by (induction rule: svc_reachable.induct) (auto intro: listener_inv_step)

lemma service_Start_listener: "listener_inv (service_Start m fs)"
  by (simp add: listener_inv_def service_Start_def)

definition svc_inv :: "ServiceConfig \<Rightarrow> VarnishdConfig \<Rightarrow> 'e Service \<Rightarrow> bool" where
  "svc_inv cfg vcfg s \<longleftrightarrow>
     sm_config (se_mgr s) = cfg \<and> sv_Secret (sm_varnishadm (se_mgr s)) = sc_Secret cfg \<and>
     mg_workDir (sm_varnishManager (se_mgr s)) = vd_WorkDir vcfg \<and>
     (se_pc s = AtListen \<longrightarrow> sm_varnishConfig (se_mgr s) = vcfg \<and> se_daemon s = DaemonIdle) \<and>
     (se_pc s = AtPrepare \<longrightarrow> bound vcfg s \<and> se_daemon s = DaemonIdle) \<and>
     (\<forall>args. se_daemon s = DaemonLaunched args \<longrightarrow>
        bound vcfg s \<and> secret_written cfg vcfg (se_fs s) \<and> args = BuildArgs (sm_varnishConfig (se_mgr s))) \<and>
     (\<forall>cmd err. se_daemon s = DaemonRunning (Some cmd) err \<longrightarrow>
        bound vcfg s \<and> secret_written cfg vcfg (se_fs s) \<and> cmd_Args cmd = BuildArgs (sm_varnishConfig (se_mgr s)))"

lemma listen_ok:
  assumes "server_Listen listen v = (Inr port, v')"
  shows "sv_listening v'" "sv_Port v' = port" "sv_Secret v' = sv_Secret v"
  using assms by (auto simp: server_Listen_def split: if_splits sum.splits)

lemma prepare_writes_secret:
  assumes "PrepareWorkspace (sc_Secret cfg) text m fs = (None, m', fs')" "mg_workDir m = vd_WorkDir vcfg"
  shows "secret_written cfg vcfg fs' \<and> mg_workDir m' = vd_WorkDir vcfg"
proof -
  obtain fs4 fs5 where w: "WriteFile (PathJoin [mg_workDir m, ''secret'']) (sc_Secret cfg) 384 fs4 = (None, fs5)"
    "text = [] \<and> fs' = fs5 \<or>
     text \<noteq> [] \<and> WriteFile (PathJoin [mg_workDir m, ''varnish-enterprise.lic'']) text 420 fs5 = (None, fs')"
    "m' = m\<lparr>mg_secret := sc_Secret cfg\<rparr>"
    using PrepareWorkspace_ok[OF assms(1)] by metis
  have "PathJoin [mg_workDir m, ''secret''] \<noteq> PathJoin [mg_workDir m, ''varnish-enterprise.lic'']"
    using PathJoin_distinct[OF plain_names(1,3)] by simp
  then show ?thesis using w WriteFile_ok(1)[OF w(1)] WriteFile_ok(1) assms(2)
    by (fastforce simp: secret_written_def)
qed

lemma prepare_keeps_dir: "PrepareWorkspace secret text m fs = (e, m', fs') \<Longrightarrow> mg_workDir m' = mg_workDir m"
  by (auto simp: PrepareWorkspace_def writeSecretFile_def Let_def split: option.splits prod.splits)

lemma setup_keeps_secret:
  assumes "initTimeControl missing m fs = (out, m', fs')"
  shows "mg_workDir m' = mg_workDir m \<and>
    map_option fn_Content (fs_files fs' (PathJoin [mg_workDir m, ''secret''])) =
    map_option fn_Content (fs_files fs (PathJoin [mg_workDir m, ''secret'']))"
proof -
  have "PathJoin [mg_workDir m, ''secret''] \<noteq> PathJoin [mg_workDir m, ''faketime.control'']"
    using PathJoin_distinct[OF plain_names(1,4)] by simp
  then show ?thesis using assms
    by (auto simp: initTimeControl_def Let_def WriteFile_def Chtimes_def split: option.splits prod.splits)
qed

lemma faketime_keeps_secret:
  assumes "setupFaketime goos missing tc cmd m fs = (out, m', fs')"
  shows "mg_workDir m' = mg_workDir m \<and>
    map_option fn_Content (fs_files fs' (PathJoin [mg_workDir m, ''secret''])) =
    map_option fn_Content (fs_files fs (PathJoin [mg_workDir m, ''secret''])) \<and>
    (\<forall>cmd'. out = Inr cmd' \<longrightarrow> cmd_Args cmd' = cmd_Args cmd)"
  using assms setup_keeps_secret[of missing m fs]
  by (auto simp: setupFaketime_def Let_def split: sum.splits prod.splits if_splits)

lemma manager_Start_keeps:
  assumes "manager_Start goos missing lookPath environ started exited path args tc m fs = (err, cmd, m', fs')"
  shows "mg_workDir m' = mg_workDir m \<and>
    map_option fn_Content (fs_files fs' (PathJoin [mg_workDir m, ''secret''])) =
    map_option fn_Content (fs_files fs (PathJoin [mg_workDir m, ''secret''])) \<and>
    (\<forall>c. cmd = Some c \<longrightarrow> cmd_Args c = args)"
  using assms faketime_keeps_secret[of goos missing _ _ m fs]
  by (fastforce simp: manager_Start_def Let_def split: sum.splits prod.splits option.splits if_splits)

lemma svc_inv_frame:
  assumes "svc_inv cfg vcfg s" "se_mgr t = se_mgr s" "se_fs t = se_fs s"
    and "se_daemon t = se_daemon s \<or> se_daemon s \<noteq> DaemonIdle \<and> se_daemon t = DaemonEnded"
    and "se_pc t = se_pc s \<or> (\<exists>e. se_pc t = Finished e)"
  shows "svc_inv cfg vcfg t"
proof -
  have "bound vcfg t = bound vcfg s" by (simp only: bound_def assms(2))
  with assms show ?thesis unfolding svc_inv_def by (elim disjE) auto
qed

lemma svc_inv_step:
  assumes inv: "svc_inv cfg vcfg s" and step: "svc_step listen goos missing lookPath environ started exited s t"
  shows "svc_inv cfg vcfg t"
  using step
proof cases
  case (listened port v)
  with inv listen_ok[OF listened(3)] show ?thesis by (auto simp: svc_inv_def bound_def)
next
  case (prepare_failed e m fs)
  with inv prepare_keeps_dir[OF prepare_failed(3)] show ?thesis by (auto simp: svc_inv_def)
next
  case (prepared m fs)
  have "sm_config (se_mgr s) = cfg" "mg_workDir (sm_varnishManager (se_mgr s)) = vd_WorkDir vcfg"
    using inv by (simp_all add: svc_inv_def)
  with prepared(3) have "secret_written cfg vcfg fs \<and> mg_workDir m = vd_WorkDir vcfg"
    by (intro prepare_writes_secret) simp_all
  with inv prepared show ?thesis by (auto simp: svc_inv_def bound_def)
next
  case (daemon_started args err cmd m fs)
  with inv manager_Start_keeps[OF daemon_started(3)] show ?thesis
    by (auto simp: svc_inv_def bound_def secret_written_def)
qed (auto intro!: svc_inv_frame[OF inv])

lemma svc_inv_reachable:
  "svc_reachable listen goos missing lookPath environ started exited s t \<Longrightarrow> svc_inv cfg vcfg s \<Longrightarrow> svc_inv cfg vcfg t"
  by (induction rule: svc_reachable.induct) (auto intro: svc_inv_step)

lemma NewManager_inv:
  assumes "NewManager (Some cfg) = Inr m" "sc_VarnishConfig cfg = Some vcfg"
  shows "svc_inv cfg vcfg (service_Start m fs)"
  using assms by (auto simp: NewManager_def svc_inv_def service_Start_def server_New_def manager_New_def split: if_splits)

section \<open>Properties\<close>

text \<open>
  C10. varnishd is started with what it needs to connect: in every interleaving of the
  manager, the varnishadm goroutine and the varnishd goroutine, when the varnishd command has
  been started the command's \<^verbatim>\<open>-M\<close> names the port the varnishadm server was bound to (also
  when it was assigned dynamically), the file of \<^verbatim>\<open>-S\<close> holds the very secret the server
  authenticates with, and \<^verbatim>\<open>-f\<close> names the prepared VCL. The listener on that port has been
  created, and it is open unless the context was cancelled or the varnishadm server has failed
  meanwhile; varnishd may be started after such a failure, whose error is then on its way to
  the caller of \<^verbatim>\<open>Start\<close> or already returned.
\<close>

theorem varnishd_started_ready:
  assumes "NewManager (Some cfg) = Inr m" "sc_VarnishConfig cfg = Some vcfg"
    and "svc_reachable listen goos missing lookPath environ started exited (service_Start m fs) s"
    and "se_daemon s = DaemonRunning (Some cmd) err"
  shows "sv_listening (sm_varnishadm (se_mgr s)) \<and>
    (se_open s \<or> se_cancelled s \<or>
     (\<exists>e. se_adm s = AdmReturned e \<or> AdmFailed e \<in> set (se_errCh s) \<or> se_pc s = Finished (AdmFailed e))) \<and>
    sublist [''-M'', ''localhost:'' @ Itoa (int (sv_Port (sm_varnishadm (se_mgr s))))] (cmd_Args cmd) \<and>
    sublist [''-S'', PathJoin [vd_WorkDir vcfg, ''secret'']] (cmd_Args cmd) \<and>
    map_option fn_Content (fs_files (se_fs s) (PathJoin [vd_WorkDir vcfg, ''secret''])) =
      Some (sv_Secret (sm_varnishadm (se_mgr s))) \<and>
    sublist [''-f'', vd_VCLPath vcfg] (cmd_Args cmd)"
proof -
  have inv: "svc_inv cfg vcfg s" using svc_inv_reachable[OF assms(3) NewManager_inv[OF assms(1,2)]] .
  then have b: "bound vcfg s" "secret_written cfg vcfg (se_fs s)" "cmd_Args cmd = BuildArgs (sm_varnishConfig (se_mgr s))"
    using assms(4) by (auto simp: svc_inv_def)
  have "listener_inv s" using listener_inv_reachable[OF assms(3) service_Start_listener] .
  then have l: "se_open s \<or> se_cancelled s \<or>
     (\<exists>e. se_adm s = AdmReturned e \<or> AdmFailed e \<in> set (se_errCh s) \<or> se_pc s = Finished (AdmFailed e))"
    using assms(4) by (auto simp: listener_inv_def adm_failure_def)
  let ?c = "sm_varnishConfig (se_mgr s)"
  have c: "vn_AdminPort (vd_Varnish ?c) = int (sv_Port (sm_varnishadm (se_mgr s)))" "vd_WorkDir ?c = vd_WorkDir vcfg"
    "vd_VCLPath ?c = vd_VCLPath vcfg" using b(1) by (auto simp: bound_def)
  show ?thesis using b l inv BuildArgs_parts(1,3,7)[of ?c] unfolding c
    by (simp add: bound_def secret_written_def svc_inv_def)
qed

definition demo_service :: ServiceConfig where
  "demo_service = \<lparr>sc_VarnishadmPort = 0, sc_Secret = ''test-secret'', sc_VarnishCmd = ''varnishd'',
     sc_VCLPath = ''/w/vcl/m.vcl'', sc_VarnishConfig = Some demo_varnishd, sc_Logger = True\<rparr>"

theorem varnishd_started_ready_witness:
  "\<exists>m s cmd. NewManager (Some demo_service) = Inr m \<and>
     svc_reachable (\<lambda>p. Inr 45678) ''linux'' 0 (Inr ''varnishd'') [] (\<lambda>c. None) (\<lambda>c. None) (service_Start m demo_fs) s \<and>
     se_daemon s = DaemonRunning (Some cmd) None \<and> sublist [''-M'', ''localhost:45678''] (cmd_Args cmd)"
proof -
  obtain m where m: "NewManager (Some demo_service) = Inr m" "m = \<lparr>sm_config = demo_service, sm_varnishConfig = demo_varnishd,
      sm_varnishadm = server_New 0 ''test-secret'', sm_varnishManager = manager_New ''/w'' ''/v''\<rparr>"
    by (simp add: NewManager_def demo_service_def demo_varnishd_def)
  let ?s0 = "service_Start m demo_fs"
  let ?step = "svc_step (\<lambda>p. Inr 45678) ''linux'' 0 (Inr ''varnishd'') [] (\<lambda>c. None) (\<lambda>c. None)"
  let ?v = "(server_New 0 ''test-secret'')\<lparr>sv_listening := True, sv_Port := 45678\<rparr>"
  have l: "server_Listen (\<lambda>p. Inr 45678 :: (nat, nat) result) (sm_varnishadm (se_mgr ?s0)) = (Inr 45678, ?v)"
    by (simp add: server_Listen_def m(2) service_Start_def server_New_def)
  have "\<exists>s. ?step ?s0 s \<and> se_pc s = AtPrepare \<and> se_fs s = demo_fs \<and> sm_varnishadm (se_mgr s) = ?v \<and>
      sm_varnishManager (se_mgr s) = manager_New ''/w'' ''/v'' \<and> sm_config (se_mgr s) = demo_service \<and>
      vn_Time (vd_Varnish (sm_varnishConfig (se_mgr s))) = \<lparr>tm_Enabled = False, tm_LibPath = []\<rparr>"
    by (rule exI, rule conjI, rule svc_step.listened[OF _ l]) (simp_all add: m(2) service_Start_def demo_varnishd_def)
  then obtain s1 where s1: "?step ?s0 s1" "se_pc s1 = AtPrepare" "se_fs s1 = demo_fs" "sm_varnishadm (se_mgr s1) = ?v"
      "sm_varnishManager (se_mgr s1) = manager_New ''/w'' ''/v''" "sm_config (se_mgr s1) = demo_service"
      "vn_Time (vd_Varnish (sm_varnishConfig (se_mgr s1))) = \<lparr>tm_Enabled = False, tm_LibPath = []\<rparr>" by blast
  obtain m2 fs2 where p: "PrepareWorkspace (sc_Secret (sm_config (se_mgr s1))) (lc_Text (vd_License (sm_varnishConfig (se_mgr s1))))
      (sm_varnishManager (se_mgr s1)) (se_fs s1) = (None, m2, fs2)"
    using PrepareWorkspace_succeeds[of "se_fs s1"] s1(3) by (fastforce simp: demo_fs_def)
  define s2 where "s2 = s1\<lparr>se_pc := AtSelect, se_fs := fs2, se_mgr := (se_mgr s1)\<lparr>sm_varnishManager := m2\<rparr>,
         se_daemon := DaemonLaunched (BuildArgs (sm_varnishConfig (se_mgr s1)))\<rparr>"
  have s2: "?step s1 s2" unfolding s2_def by (rule svc_step.prepared[OF s1(2) p])
  obtain cmd where d: "manager_Start ''linux'' 0 (Inr ''varnishd'') [] (\<lambda>c. None) (\<lambda>c. None) (sc_VarnishCmd (sm_config (se_mgr s2)))
      (BuildArgs (sm_varnishConfig (se_mgr s1))) (Some (vn_Time (vd_Varnish (sm_varnishConfig (se_mgr s2)))))
      (sm_varnishManager (se_mgr s2)) (se_fs s2) = (None, Some cmd, m2, fs2)"
    by (simp add: s2_def s1 manager_Start_def Let_def demo_service_def)
  define s3 where "s3 = s2\<lparr>se_daemon := DaemonRunning (Some cmd) None, se_fs := fs2, se_mgr := (se_mgr s2)\<lparr>sm_varnishManager := m2\<rparr>\<rparr>"
  have s3: "?step s2 s3" unfolding s3_def
    by (rule svc_step.daemon_started[OF _ d]) (simp add: s2_def)
  have r: "svc_reachable (\<lambda>p. Inr 45678) ''linux'' 0 (Inr ''varnishd'') [] (\<lambda>c. None) (\<lambda>c. None) ?s0 s3"
    using s1(1) s2 s3 by (meson svc_next svc_start)
  have run: "se_daemon s3 = DaemonRunning (Some cmd) None" and port: "sv_Port (sm_varnishadm (se_mgr s3)) = 45678"
    by (simp_all add: s3_def s2_def s1)
  have "Itoa 45678 = ''45678''" by (simp add: Itoa_def nat_digits_numeral)
  with varnishd_started_ready[OF m(1) _ r run] port have "sublist [''-M'', ''localhost:45678''] (cmd_Args cmd)"
    by (simp add: demo_service_def)
  with m(1) r run show ?thesis by blast
qed

section \<open>Discovering the HTTP port\<close>

lemma containsColon_iff: "containsColon s \<longleftrightarrow> CHR '':'' \<in> set s"
  by (induction s) auto

abbreviation tcp :: "ListenAddress \<Rightarrow> bool" where
  "tcp a \<equiv> la_Port a > 0"

abbreviation ipv4 :: "ListenAddress \<Rightarrow> bool" where
  "ipv4 a \<equiv> tcp a \<and> CHR '':'' \<notin> set (la_Address a)"

lemma portLoop_fst:
  "fst (portLoop as fb) = (case find ipv4 as of None \<Rightarrow> 0 | Some a \<Rightarrow> la_Port a)"
  by (induction as fb rule: portLoop.induct) (auto simp: containsColon_iff)

lemma portLoop_snd:
  "find ipv4 as = None \<Longrightarrow> fb \<ge> 0 \<Longrightarrow>
   snd (portLoop as fb) = (if fb > 0 then fb else case find tcp as of None \<Rightarrow> 0 | Some a \<Rightarrow> la_Port a)"
  by (induction as fb rule: portLoop.induct) (auto simp: containsColon_iff split: if_splits)

lemma find_holds: "find P xs = Some x \<Longrightarrow> P x"
  by (induction xs) (auto split: if_splits)

definition port_choice :: "ListenAddress list \<Rightarrow> (nat, int) result" where
  "port_choice as =
     (case find ipv4 as of
        Some a \<Rightarrow> Inr (la_Port a)
      | None \<Rightarrow> (case find tcp as of Some a \<Rightarrow> Inr (la_Port a) | None \<Rightarrow> Inl (length as)))"

lemma GetHTTPPort_spec:
  assumes "DebugListenAddressStructured exec s = (Inr as, s')"
  shows "GetHTTPPort exec s = (map_sum NoHTTPAddress id (port_choice as), s')"
proof -
  obtain p4 fb where l: "portLoop as 0 = (p4, fb)" by (cases "portLoop as 0")
  have p4: "p4 = (case find ipv4 as of None \<Rightarrow> 0 | Some a \<Rightarrow> la_Port a)"
    using portLoop_fst[of as 0] l by simp
  have fb: "find ipv4 as = None \<Longrightarrow> fb = (case find tcp as of None \<Rightarrow> 0 | Some a \<Rightarrow> la_Port a)"
    using portLoop_snd[of as 0] l by simp
  show ?thesis
  proof (cases "find ipv4 as")
    case None
    then show ?thesis using assms l p4 fb find_holds[of tcp as]
      by (cases "find tcp as") (auto simp: GetHTTPPort_def port_choice_def)
  next
    case (Some a)
    then show ?thesis using assms l p4 find_holds[OF Some] by (auto simp: GetHTTPPort_def port_choice_def)
  qed
qed


definition demo_addresses :: "ListenAddress list" where
  "demo_addresses = [\<lparr>la_Name = ''a0'', la_Address = ''::'', la_Port = 41000\<rparr>,
     \<lparr>la_Name = ''a0'', la_Address = ''0.0.0.0'', la_Port = 42000\<rparr>]"

definition demo_peer :: "string \<Rightarrow> VarnishResponse" where
  "demo_peer cmd = \<lparr>statusCode = 200, payload = Join (map listenLine demo_addresses) [newline]\<rparr>"

definition demo_conn :: Conn where
  "demo_conn = \<lparr>cn_in = [], cn_out = [],
     cn_peer = (\<lambda>l. [encodeResponse (statusCode (demo_peer l)) (payload (demo_peer l))]), cn_open = True\<rparr>"


end
