(* ===== verification/Harness.thy ===== *)
theory Harness
  imports HarnessTests Service
begin

text \<open>
  Package \<^verbatim>\<open>harness\<close> (\<^verbatim>\<open>harness.go\<close>, \<^verbatim>\<open>debug.go\<close>): one run of the tool from the test file to
  the results, with what is released at the end. The operations of the operating system and
  of the background services are the environment; the deferred calls of \<^verbatim>\<open>Run\<close> are applied to
  the state it leaves, last one first.
\<close>

section \<open>State and environment\<close>

record Harness =
  h_cfg :: HarnessConfig
  h_workDir :: string
  h_varnishDir :: string
  h_httpPort :: int
  h_manager :: "ServiceManager option"
  h_recorder :: "Recorder option"
  h_testRunner :: "Runner option"
  h_mockBackends :: "mock_ptrs option"
  h_cancelServices :: bool  \<comment> \<open>the cancel function is set (not nil)\<close>
  h_transcriptFile :: bool  \<comment> \<open>the transcript file is set (not nil)\<close>

definition harness_New :: "HarnessConfig \<Rightarrow> Harness" where
  "harness_New cfg =
     \<lparr>h_cfg = cfg, h_workDir = [], h_varnishDir = [], h_httpPort = 0, h_manager = None, h_recorder = None,
      h_testRunner = None, h_mockBackends = None, h_cancelServices = False, h_transcriptFile = False\<rparr>"

text \<open>
  Which case of the \<^verbatim>\<open>select\<close> in \<^verbatim>\<open>waitForVarnishReady\<close> is taken. The context there is the one
  the services run under, so its end is also the end of the services; waiting changes the world.
\<close>

datatype 'e Race = ContextFirst | CrashFirst 'e | PortFirst

record ('e, 'u, 'w) HarnessEnv =
  hv_env :: "('e, 'u, 'w) Env"
  hv_ord :: "(string \<times> BackendSpec) list \<Rightarrow> (string \<times> BackendSpec) list"
  hv_exists :: "'w \<Rightarrow> string \<Rightarrow> bool"
  hv_readFile :: "'w \<Rightarrow> string \<Rightarrow> ('e, string) result"
  hv_decode :: "string \<Rightarrow> ('e, TestSpec) result list"
  hv_mkdirTemp :: "string \<Rightarrow> 'w \<Rightarrow> ('e, string) result \<times> 'w"
  hv_create :: "string \<Rightarrow> 'w \<Rightarrow> 'e option \<times> 'w"
  hv_launch :: "ServiceManager \<Rightarrow> 'w \<Rightarrow> 'w"
  hv_early :: "'w \<Rightarrow> 'e option \<times> 'w"
  hv_race :: "'w \<Rightarrow> 'e Race \<times> 'w"
  hv_lookVarnishlog :: "'w \<Rightarrow> bool"
  hv_startVarnishlog :: "'w \<Rightarrow> (bool \<times> bool \<times> bool) \<times> 'w"
  hv_stopVarnishlog :: "'w \<Rightarrow> (bool \<times> bool \<times> bool) \<times> 'w"
  hv_cancel :: "'w \<Rightarrow> 'w"
  hv_close :: "'w \<Rightarrow> 'w"
  hv_copy :: "string \<Rightarrow> string \<Rightarrow> 'w \<Rightarrow> 'e option \<times> 'w"
  hv_sync :: "string \<Rightarrow> 'w \<Rightarrow> 'e option \<times> 'w"
  hv_open :: "string \<Rightarrow> 'w \<Rightarrow> 'e option"
  hv_stat :: "string \<Rightarrow> 'w \<Rightarrow> (string \<times> nat) option"
  hv_time :: "'w \<Rightarrow> string"
  hv_stamp :: "'w \<Rightarrow> string"

datatype 'e HarnessError =
    ResolvingVCL ResolveError
  | LoadingTests "'e LoadError"
  | CreatingWorkDir 'e
  | CreatingVarnishDir 'e
  | StartingBackends "'e RunnerError"
  | PreparingVCL "'e RunnerError"
  | CreatingManager ConfigError
  | VarnishFailed 'e
  | PortFailed "'e PortError"
  | ContextEnded
  | CreatingRecorder rec_error
  | StartingRecorder rec_error

section \<open>Directories\<close>

definition createTempDirs ::
  "('e, 'u, 'w) HarnessEnv \<Rightarrow> Harness \<Rightarrow> 'w \<Rightarrow> 'e HarnessError option \<times> Harness \<times> 'w" where
  "createTempDirs henv h w =
     (case hv_mkdirTemp henv ''vcltest-work-*'' w of
        (Inl err, w1) \<Rightarrow> (Some (CreatingWorkDir err), h\<lparr>h_workDir := []\<rparr>, w1)
      | (Inr workDir, w1) \<Rightarrow>
          (case hv_mkdirTemp henv ''vcltest-varnish-*'' w1 of
             (Inl err, w2) \<Rightarrow>
               (Some (CreatingVarnishDir err), h\<lparr>h_workDir := workDir, h_varnishDir := []\<rparr>,
                ev_removeAll (hv_env henv) workDir w2)
           | (Inr varnishDir, w2) \<Rightarrow> (None, h\<lparr>h_workDir := workDir, h_varnishDir := varnishDir\<rparr>, w2)))"

definition cleanupTempDirs :: "('e, 'u, 'w) HarnessEnv \<Rightarrow> Harness \<Rightarrow> 'w \<Rightarrow> 'w" where
  "cleanupTempDirs henv h w =
     (let w1 = (if h_workDir h \<noteq> [] then ev_removeAll (hv_env henv) (h_workDir h) w else w)
      in if h_varnishDir h \<noteq> [] then ev_removeAll (hv_env henv) (h_varnishDir h) w1 else w1)"

definition stopAllBackends :: "mock_ptrs option \<Rightarrow> 'x World_scheme \<Rightarrow> 'x World_scheme" where
  "stopAllBackends mockBackends w = (case mockBackends of None \<Rightarrow> w | Some bm \<Rightarrow> stopAll bm w)"

definition startBackendsEarly ::
  "('e, 'u, 'x World_scheme) HarnessEnv \<Rightarrow> TestSpec list \<Rightarrow> Harness \<Rightarrow> 'x World_scheme \<Rightarrow>
   ('e HarnessError, (string, BackendAddress) gomap) result \<times> Harness \<times> 'x World_scheme" where
  "startBackendsEarly henv tests h w =
     (case startAllBackends (hv_ord henv) (hv_env henv) tests w of
        (Inl err, w1) \<Rightarrow> (Inl (StartingBackends err), h, w1)
      | (Inr (addresses, mockBackends), w1) \<Rightarrow> (Inr addresses, h\<lparr>h_mockBackends := Some mockBackends\<rparr>, w1))"

text \<open>The files are written as in the runner's \<^verbatim>\<open>LoadVCL\<close>.\<close>

definition prepareVCL ::
  "('e, 'u, 'w) HarnessEnv \<Rightarrow> string \<Rightarrow> (string, BackendAddress) gomap \<Rightarrow> Harness \<Rightarrow> 'w \<Rightarrow>
   ('e HarnessError, string) result \<times> 'w" where
  "prepareVCL henv vclPath backends h w =
     (case processVCL (hv_env henv) vclPath backends w of
        Inl err \<Rightarrow> (Inl (PreparingVCL err), w)
      | Inr files \<Rightarrow>
          let vclDir = PathJoin [h_workDir h, ''vcl''] in
          (case writeFiles (hv_env henv) vclDir files [] w of
             (Inl err, w1) \<Rightarrow> (Inl (PreparingVCL err), w1)
           | (Inr mainVCLFile, w1) \<Rightarrow> (Inr mainVCLFile, w1)))"

section \<open>Services\<close>

definition serviceConfig :: "Harness \<Rightarrow> string \<Rightarrow> bool \<Rightarrow> ServiceConfig" where
  "serviceConfig h vclPath hasScenarioTests =
     \<lparr>sc_VarnishadmPort = 0, sc_Secret = ''test-secret'', sc_VarnishCmd = ''varnishd'', sc_VCLPath = vclPath,
      sc_VarnishConfig = Some
        \<lparr>vd_WorkDir = h_workDir h, vd_VarnishDir = h_varnishDir h, vd_StorageArgs = [], vd_VCLPath = vclPath,
         vd_License = \<lparr>lc_Text = [], lc_File = []\<rparr>,
         vd_Varnish = \<lparr>vn_AdminPort = 0, vn_HTTP = [\<lparr>ht_Address = [], ht_Port = 0\<rparr>], vn_HTTPS = [], vn_ExtraArgs = [],
                       vn_Time = \<lparr>tm_Enabled = hasScenarioTests, tm_LibPath = []\<rparr>\<rparr>\<rparr>,
      sc_Logger = True\<rparr>"

definition waitForVarnishReady ::
  "('e, 'u, 'w) HarnessEnv \<Rightarrow> Harness \<Rightarrow> 'w \<Rightarrow> 'e HarnessError option \<times> Harness \<times> 'w" where
  "waitForVarnishReady henv h w =
     (case hv_early henv w of
        (Some err, w1) \<Rightarrow> (Some (VarnishFailed err), h, w1)
      | (None, w1) \<Rightarrow>
          (case GetHTTPPort (ev_exec (hv_env henv)) w1 of
             (port, w2) \<Rightarrow>
               (case hv_race henv w2 of
                  (ContextFirst, w3) \<Rightarrow> (Some ContextEnded, h, w3)
                | (CrashFirst err, w3) \<Rightarrow> (Some (VarnishFailed err), h, w3)
                | (PortFirst, w3) \<Rightarrow>
                    (case port of
                       Inl err \<Rightarrow> (Some (PortFailed err), h, w3)
                     | Inr p \<Rightarrow> (None, h\<lparr>h_httpPort := p\<rparr>, w3)))))"

definition startRecorder ::
  "('e, 'u, 'x World_scheme) HarnessEnv \<Rightarrow> Harness \<Rightarrow> 'x World_scheme \<Rightarrow>
   'e HarnessError option \<times> Harness \<times> 'x World_scheme" where
  "startRecorder henv h w =
     (case recorder_New (h_varnishDir h) False (hv_lookVarnishlog henv w) (PathJoin [h_varnishDir h, ''varnish.log'']) of
        Inl err \<Rightarrow> (Some (CreatingRecorder err), h, w)
      | Inr rec \<Rightarrow>
          let ((removed, created, started), w1) = hv_startVarnishlog henv w in
          (case recorder_Start removed created started (rec, w_log w1) of
             (Inl err, rec1, log1) \<Rightarrow> (Some (StartingRecorder err), h\<lparr>h_recorder := Some rec1\<rparr>, w1\<lparr>w_log := log1\<rparr>)
           | (Inr u, rec1, log1) \<Rightarrow> (None, h\<lparr>h_recorder := Some rec1\<rparr>, w1\<lparr>w_log := log1\<rparr>)))"

definition createRunner :: "('e, 'u, 'w) HarnessEnv \<Rightarrow> Harness \<Rightarrow> 'w \<Rightarrow> Harness \<times> 'w" where
  "createRunner henv h w =
     (let varnishURL = ''http://127.0.0.1:'' @ Itoa (h_httpPort h);
          r1 = SetTimeController (runner_New varnishURL (h_workDir h) (h_recorder h));
          r2 = (case h_mockBackends h of None \<Rightarrow> r1 | Some bm \<Rightarrow> SetMockBackends bm r1)
      in case VCLShowStructured (ev_exec (hv_env henv)) ''boot'' w of
           (Inl err, w1) \<Rightarrow> (h\<lparr>h_testRunner := Some r2\<rparr>, w1)
         | (Inr vclShow, w1) \<Rightarrow> (h\<lparr>h_testRunner := Some (SetVCLShowResult vclShow r2)\<rparr>, w1))"

definition openTranscript ::
  "('e, 'u, 'w) HarnessEnv \<Rightarrow> Harness \<Rightarrow> ServiceManager \<Rightarrow> 'w \<Rightarrow> Harness \<times> ServiceManager \<times> 'w" where
  "openTranscript henv h m w =
     (if \<not> hc_DebugDump (h_cfg h) then (h, m, w)
      else case hv_create henv (PathJoin [h_workDir h, ''varnishadm-traffic.log'']) w of
             (Some err, w1) \<Rightarrow> (h, m, w1)
           | (None, w1) \<Rightarrow> (h\<lparr>h_transcriptFile := True\<rparr>, SetVarnishadmTranscript m, w1))"

definition startServices ::
  "('e, 'u, 'x World_scheme) HarnessEnv \<Rightarrow> string \<Rightarrow> bool \<Rightarrow> Harness \<Rightarrow> 'x World_scheme \<Rightarrow>
   'e HarnessError option \<times> Harness \<times> 'x World_scheme" where
  "startServices henv vclPath hasScenarioTests h w =
     (case NewManager (Some (serviceConfig h vclPath hasScenarioTests)) of
        Inl err \<Rightarrow> (Some (CreatingManager err), h, w)
      | Inr m \<Rightarrow>
          let (h1, m1, w1) = openTranscript henv h m w;
              h2 = h1\<lparr>h_manager := Some m1, h_cancelServices := True\<rparr>;
              w2 = hv_launch henv m1 w1
          in case waitForVarnishReady henv h2 w2 of
               (Some err, h3, w3) \<Rightarrow> (Some err, h3, w3)
             | (None, h3, w3) \<Rightarrow>
                 (case startRecorder henv h3 w3 of
                    (Some err, h4, w4) \<Rightarrow> (Some err, h4, w4)
                  | (None, h4, w4) \<Rightarrow> (case createRunner henv h4 w4 of (h5, w5) \<Rightarrow> (None, h5, w5))))"

text \<open>The errors of stopping the recorder are ignored.\<close>

definition stopServices ::
  "('e, 'u, 'x World_scheme) HarnessEnv \<Rightarrow> Harness \<Rightarrow> 'x World_scheme \<Rightarrow> Harness \<times> 'x World_scheme" where
  "stopServices henv h w =
     (let (h1, w1) =
            (case h_recorder h of
               None \<Rightarrow> (h, w)
             | Some rec \<Rightarrow>
                 let ((signalled, exited, killed), w1) = hv_stopVarnishlog henv w;
                     (u, rec1, log1) = recorder_Stop signalled exited killed (rec, w_log w1)
                 in (h\<lparr>h_recorder := Some rec1\<rparr>, w1\<lparr>w_log := log1\<rparr>));
          w2 = (if h_cancelServices h1 then hv_cancel henv w1 else w1)
      in if h_transcriptFile h1 then (h1\<lparr>h_transcriptFile := False\<rparr>, hv_close henv w2) else (h1, w2))"

definition harness_Cleanup :: "('e, 'u, 'x World_scheme) HarnessEnv \<Rightarrow> Harness \<Rightarrow> 'x World_scheme \<Rightarrow> Harness \<times> 'x World_scheme" where
  "harness_Cleanup henv h w =
     (let (h1, w1) = stopServices henv h w
      in (h1, cleanupTempDirs henv h1 (stopAllBackends (h_mockBackends h1) w1)))"

section \<open>The debug dump\<close>

text \<open>A text from its lines.\<close>

definition textLines :: "string list \<Rightarrow> string" where
  "textLines ls = Join ls [newline]"

definition faketimeInfo :: "string \<Rightarrow> nat \<Rightarrow> string" where
  "faketimeInfo modTime fileSize = textLines
     [''Faketime Control File Information'',
      ''==================================='',
      [],
      ''The faketime.control file uses its modification time (mtime) to control the fake time.'',
      ''Varnish reads this file'' @ [CHR 0x27] @ ''s mtime to determine what time it thinks it is.'',
      [],
      ''Final mtime: '' @ modTime,
      ''File size: '' @ Itoa (int fileSize) @ '' bytes (always empty, only mtime matters)'',
      [],
      ''When vcltest calls AdvanceTimeBy(offset), it runs:'',
      ''  os.Chtimes(faketime.control, t0+offset, t0+offset)'',
      [],
      ''This changes the file'' @ [CHR 0x27] @ ''s mtime, which libfaketime intercepts when Varnish'',
      ''calls stat() or similar syscalls, making Varnish think time has advanced.'',
      []]"

definition readmeText ::
  "string \<Rightarrow> string \<Rightarrow> string \<Rightarrow> nat \<Rightarrow> nat \<Rightarrow> nat \<Rightarrow> string \<Rightarrow> string \<Rightarrow> string \<Rightarrow> string" where
  "readmeText now testFile vclPath passed failed totalTests workDir varnishDir secret = textLines
     [''VCLTest Debug Dump'',
      ''=================='',
      [],
      ''Generated: '' @ now,
      ''Test file: '' @ testFile,
      ''VCL file: '' @ vclPath,
      [],
      ''Test Results:'',
      ''- Passed: '' @ Itoa (int passed) @ ''/'' @ Itoa (int totalTests),
      ''- Failed: '' @ Itoa (int failed) @ ''/'' @ Itoa (int totalTests),
      [],
      ''Files in this directory:'',
      ''- test.yaml: The original test specification'',
      ''- original.vcl: The original VCL file before modification'',
      ''- modified.vcl: The VCL file with backend addresses replaced'',
      ''- varnish.log: The varnishlog output from test execution'',
      ''- varnishadm-traffic.log: Transcript of varnishadm CLI commands and responses'',
      ''- faketime.control: The libfaketime control file (if time scenarios used)'',
      ''- faketime-info.txt: Explanation of how faketime works (if time scenarios used)'',
      ''- secret: The varnishadm authentication secret'',
      ''- README.txt: This file'',
      [],
      ''Temporary Directories (preserved):'',
      ''- Work dir: '' @ workDir,
      ''- Varnish dir: '' @ varnishDir,
      [],
      ''To manually inspect Varnish state, you can use:'',
      ''  varnishadm -T localhost:6082 -S '' @ secret @ '' <command>'',
      [],
      ''Example commands:'',
      ''  varnishadm -T localhost:6082 -S '' @ secret @ '' vcl.list'',
      ''  varnishadm -T localhost:6082 -S '' @ secret @ '' vcl.show shared-vcl'',
      ''  varnishadm -T localhost:6082 -S '' @ secret @ '' backend.list'',
      [],
      ''Note: Varnish is no longer running, these directories are for forensic analysis only.'',
      []]"

definition copyFile :: "('e, 'u, 'w) HarnessEnv \<Rightarrow> string \<Rightarrow> string \<Rightarrow> 'w \<Rightarrow> 'e option \<times> 'w" where
  "copyFile henv src dst w =
     (case hv_open henv src w of
        Some err \<Rightarrow> (Some err, w)
      | None \<Rightarrow>
          (case hv_create henv dst w of
             (Some err, w1) \<Rightarrow> (Some err, w1)
           | (None, w1) \<Rightarrow>
               (case hv_copy henv src dst w1 of
                  (Some err, w2) \<Rightarrow> (Some err, w2)
                | (None, w2) \<Rightarrow> hv_sync henv dst w2)))"

definition dumpDirOf :: "string \<Rightarrow> string \<Rightarrow> string" where
  "dumpDirOf testFile timestamp =
     (let testBasename = Base testFile;
          testBasename = TrimSuffix testBasename (Ext testBasename)
      in PathJoin [''/tmp'', ''vcltest-debug-'' @ testBasename @ ''-'' @ timestamp])"

definition dumpFaketime :: "('e, 'u, 'w) HarnessEnv \<Rightarrow> string \<Rightarrow> string \<Rightarrow> 'w \<Rightarrow> 'w" where
  "dumpFaketime henv workDir dumpDir w =
     (let faketimePath = PathJoin [workDir, ''faketime.control''] in
      case copyFile henv faketimePath (PathJoin [dumpDir, ''faketime.control'']) w of
        (Some err, w1) \<Rightarrow> w1
      | (None, w1) \<Rightarrow>
          (case hv_stat henv faketimePath w1 of
             None \<Rightarrow> w1
           | Some (modTime, fileSize) \<Rightarrow>
               snd (ev_writeFile (hv_env henv) (PathJoin [dumpDir, ''faketime-info.txt'']) (faketimeInfo modTime fileSize) w1)))"

text \<open>Only the failure to create the directory is returned; the others are logged.\<close>

definition createDebugDump ::
  "('e, 'u, 'w) HarnessEnv \<Rightarrow> string \<Rightarrow> string \<Rightarrow> string \<Rightarrow> string \<Rightarrow> Runner \<Rightarrow> TestSpec list \<Rightarrow> nat \<Rightarrow> nat \<Rightarrow> 'w \<Rightarrow>
   ('e, string) result \<times> 'w" where
  "createDebugDump henv testFile vclPath workDir varnishDir testRunner tests passed failed w =
     (let dumpDir = dumpDirOf testFile (hv_stamp henv w) in
      case ev_mkdirAll (hv_env henv) dumpDir w of
        (Some err, w1) \<Rightarrow> (Inl err, w1)
      | (None, w1) \<Rightarrow>
          let w2 = snd (copyFile henv testFile (PathJoin [dumpDir, ''test.yaml'']) w1);
              w3 = snd (copyFile henv vclPath (PathJoin [dumpDir, ''original.vcl'']) w2);
              modifiedVCL = GetLoadedVCLSource testRunner;
              w4 = (if modifiedVCL \<noteq> []
                    then snd (ev_writeFile (hv_env henv) (PathJoin [dumpDir, ''modified.vcl'']) modifiedVCL w3) else w3);
              w5 = snd (copyFile henv (PathJoin [varnishDir, ''varnish.log'']) (PathJoin [dumpDir, ''varnish.log'']) w4);
              w6 = dumpFaketime henv workDir dumpDir w5;
              w7 = snd (copyFile henv (PathJoin [workDir, ''secret'']) (PathJoin [dumpDir, ''secret'']) w6);
              w8 = snd (copyFile henv (PathJoin [workDir, ''varnishadm-traffic.log'']) (PathJoin [dumpDir, ''varnishadm-traffic.log'']) w7);
              readme = readmeText (hv_time henv w8) testFile vclPath passed failed (length tests) workDir varnishDir
                         (PathJoin [dumpDir, ''secret'']);
              w9 = snd (ev_writeFile (hv_env henv) (PathJoin [dumpDir, ''README.txt'']) readme w8)
          in (Inr dumpDir, w9))"

section \<open>Running the tool\<close>

definition dumpIfEnabled ::
  "('e, 'u, 'w) HarnessEnv \<Rightarrow> string \<Rightarrow> Runner \<Rightarrow> TestSpec list \<Rightarrow> Harness \<Rightarrow> 'e HarnessResult \<Rightarrow> 'w \<Rightarrow> 'e HarnessResult \<times> 'w" where
  "dumpIfEnabled henv vclPath r tests h result w =
     (if \<not> hc_DebugDump (h_cfg h) then (result, w)
      else case createDebugDump henv (hc_TestFile (h_cfg h)) vclPath (h_workDir h) (h_varnishDir h) r tests
                  (hr_Passed result) (hr_Failed result) w of
             (Inl err, w1) \<Rightarrow> (result, w1)
           | (Inr dumpPath, w1) \<Rightarrow> (result\<lparr>hr_DebugDumpPath := dumpPath\<rparr>, w1))"

text \<open>
  The part of \<^verbatim>\<open>Run\<close> after the mock backends are started, and the one after the directories
  are created. The services are stopped only when they were started without an error.
\<close>

definition runWithBackends ::
  "('e, 'u, 'x World_scheme) HarnessEnv \<Rightarrow> string \<Rightarrow> TestSpec list \<Rightarrow> (string, BackendAddress) gomap \<Rightarrow> Harness \<Rightarrow>
   'x World_scheme \<Rightarrow> ('e HarnessError, 'e HarnessResult) result \<times> Harness \<times> 'x World_scheme" where
  "runWithBackends henv vclPath tests backendAddresses h w =
     (case prepareVCL henv vclPath backendAddresses h w of
        (Inl err, w1) \<Rightarrow> (Inl err, h, w1)
      | (Inr modifiedVCLPath, w1) \<Rightarrow>
          (case startServices henv modifiedVCLPath (list_ex IsScenario tests) h w1 of
             (Some err, h2, w2) \<Rightarrow> (Inl err, h2, w2)
           | (None, h2, w2) \<Rightarrow>
               let r = the (h_testRunner h2);
                   mocks = (case h_mockBackends h2 of None \<Rightarrow> [] | Some bm \<Rightarrow> bm);
                   (result, w3) = harness_runTests (hv_env henv) r mocks tests w2;
                   (result1, w4) = dumpIfEnabled henv vclPath r tests h2 result w3;
                   (h5, w5) = stopServices henv h2 w4
               in (Inr result1, h5, w5)))"

definition runInDirs ::
  "('e, 'u, 'x World_scheme) HarnessEnv \<Rightarrow> string \<Rightarrow> TestSpec list \<Rightarrow> Harness \<Rightarrow> 'x World_scheme \<Rightarrow>
   ('e HarnessError, 'e HarnessResult) result \<times> Harness \<times> 'x World_scheme" where
  "runInDirs henv vclPath tests h w =
     (case startBackendsEarly henv tests h w of
        (Inl err, h1, w1) \<Rightarrow> (Inl err, h1, w1)
      | (Inr backendAddresses, h1, w1) \<Rightarrow>
          (case runWithBackends henv vclPath tests backendAddresses h1 w1 of
             (out, h2, w2) \<Rightarrow> (out, h2, stopAllBackends (h_mockBackends h1) w2)))"

definition harness_Run ::
  "('e, 'u, 'x World_scheme) HarnessEnv \<Rightarrow> Harness \<Rightarrow> 'x World_scheme \<Rightarrow>
   ('e HarnessError, 'e HarnessResult) result \<times> Harness \<times> 'x World_scheme" where
  "harness_Run henv h w =
     (case ResolveVCL (hv_exists henv w) (hc_TestFile (h_cfg h)) (hc_VCLPath (h_cfg h)) of
        Inl err \<Rightarrow> (Inl (ResolvingVCL err), h, w)
      | Inr vclPath \<Rightarrow>
          (case Load (hv_readFile henv w) (hv_decode henv) (hc_TestFile (h_cfg h)) of
             Inl err \<Rightarrow> (Inl (LoadingTests err), h, w)
           | Inr tests \<Rightarrow>
               (case createTempDirs henv h w of
                  (Some err, h1, w1) \<Rightarrow> (Inl err, h1, w1)
                | (None, h1, w1) \<Rightarrow>
                    (case runInDirs henv vclPath tests h1 w1 of
                       (out, h2, w2) \<Rightarrow>
                         (out, h2, if hc_DebugDump (h_cfg h) then w2 else cleanupTempDirs henv h2 w2)))))"

section \<open>What the operations keep\<close>

text \<open>
  A property of the world that no operation of the environment changes; it does not depend on
  the contents of a mock. Everything the runner does keeps it.
\<close>

definition env_keeps :: "('e, 'u, 'x World_scheme) Env \<Rightarrow> ('x World_scheme \<Rightarrow> bool) \<Rightarrow> bool" where
  "env_keeps env P \<longleftrightarrow>
     (\<forall>w p f. P w \<longrightarrow> P (updateMock p f w)) \<and>
     (\<forall>w. P w \<longrightarrow> P (snd (ev_listen env w))) \<and>
     (\<forall>cmd w. P w \<longrightarrow> P (snd (ev_exec env cmd w))) \<and>
     (\<forall>c q w. P w \<longrightarrow> P (snd (ev_send env c q w))) \<and>
     (\<forall>w. P w \<longrightarrow> P (ev_newJar env w)) \<and>
     (\<forall>d w. P w \<longrightarrow> P (snd (ev_advance env d w))) \<and>
     (\<forall>w. P w \<longrightarrow> P (snd (ev_signal env w))) \<and>
     (\<forall>p w. P w \<longrightarrow> P (snd (ev_mkdirAll env p w))) \<and>
     (\<forall>p c w. P w \<longrightarrow> P (snd (ev_writeFile env p c w))) \<and>
     (\<forall>p w. P w \<longrightarrow> P (ev_removeAll env p w))"

lemma env_keepsD:
  assumes "env_keeps env P" "P w"
  shows "P (updateMock p f w)" "P (snd (ev_listen env w))" "P (snd (ev_exec env cmd w))" "P (snd (ev_send env c q w))"
    "P (ev_newJar env w)" "P (snd (ev_advance env d w))" "P (snd (ev_signal env w))" "P (snd (ev_mkdirAll env path w))"
    "P (snd (ev_writeFile env path content w))" "P (ev_removeAll env path w)"
  using assms by (simp_all add: env_keeps_def)

lemma env_keeps_result:
  assumes "env_keeps env P" "P w"
  shows "ev_listen env w = (o1, w') \<Longrightarrow> P w'" "ev_exec env cmd w = (o2, w') \<Longrightarrow> P w'" "ev_advance env d w = (o3, w') \<Longrightarrow> P w'"
    "ev_mkdirAll env path w = (o4, w') \<Longrightarrow> P w'" "ev_writeFile env path content w = (o5, w') \<Longrightarrow> P w'"
  using env_keepsD[OF assms] by (metis snd_conv)+

lemma mocks_keep:
  assumes "env_keeps env P" "P w"
  shows "P (stopAll bm w)" "P (resetCallCounts bm w)" "P (updateBackends bm backends w)"
proof -
  have "P w \<Longrightarrow> P (fold (\<lambda>(name, p). updateMock p f) bm w)" for f w
    using assms(1) by (induction bm arbitrary: w) (auto simp: env_keeps_def)
  then show "P (stopAll bm w)" "P (resetCallCounts bm w)"
    using assms(2) by (simp_all add: stopAll_def resetCallCounts_def)
  show "P (updateBackends bm backends w)"
    unfolding updateBackends_def using assms
    by (induction backends arbitrary: w) (auto simp: env_keeps_def split: option.split)
qed

lemma request_keeps:
  assumes "env_keeps env P" "P w" "MakeRequest (ev_parseURL env) (ev_send env) cl url req w = (out, w')"
  shows "P w'"
  using MakeRequest_world[OF assms(3)] env_keepsD(4)[OF assms(1,2)] assms(2) by auto

lemma flush_keeps: "env_keeps env P \<Longrightarrow> P w \<Longrightarrow> P (flushLog env r w)"
  using env_keepsD(7)[of env P w] by (simp add: flushLog_def split: option.split)

lemma scenarioLoop_keeps:
  assumes "env_keeps env P" "\<And>step w. P w \<Longrightarrow> P (prepare step w)"
  shows "scenarioLoop env r prepare mocks steps k errors ff w = (out, w') \<Longrightarrow> P w \<Longrightarrow> P w'"
proof (induction steps arbitrary: k errors ff w)
  case (Cons step steps)
  show ?case
  proof (cases "ParseDuration (st_At step)")
    case None
    then show ?thesis using Cons.prems by simp
  next
    case (Some d)
    obtain e w1 where a: "ev_advance env d w = (e, w1)" by fastforce
    have w1: "P w1" using env_keeps_result(3)[OF assms(1) Cons.prems(2) a] .
    obtain m w2 where q: "MakeRequest (ev_parseURL env) (ev_send env) (Some scenarioClient) (rn_varnishURL r)
        (st_Request step) (prepare step w1) = (m, w2)" by fastforce
    have w2: "P w2" using request_keeps[OF assms(1) assms(2)[OF w1] q] .
    show ?thesis using Cons.prems(1) Cons.IH w1 w2 flush_keeps[OF assms(1) w2]
      by (cases e; cases m) (auto simp: Some a q Let_def split: if_splits)
  qed
qed simp

lemma test_keeps:
  assumes "env_keeps env P" "P w" "RunTestWithSharedVCL env r test w = (out, w')"
  shows "P w'"
proof -
  have "P w'" if s: "runScenarioTestWithSharedVCL env r test w = (out, w')"
  proof -
    have "P (shared_prepare r step w)" if "P w" for step w using that mocks_keep[OF assms(1)] by blast
    from scenarioLoop_keeps[OF assms(1), of "shared_prepare r" r "mocksOf r" "ts_Scenario test" 0 "[]" "- 1" "ev_newJar env w", OF this]
    show ?thesis using s assms(2) env_keepsD(5)[OF assms(1,2)]
      by (auto simp: runScenarioTestWithSharedVCL_def runSteps_def Let_def split: prod.splits sum.splits if_splits)
  qed
  moreover have "P w'" if "runSingleRequestTestWithSharedVCL env r test w = (out, w')"
    using that mocks_keep(2)[OF assms(1,2)] request_keeps[OF assms(1)] flush_keeps[OF assms(1)]
    by (fastforce simp: runSingleRequestTestWithSharedVCL_def requestAndCheck_def Let_def split: prod.splits sum.splits)
  ultimately show ?thesis using assms(2,3) by (auto simp: RunTestWithSharedVCL_def split: if_splits)
qed

lemma runTestsLoop_keeps:
  assumes "env_keeps env P"
  shows "runTestsLoop env r bm tests result w = (result', w') \<Longrightarrow> P w \<Longrightarrow> P w'"
proof (induction tests arbitrary: result w)
  case (Cons test tests)
  obtain b w1 where ban: "BanNukeCache (ev_exec env) w = (b, w1)" by fastforce
  have w1: "P w1" using ban env_keeps_result(2)[OF assms Cons.prems(2)] by (auto simp: BanNukeCache_def)
  obtain o2 w2 where run: "RunTestWithSharedVCL env r test (configureBackendsForTest bm test w1) = (o2, w2)" by fastforce
  have w2: "P w2" using test_keeps[OF assms _ run] mocks_keep(3)[OF assms w1] by (simp add: configure_is_update)
  show ?case using Cons.prems(1) Cons.IH w1 w2 by (auto simp: ban run split: sum.splits)
qed simp

lemma writeFiles_keeps:
  assumes "env_keeps env P"
  shows "writeFiles env dir files main w = (out, w') \<Longrightarrow> P w \<Longrightarrow> P w'"
proof (induction files arbitrary: main w)
  case (Cons f files)
  note keeps = env_keeps_result(4,5)[OF assms]
  show ?case using Cons.prems Cons.IH
    by (auto simp: Let_def split: prod.splits option.splits) (metis keeps)+
qed simp

lemma show_keeps:
  assumes "env_keeps env P" "P w"
  shows "VCLShowStructured (ev_exec env) n w = (o1, w') \<Longrightarrow> P w'" "GetHTTPPort (ev_exec env) w = (o2, w') \<Longrightarrow> P w'"
proof -
  note x = env_keepsD(3)[OF assms]
  have s: "snd (structured cmd parse y) = snd y" for cmd parse and y :: "('a, VarnishResponse) result \<times> 'c World_scheme"
    by (cases y) (simp add: structured_def split: sum.split)
  show "VCLShowStructured (ev_exec env) n w = (o1, w') \<Longrightarrow> P w'"
    using x[of "''vcl.show -v '' @ n"] s unfolding VCLShowStructured_def VCLShow_def by (metis snd_conv)
  have "snd (GetHTTPPort (ev_exec env) w) = snd (DebugListenAddressStructured (ev_exec env) w)"
    by (auto simp: GetHTTPPort_def Let_def split: prod.splits sum.splits)
  then show "GetHTTPPort (ev_exec env) w = (o2, w') \<Longrightarrow> P w'"
    using x[of "''debug.listen_address''"] s unfolding DebugListenAddressStructured_def DebugListenAddress_def by (metis snd_conv)
qed

text \<open>The same for the operations of the harness, apart from launching and cancelling the services.\<close>

definition henv_keeps :: "('e, 'u, 'x World_scheme) HarnessEnv \<Rightarrow> ('x World_scheme \<Rightarrow> bool) \<Rightarrow> bool" where
  "henv_keeps henv P \<longleftrightarrow>
     env_keeps (hv_env henv) P \<and>
     (\<forall>w l. P w \<longrightarrow> P (w\<lparr>w_log := l\<rparr>)) \<and>
     (\<forall>s w. P w \<longrightarrow> P (snd (hv_mkdirTemp henv s w))) \<and>
     (\<forall>p w. P w \<longrightarrow> P (snd (hv_create henv p w))) \<and>
     (\<forall>w. P w \<longrightarrow> P (snd (hv_early henv w))) \<and>
     (\<forall>w. P w \<longrightarrow> P (snd (hv_startVarnishlog henv w))) \<and>
     (\<forall>w. P w \<longrightarrow> P (snd (hv_stopVarnishlog henv w))) \<and>
     (\<forall>w. P w \<longrightarrow> P (hv_close henv w)) \<and>
     (\<forall>a b w. P w \<longrightarrow> P (snd (hv_copy henv a b w))) \<and>
     (\<forall>p w. P w \<longrightarrow> P (snd (hv_sync henv p w)))"

lemma henv_keepsD:
  assumes "henv_keeps henv P"
  shows "env_keeps (hv_env henv) P" "P w \<Longrightarrow> P (w\<lparr>w_log := l\<rparr>)" "P w \<Longrightarrow> P (snd (hv_mkdirTemp henv s w))"
    "P w \<Longrightarrow> P (snd (hv_create henv path w))" "P w \<Longrightarrow> P (snd (hv_early henv w))"
    "P w \<Longrightarrow> P (snd (hv_startVarnishlog henv w))" "P w \<Longrightarrow> P (snd (hv_stopVarnishlog henv w))"
    "P w \<Longrightarrow> P (hv_close henv w)" "P w \<Longrightarrow> P (snd (hv_copy henv a b w))" "P w \<Longrightarrow> P (snd (hv_sync henv path w))"
  using assms by (simp_all add: henv_keeps_def)

lemma transcript_keeps:
  assumes "henv_keeps henv P" "P w" "openTranscript henv h m w = (h', m', w')"
  shows "P w'"
  using assms henv_keepsD(4)[OF assms(1,2), of "PathJoin [h_workDir h, ''varnishadm-traffic.log'']"]
  by (auto simp: openTranscript_def split: if_splits prod.splits option.splits)

text \<open>
  Waiting for varnishd keeps a property unless the context ends; \<open>Q\<close> is what holds then.
\<close>

definition race_keeps :: "('e, 'u, 'w) HarnessEnv \<Rightarrow> ('w \<Rightarrow> bool) \<Rightarrow> ('w \<Rightarrow> bool) \<Rightarrow> bool" where
  "race_keeps henv P Q \<longleftrightarrow>
     (\<forall>w. P w \<longrightarrow> (if fst (hv_race henv w) = ContextFirst then Q (snd (hv_race henv w)) else P (snd (hv_race henv w))))"

lemma wait_keeps:
  assumes "henv_keeps henv P" "race_keeps henv P Q" "P w" "waitForVarnishReady henv h w = (e, h', w')"
  shows "if e = Some ContextEnded then Q w' else P w'"
proof -
  obtain e0 w1 where a: "hv_early henv w = (e0, w1)" by fastforce
  have w1: "P w1" using henv_keepsD(5)[OF assms(1,3)] a by simp
  obtain port w2 where g: "GetHTTPPort (ev_exec (hv_env henv)) w1 = (port, w2)" by fastforce
  have w2: "P w2" using show_keeps(2)[OF henv_keepsD(1)[OF assms(1)] w1 g] .
  obtain c w3 where c: "hv_race henv w2 = (c, w3)" by fastforce
  have "if c = ContextFirst then Q w3 else P w3" using assms(2) w2 c by (auto simp: race_keeps_def dest!: spec[of _ w2])
  with w1 assms(4) show ?thesis
    by (auto simp: waitForVarnishReady_def a g c split: option.splits Race.splits sum.splits)
qed

lemma recorder_keeps:
  assumes "henv_keeps henv P" "P w" "startRecorder henv h w = (e, h', w')"
  shows "P w'"
proof -
  obtain b w1 where s: "hv_startVarnishlog henv w = (b, w1)" by fastforce
  have "P w1" using henv_keepsD(6)[OF assms(1,2)] s by simp
  then have "P (w1\<lparr>w_log := l\<rparr>)" for l using henv_keepsD(2)[OF assms(1)] by blast
  with assms(2,3) show ?thesis by (auto simp: startRecorder_def s Let_def split: sum.splits prod.splits)
qed

lemma createRunner_keeps:
  assumes "henv_keeps henv P" "P w" "createRunner henv h w = (h', w')"
  shows "P w'"
  using assms(3) show_keeps(1)[OF henv_keepsD(1)[OF assms(1)] assms(2)]
  by (auto simp: createRunner_def Let_def split: sum.splits prod.splits)

lemma copy_keeps: "henv_keeps henv P \<Longrightarrow> P w \<Longrightarrow> P (snd (copyFile henv a b w))"
proof -
  assume k: "henv_keeps henv P" "P w"
  obtain e1 w1 where c: "hv_create henv b w = (e1, w1)" by fastforce
  have w1: "P w1" using henv_keepsD(4)[OF k, of b] c by simp
  obtain e2 w2 where d: "hv_copy henv a b w1 = (e2, w2)" by fastforce
  have w2: "P w2" using henv_keepsD(9)[OF k(1) w1, of a b] d by simp
  show ?thesis using k(2) w1 w2 henv_keepsD(10)[OF k(1) w2]
    by (auto simp: copyFile_def c d split: option.split)
qed

lemma dump_keeps:
  assumes "henv_keeps henv P" "P w" "createDebugDump henv f v wd vd r tests passed failed w = (out, w')"
  shows "P w'"
proof -
  note env = henv_keepsD(1)[OF assms(1)]
  note cp = copy_keeps[OF assms(1)] and wr = env_keepsD(9)[OF env]
  have ft: "P (dumpFaketime henv a b v)" if v: "P v" for a b v
  proof -
    let ?src = "PathJoin [a, ''faketime.control'']" and ?dst = "PathJoin [b, ''faketime.control'']"
    obtain e v1 where c: "copyFile henv ?src ?dst v = (e, v1)" by fastforce
    have "P v1" using cp[OF v, of ?src ?dst] c by simp
    then show ?thesis using wr by (auto simp: dumpFaketime_def c split: option.splits)
  qed
  obtain e w1 where m: "ev_mkdirAll (hv_env henv) (dumpDirOf f (hv_stamp henv w)) w = (e, w1)" by fastforce
  have w1: "P w1" using env_keeps_result(4)[OF env assms(2) m] .
  show ?thesis
  proof (cases e)
    case None
    show ?thesis using assms(3) w1 unfolding createDebugDump_def Let_def m None
      by (auto intro!: cp wr ft)
  next
    case (Some x)
    then show ?thesis using assms(3) w1 by (simp add: createDebugDump_def m Let_def)
  qed
qed

lemma dumpIfEnabled_keeps:
  assumes "henv_keeps henv P" "P w" "dumpIfEnabled henv v r tests h result w = (result', w')"
  shows "P w'"
  using assms(3,2) dump_keeps[OF assms(1,2)]
  by (auto simp: dumpIfEnabled_def split: if_splits prod.splits sum.splits)

lemma prepareVCL_keeps:
  assumes "henv_keeps henv P" "P w" "prepareVCL henv v backends h w = (out, w')"
  shows "P w'"
  using assms(3,2) writeFiles_keeps[OF henv_keepsD(1)[OF assms(1)]]
  by (auto simp: prepareVCL_def Let_def split: sum.splits prod.splits)

lemma createTempDirs_keeps:
  assumes "henv_keeps henv P" "P w" "createTempDirs henv h w = (e, h', w')"
  shows "P w'"
proof -
  obtain r1 w1 where a: "hv_mkdirTemp henv ''vcltest-work-*'' w = (r1, w1)" by fastforce
  obtain r2 w2 where b: "hv_mkdirTemp henv ''vcltest-varnish-*'' w1 = (r2, w2)" by fastforce
  have "P w1" using henv_keepsD(3)[OF assms(1,2), of "''vcltest-work-*''"] a by simp
  moreover from this have "P w2" using henv_keepsD(3)[OF assms(1), of w1 "''vcltest-varnish-*''"] b by simp
  moreover from this have "P (ev_removeAll (hv_env henv) d w2)" for d using env_keepsD(10)[OF henv_keepsD(1)[OF assms(1)]] by blast
  ultimately show ?thesis using assms(3) by (auto simp: createTempDirs_def a b split: sum.splits)
qed

lemma cleanup_keeps: "henv_keeps henv P \<Longrightarrow> P w \<Longrightarrow> P (cleanupTempDirs henv h w)"
  using env_keepsD(10)[OF henv_keepsD(1), of henv P] by (simp add: cleanupTempDirs_def Let_def)

text \<open>
  Starting the services: either the configuration is refused and nothing happens, or varnishd
  is launched and stays so.
\<close>

lemma startServices_keeps:
  assumes "henv_keeps henv P" "P w" "\<And>m w. P w \<Longrightarrow> Q (hv_launch henv m w)" "henv_keeps henv Q"
    and "race_keeps henv Q R" "startServices henv v sc h w = (e, h', w')"
  shows "(\<exists>c. e = Some (CreatingManager c)) \<and> w' = w \<or> e = Some ContextEnded \<and> R w' \<or>
    e \<noteq> Some ContextEnded \<and> (\<forall>c. e \<noteq> Some (CreatingManager c)) \<and> Q w'"
proof (cases "NewManager (Some (serviceConfig h v sc))")
  case (Inl c)
  then show ?thesis using assms(6) by (auto simp: startServices_def)
next
  case (Inr m)
  obtain h1 m1 w1 where t: "openTranscript henv h m w = (h1, m1, w1)" by (metis prod_cases3)
  let ?h2 = "h1\<lparr>h_manager := Some m1, h_cancelServices := True\<rparr>"
  have q2: "Q (hv_launch henv m1 w1)" using assms(3) transcript_keeps[OF assms(1,2) t] by blast
  obtain e3 h3 w3 where w: "waitForVarnishReady henv ?h2 (hv_launch henv m1 w1) = (e3, h3, w3)" by (metis prod_cases3)
  have q3: "if e3 = Some ContextEnded then R w3 else Q w3" using wait_keeps[OF assms(4,5) q2 w] .
  obtain e4 h4 w4 where r: "startRecorder henv h3 w3 = (e4, h4, w4)" by (metis prod_cases3)
  have q4: "Q w4" if "e3 = None" using recorder_keeps[OF assms(4) _ r] q3 that by simp
  obtain h5 w5 where n: "createRunner henv h4 w4 = (h5, w5)" by fastforce
  have q5: "Q w5" if "e3 = None" using createRunner_keeps[OF assms(4) q4[OF that] n] .
  have e3: "e3 \<noteq> Some (CreatingManager c)" for c
    using w by (auto simp: waitForVarnishReady_def split: option.splits prod.splits Race.splits sum.splits)
  have e4: "e4 \<noteq> Some (CreatingManager c)" "e4 \<noteq> Some ContextEnded" for c
    using r by (auto simp: startRecorder_def Let_def split: sum.splits prod.splits)
  show ?thesis using assms(6) q3 q4 q5 e3 e4
    by (auto simp: startServices_def Inr t Let_def w r n split: option.splits if_splits)
qed

text \<open>The fields a step of the start-up leaves alone.\<close>

definition same_run :: "Harness \<Rightarrow> Harness \<Rightarrow> bool" where
  "same_run h h' \<longleftrightarrow> h_mockBackends h' = h_mockBackends h \<and> h_workDir h' = h_workDir h \<and>
     h_varnishDir h' = h_varnishDir h \<and> h_cfg h' = h_cfg h"

lemma same_run_trans: "same_run h1 h2 \<Longrightarrow> same_run h2 h3 \<Longrightarrow> same_run h1 h3"
  by (simp add: same_run_def)

lemma start_same_run:
  "openTranscript henv h m w = (h', m', w') \<Longrightarrow> same_run h h'"
  "waitForVarnishReady henv h w = (e, h', w') \<Longrightarrow> same_run h h' \<and> h_cancelServices h' = h_cancelServices h"
  "startRecorder henv h w = (e, h', w') \<Longrightarrow> same_run h h' \<and> h_cancelServices h' = h_cancelServices h"
  "createRunner henv h w = (h', w') \<Longrightarrow> same_run h h' \<and> h_cancelServices h' = h_cancelServices h"
  by (auto simp: openTranscript_def waitForVarnishReady_def startRecorder_def createRunner_def Let_def same_run_def
      split: if_splits prod.splits option.splits Race.splits sum.splits)

lemma wait_port:
  assumes "waitForVarnishReady henv h w = (None, h', w')"
  shows "\<exists>w1 w2. GetHTTPPort (ev_exec (hv_env henv)) w1 = (Inr (h_httpPort h'), w2)"
proof -
  from assms obtain w1 w2 p where "GetHTTPPort (ev_exec (hv_env henv)) w1 = (Inr p, w2)" "h' = h\<lparr>h_httpPort := p\<rparr>"
    by (auto simp: waitForVarnishReady_def split: option.splits prod.splits Race.splits sum.splits)
  then show ?thesis by (intro exI[of _ w1] exI[of _ w2]) simp
qed

lemma recorder_port: "startRecorder henv h w = (e, h', w') \<Longrightarrow> h_httpPort h' = h_httpPort h"
  by (auto simp: startRecorder_def Let_def split: sum.splits prod.splits)

lemma createRunner_runner:
  assumes "createRunner henv h w = (h', w')"
  shows "\<exists>r. h_testRunner h' = Some r \<and> mocksOf r = (case h_mockBackends h of None \<Rightarrow> [] | Some bm \<Rightarrow> bm) \<and>
    rn_varnishURL r = ''http://127.0.0.1:'' @ Itoa (h_httpPort h') \<and> h_httpPort h' = h_httpPort h"
  using assms
  by (auto simp: createRunner_def Let_def mocksOf_def SetMockBackends_def SetTimeController_def SetVCLShowResult_def
      runner_New_def split: prod.splits option.splits sum.splits)

lemma startServices_fields:
  assumes "startServices henv v sc h w = (e, h', w')"
  shows "same_run h h' \<and>
    (e = None \<longrightarrow> h_cancelServices h' \<and>
       (\<exists>r. h_testRunner h' = Some r \<and> mocksOf r = (case h_mockBackends h of None \<Rightarrow> [] | Some bm \<Rightarrow> bm) \<and>
          rn_varnishURL r = ''http://127.0.0.1:'' @ Itoa (h_httpPort h')) \<and>
       (\<exists>w1 w2. GetHTTPPort (ev_exec (hv_env henv)) w1 = (Inr (h_httpPort h'), w2)))"
proof (cases "NewManager (Some (serviceConfig h v sc))")
  case (Inl c)
  then show ?thesis using assms by (auto simp: startServices_def same_run_def)
next
  case (Inr m)
  obtain h1 m1 w1 where t: "openTranscript henv h m w = (h1, m1, w1)" by (metis prod_cases3)
  let ?h2 = "h1\<lparr>h_manager := Some m1, h_cancelServices := True\<rparr>"
  obtain e3 h3 w3 where w: "waitForVarnishReady henv ?h2 (hv_launch henv m1 w1) = (e3, h3, w3)" by (metis prod_cases3)
  obtain e4 h4 w4 where r: "startRecorder henv h3 w3 = (e4, h4, w4)" by (metis prod_cases3)
  obtain h5 w5 where n: "createRunner henv h4 w4 = (h5, w5)" by fastforce
  have s: "same_run h ?h2" using start_same_run(1)[OF t] by (simp add: same_run_def)
  have s3: "same_run h h3" "h_cancelServices h3" using start_same_run(2)[OF w] same_run_trans[OF s] by auto
  have s4: "same_run h h4" "h_cancelServices h4" using start_same_run(3)[OF r] same_run_trans[OF s3(1)] s3(2) by auto
  have s5: "same_run h h5" "h_cancelServices h5" using start_same_run(4)[OF n] same_run_trans[OF s4(1)] s4(2) by auto
  have "h_mockBackends h4 = h_mockBackends h" using s4(1) by (simp add: same_run_def)
  moreover have "\<exists>w1 w2. GetHTTPPort (ev_exec (hv_env henv)) w1 = (Inr (h_httpPort h5), w2)" if "e3 = None"
  proof -
    have "h_httpPort h5 = h_httpPort h3" using recorder_port[OF r] createRunner_runner[OF n] by auto
    then show ?thesis using wait_port[OF w[unfolded that]] by simp
  qed
  ultimately show ?thesis using createRunner_runner[OF n] s3 s4 s5 assms
    by (auto simp: startServices_def Inr t Let_def w r n split: option.splits)
qed

lemma stopServices_keeps:
  assumes "henv_keeps henv P" "P w" "\<And>w. P w \<Longrightarrow> Q (hv_cancel henv w)" "henv_keeps henv Q" "h_cancelServices h"
    and "stopServices henv h w = (h', w')"
  shows "Q w' \<and> same_run h h' \<and> h_httpPort h' = h_httpPort h"
proof -
  obtain b w1 where s: "hv_stopVarnishlog henv w = (b, w1)" by fastforce
  have "P w1" using henv_keepsD(7)[OF assms(1,2)] s by simp
  then have "P (w1\<lparr>w_log := l\<rparr>)" for l using henv_keepsD(2)[OF assms(1)] by blast
  then have q: "Q (hv_cancel henv (w1\<lparr>w_log := l\<rparr>))" "Q (hv_cancel henv w)" for l using assms(2,3) by blast+
  then show ?thesis using assms(5,6) henv_keepsD(8)[OF assms(4)]
    by (auto simp: stopServices_def s Let_def same_run_def split: option.splits prod.splits if_splits)
qed

end
