(* ===== verification/HarnessRun.thy ===== *)
theory HarnessRun
  imports Harness
begin

text \<open>
  The run of the tool as a whole: what a result of \<^verbatim>\<open>Harness.Run\<close> says about the test file, and
  what the run leaves behind on every path, the failing ones included.
\<close>

section \<open>The mock store during a run\<close>

text \<open>
  Outside the start of the mock backends no operation adds or removes a mock; removing a
  directory does not touch them at all.
\<close>

definition store_env :: "('e, 'u, 'x World_scheme) HarnessEnv \<Rightarrow> bool" where
  "store_env henv \<longleftrightarrow>
     (\<forall>n. henv_keeps henv (\<lambda>w. length (w_mocks w) = n)) \<and>
     (\<forall>m w. length (w_mocks (hv_launch henv m w)) = length (w_mocks w)) \<and>
     (\<forall>w. length (w_mocks (hv_cancel henv w)) = length (w_mocks w)) \<and>
     (\<forall>w. length (w_mocks (snd (hv_race henv w))) = length (w_mocks w)) \<and>
     (\<forall>d w. w_mocks (ev_removeAll (hv_env henv) d w) = w_mocks w)"

lemma store_envD:
  assumes "store_env henv"
  shows "henv_keeps henv (\<lambda>w. length (w_mocks w) = n)"
    and "length (w_mocks (hv_launch henv m w)) = length (w_mocks w)"
    and "length (w_mocks (hv_cancel henv w)) = length (w_mocks w)"
    and "w_mocks (ev_removeAll (hv_env henv) d w) = w_mocks w"
    and "race_keeps henv (\<lambda>w. length (w_mocks w) = n) (\<lambda>w. length (w_mocks w) = n)"
  using assms by (simp_all add: store_env_def race_keeps_def)

lemma cleanup_mocks: "store_env henv \<Longrightarrow> w_mocks (cleanupTempDirs henv h w) = w_mocks w"
  by (simp add: cleanupTempDirs_def Let_def store_envD(4))

text \<open>The run between the start and the stop of the mock backends, as its parts.\<close>

lemma runWithBackends_cases:
  assumes "runWithBackends henv vclPath tests addresses h w = (out, h', w')"
  obtains (prepare) e where "prepareVCL henv vclPath addresses h w = (Inl e, w')" "out = Inl e" "h' = h"
  | (services) p w1 e where "prepareVCL henv vclPath addresses h w = (Inr p, w1)"
      "startServices henv p (list_ex IsScenario tests) h w1 = (Some e, h', w')" "out = Inl e"
  | (ran) p w1 h2 w2 r result w3 result1 w4 where "prepareVCL henv vclPath addresses h w = (Inr p, w1)"
      "startServices henv p (list_ex IsScenario tests) h w1 = (None, h2, w2)" "r = the (h_testRunner h2)"
      "harness_runTests (hv_env henv) r (case h_mockBackends h2 of None \<Rightarrow> [] | Some bm \<Rightarrow> bm) tests w2 = (result, w3)"
      "dumpIfEnabled henv vclPath r tests h2 result w3 = (result1, w4)"
      "stopServices henv h2 w4 = (h', w')" "out = Inr result1"
proof -
  obtain o1 w1 where p: "prepareVCL henv vclPath addresses h w = (o1, w1)" by fastforce
  show ?thesis
  proof (cases o1)
    case (Inl e)
    then have "out = Inl e" "h' = h" "w' = w1" using assms p by (simp_all add: runWithBackends_def)
    then show ?thesis using p Inl by (intro prepare) simp_all
  next
    case (Inr path)
    obtain e2 h2 w2 where s: "startServices henv path (list_ex IsScenario tests) h w1 = (e2, h2, w2)" by (rule prod_cases3)
    show ?thesis
    proof (cases e2)
      case (Some e)
      then have "out = Inl e" "h' = h2" "w' = w2" using assms p s Inr by (simp_all add: runWithBackends_def)
      then show ?thesis using p s Inr Some by (intro services[of path w1 e]) simp_all
    next
      case None
      let ?r = "the (h_testRunner h2)" and ?bm = "case h_mockBackends h2 of None \<Rightarrow> [] | Some bm \<Rightarrow> bm"
      obtain result w3 where t: "harness_runTests (hv_env henv) ?r ?bm tests w2 = (result, w3)" by fastforce
      obtain result1 w4 where d: "dumpIfEnabled henv vclPath ?r tests h2 result w3 = (result1, w4)" by fastforce
      obtain h5 w5 where x: "stopServices henv h2 w4 = (h5, w5)" by fastforce
      have "out = Inr result1 \<and> h' = h5 \<and> w' = w5"
        using assms p s t d x by (simp add: runWithBackends_def Inr None Let_def)
      then show ?thesis using p s t d x Inr None by (intro ran[of path w1 h2 w2 ?r result w3 result1 w4]) simp_all
    qed
  qed
qed

lemma runTests_keeps:
  assumes "henv_keeps henv P" "P w" "harness_runTests (hv_env henv) r bm tests w = (result, w')"
  shows "P w'"
  using runTestsLoop_keeps[OF henv_keepsD(1)[OF assms(1)] assms(3)[unfolded harness_runTests_def] assms(2)] .

lemma runWithBackends_length:
  assumes "store_env henv" "runWithBackends henv vclPath tests addresses h w = (out, h', w')"
  shows "length (w_mocks w') = length (w_mocks w) \<and> h_workDir h' = h_workDir h \<and> h_varnishDir h' = h_varnishDir h"
proof -
  let ?P = "\<lambda>v. length (w_mocks v) = length (w_mocks w)"
  note k = store_envD(1)[OF assms(1), of "length (w_mocks w)"]
  have launch: "\<And>m v. ?P v \<Longrightarrow> ?P (hv_launch henv m v)" and cancel: "\<And>v. ?P v \<Longrightarrow> ?P (hv_cancel henv v)"
    using store_envD(2,3)[OF assms(1)] by auto
  from assms(2) show ?thesis
  proof (cases rule: runWithBackends_cases)
    case (prepare e)
    then show ?thesis using prepareVCL_keeps[OF k _ prepare(1)] by simp
  next
    case (services p w1 e)
    have "?P w1" using prepareVCL_keeps[OF k _ services(1)] by simp
    from startServices_keeps[OF k this launch k store_envD(5)[OF assms(1)] services(2)] this startServices_fields[OF services(2)]
    show ?thesis by (auto simp: same_run_def)
  next
    case (ran p w1 h2 w2 r result w3 result1 w4)
    have w1: "?P w1" using prepareVCL_keeps[OF k _ ran(1)] by simp
    have w2: "?P w2" using startServices_keeps[OF k w1 launch k store_envD(5)[OF assms(1)] ran(2)] by auto
    have w4: "?P w4" using dumpIfEnabled_keeps[OF k runTests_keeps[OF k w2 ran(4)] ran(5)] .
    note f = startServices_fields[OF ran(2)]
    from stopServices_keeps[OF k w4 cancel k _ ran(6)] f show ?thesis by (auto simp: same_run_def)
  qed
qed

section \<open>Reporting\<close>

definition proper_maps :: "TestSpec \<Rightarrow> bool" where
  "proper_maps t \<longleftrightarrow> wf_map (ts_Backends t) \<and> list_all (\<lambda>s. wf_map (st_Backends s)) (ts_Scenario t)"

lemma updateEach_wf: "wf_map (updateEach f m) = wf_map m"
  by (simp add: updateEach_def wf_map_def comp_def case_prod_unfold)

lemma defaults_proper: "proper_maps t \<Longrightarrow> proper_maps (ApplyDefaults t)"
  by (auto simp: proper_maps_def ApplyDefaults_def defaultStep_def updateEach_wf list_all_iff)

lemma loadLoop_proper:
  "loadLoop docs k acc = Inr tests \<Longrightarrow> \<forall>t. Inr t \<in> set docs \<longrightarrow> proper_maps t \<Longrightarrow> list_all proper_maps acc \<Longrightarrow>
   list_all proper_maps tests"
  by (induction docs k acc rule: loadLoop.induct) (auto split: option.splits intro: defaults_proper)

lemma Load_proper:
  assumes "Load readFile decode f = Inr tests" "\<And>data t. Inr t \<in> set (decode data) \<Longrightarrow> proper_maps t"
  shows "list_all proper_maps tests"
proof -
  obtain data where "loadLoop (decode data) 0 [] = Inr tests"
    using assms(1) by (auto simp: Load_def split: sum.splits if_splits)
  from loadLoop_proper[OF this] assms(2)[of _ data] show ?thesis by simp
qed

lemma harness_Run_cases:
  assumes "harness_Run henv (harness_New cfg) w = (out, h', w')"
  obtains (input) e where "out = Inl e" "w' = w" "(\<exists>x. e = ResolvingVCL x) \<or> (\<exists>x. e = LoadingTests x)" "h' = harness_New cfg"
  | (dirs) e where "createTempDirs henv (harness_New cfg) w = (Some e, h', w')" "out = Inl e"
  | (inner) vclPath tests h1 w1 w2 where "Load (hv_readFile henv w) (hv_decode henv) (hc_TestFile cfg) = Inr tests"
      "createTempDirs henv (harness_New cfg) w = (None, h1, w1)" "runInDirs henv vclPath tests h1 w1 = (out, h', w2)"
      "w' = (if hc_DebugDump cfg then w2 else cleanupTempDirs henv h' w2)"
      "ResolveVCL (hv_exists henv w) (hc_TestFile cfg) (hc_VCLPath cfg) = Inr vclPath"
proof -
  have c: "h_cfg (harness_New cfg) = cfg" by (simp add: harness_New_def)
  obtain v where v: "ResolveVCL (hv_exists henv w) (hc_TestFile cfg) (hc_VCLPath cfg) = v" by simp
  obtain l where l: "Load (hv_readFile henv w) (hv_decode henv) (hc_TestFile cfg) = l" by simp
  obtain e1 h1 w1 where d: "createTempDirs henv (harness_New cfg) w = (e1, h1, w1)" by (rule prod_cases3)
  show ?thesis
  proof (cases v)
    case (Inl x)
    then have "out = Inl (ResolvingVCL x)" "h' = harness_New cfg" "w' = w" using assms v by (simp_all add: harness_Run_def c)
    then show ?thesis by (intro input[of "ResolvingVCL x"]) blast+
  next
    case v': (Inr vclPath)
    show ?thesis
    proof (cases l)
      case (Inl x)
      then have "out = Inl (LoadingTests x)" "h' = harness_New cfg" "w' = w" using assms v v' l by (simp_all add: harness_Run_def c)
      then show ?thesis by (intro input[of "LoadingTests x"]) blast+
    next
      case (Inr tests)
      obtain o2 h2 w2 where r: "runInDirs henv vclPath tests h1 w1 = (o2, h2, w2)" by (rule prod_cases3)
      show ?thesis
      proof (cases e1)
        case (Some e)
        then have "out = Inl e" "h' = h1" "w' = w1" using assms v v' l Inr d by (simp_all add: harness_Run_def c)
        then show ?thesis using d Some by (intro dirs) simp_all
      next
        case None
        then have "out = o2" "h' = h2" "w' = (if hc_DebugDump cfg then w2 else cleanupTempDirs henv h2 w2)"
          using assms v v' l Inr d r by (simp_all add: harness_Run_def c)
        then show ?thesis using l Inr d None r v v' by (intro inner[of tests h1 w1 vclPath w2]) simp_all
      qed
    qed
  qed
qed

lemma runInDirs_cases:
  assumes "runInDirs henv vclPath tests h w = (out, h', w')"
  obtains (backends) e where "startAllBackends (hv_ord henv) (hv_env henv) tests w = (Inl e, w')"
      "out = Inl (StartingBackends e)" "h' = h"
  | (body) addresses bm w1 w2 where "startAllBackends (hv_ord henv) (hv_env henv) tests w = (Inr (addresses, bm), w1)"
      "runWithBackends henv vclPath tests addresses (h\<lparr>h_mockBackends := Some bm\<rparr>) w1 = (out, h', w2)" "w' = stopAll bm w2"
proof -
  obtain b w1 where s: "startAllBackends (hv_ord henv) (hv_env henv) tests w = (b, w1)" by fastforce
  show ?thesis
  proof (cases b)
    case (Inl e)
    then have "out = Inl (StartingBackends e)" "h' = h" "w' = w1"
      using assms s by (simp_all add: runInDirs_def startBackendsEarly_def)
    then show ?thesis using s Inl by (intro backends) simp_all
  next
    case (Inr ab)
    obtain addresses bm where ab: "ab = (addresses, bm)" by (cases ab)
    obtain o2 h2 w2 where r: "runWithBackends henv vclPath tests addresses (h\<lparr>h_mockBackends := Some bm\<rparr>) w1 = (o2, h2, w2)"
      by (rule prod_cases3)
    have "out = o2" "h' = h2" "w' = stopAll bm w2"
      using assms s Inr ab r by (simp_all add: runInDirs_def startBackendsEarly_def stopAllBackends_def)
    then show ?thesis using s Inr ab r by (intro body) simp_all
  qed
qed

lemma createTempDirs_fields:
  assumes "createTempDirs henv h w = (None, h', w')"
  shows "h_cfg h' = h_cfg h \<and> (\<exists>w1. hv_mkdirTemp henv ''vcltest-work-*'' w = (Inr (h_workDir h'), w1) \<and>
    hv_mkdirTemp henv ''vcltest-varnish-*'' w1 = (Inr (h_varnishDir h'), w'))"
  using assms by (auto simp: createTempDirs_def split: sum.splits prod.splits)

text \<open>What the start of the mock backends gives, without the details of the single mocks.\<close>

lemma started_none: "started (length (w_mocks w)) [] [] w"
  by (simp add: started_def dom_def)

lemma startAll_as_loop:
  assumes "range_order ord" "startAllBackends ord env tests w = (out, w')"
  shows "\<exists>specs. startAllLoop env specs [] [] w = (out, w') \<and> distinct (map fst specs) \<and> started (length (w_mocks w)) [] [] w"
proof -
  define cfgs where "cfgs = (if length (collectConfigs tests) = 0 then mput ''default'' okBackend (collectConfigs tests) else collectConfigs tests)"
  have "startAllLoop env (ord cfgs) [] [] w = (out, w')"
    using assms(2) by (simp add: startAllBackends_def cfgs_def Let_def)
  moreover have "wf_map cfgs" using collectConfigs_wf[of tests] by (simp add: cfgs_def)
  moreover have "mset (ord cfgs) = mset cfgs" using assms(1) by (simp add: range_order_def)
  ultimately show ?thesis by (metis wf_map_def mset_map mset_eq_imp_distinct_iff started_none)
qed

lemma startAll_ptrs:
  assumes "listen_env env" "range_order ord" "startAllBackends ord env tests w = (Inr (addresses, bm), w')"
  shows "valid_ptrs bm w' \<and> distinct (map snd bm) \<and> snd ` set bm = {length (w_mocks w)..<length (w_mocks w')} \<and>
    length (w_mocks w) \<le> length (w_mocks w')"
proof -
  from startAll_as_loop[OF assms(2,3)] obtain specs where l: "startAllLoop env specs [] [] w = (Inr (addresses, bm), w')"
    "distinct (map fst specs)" "started (length (w_mocks w)) [] [] w" by blast
  from startAllLoop_ok[OF assms(1) l(1,3,2)]
  have s: "started (length (w_mocks w)) bm addresses w'" "length (w_mocks w) \<le> length (w_mocks w')" by auto
  have c: "snd ` set bm = {length (w_mocks w)..<length (w_mocks w')}"
    using s(1) unfolding started_def by (metis atLeastLessThan_upt list.set_map)
  then have "valid_ptrs bm w'" by (force simp: valid_ptrs_def list_all_iff)
  moreover have "distinct (map snd bm)" using s(1) by (simp add: started_def)
  ultimately show ?thesis using c s(2) by blast
qed

lemma startAll_stops:
  assumes "listen_env env" "range_order ord" "startAllBackends ord env tests w = (Inl err, w')"
  shows "\<forall>p. length (w_mocks w) \<le> p \<and> p + (case err of ParsingAddress n a \<Rightarrow> 1 | _ \<Rightarrow> 0) < length (w_mocks w') \<longrightarrow>
    mb_stopped (w_mocks w' ! p)"
proof -
  from startAll_as_loop[OF assms(2,3)] obtain specs where l: "startAllLoop env specs [] [] w = (Inl err, w')"
    "distinct (map fst specs)" "started (length (w_mocks w)) [] [] w" by blast
  from startAllLoop_failed[OF assms(1) l(1,3,2)] show ?thesis by simp
qed

section \<open>Properties\<close>

text \<open>
  How the results of a run came about, from the state \<open>w\<close> the run started in: the tests are
  those of the test file; mock backends were started for them, the VCL was prepared with their
  addresses, varnishd was started with it; the runner has these mock backends and the URL of the
  port that varnishd reported; and the results are those of running the tests, one after the
  other, from the state this left.
\<close>

definition reported_run ::
  "('e, 'u, 'x World_scheme) HarnessEnv \<Rightarrow> (Client \<Rightarrow> 'u HttpRequest \<Rightarrow> 'x World_scheme \<Rightarrow> nat \<Rightarrow> nat) \<Rightarrow>
   HarnessConfig \<Rightarrow> 'x World_scheme \<Rightarrow> TestSpec list \<Rightarrow> 'e TestResult list \<Rightarrow> bool" where
  "reported_run henv hits cfg w tests results \<longleftrightarrow>
     Load (hv_readFile henv w) (hv_decode henv) (hc_TestFile cfg) = Inr tests \<and>
     (\<exists>vclPath h0 w0 addresses bm w1 mainVCL w2 h3 w3 r w4 port.
        ResolveVCL (hv_exists henv w) (hc_TestFile cfg) (hc_VCLPath cfg) = Inr vclPath \<and>
        createTempDirs henv (harness_New cfg) w = (None, h0, w0) \<and>
        startAllBackends (hv_ord henv) (hv_env henv) tests w0 = (Inr (addresses, bm), w1) \<and>
        prepareVCL henv vclPath addresses (h0\<lparr>h_mockBackends := Some bm\<rparr>) w1 = (Inr mainVCL, w2) \<and>
        startServices henv mainVCL (list_ex IsScenario tests) (h0\<lparr>h_mockBackends := Some bm\<rparr>) w2 = (None, h3, w3) \<and>
        h_testRunner h3 = Some r \<and> mocksOf r = bm \<and>
        (\<exists>wa wb. GetHTTPPort (ev_exec (hv_env henv)) wa = (Inr port, wb)) \<and>
        rn_varnishURL r = ''http://127.0.0.1:'' @ Itoa port \<and>
        tests_ran (hv_env henv) hits r tests w3 results w4)"

lemma run_reports_spec:
  assumes "varnish_env (hv_env henv) hits" "cli_env (hv_env henv)" "listen_env (hv_env henv)" "range_order (hv_ord henv)"
    and "store_env henv" "\<forall>data t. Inr t \<in> set (hv_decode henv data) \<longrightarrow> proper_maps t"
    and "harness_Run henv (harness_New cfg) w = (Inr result, h', w')"
  shows "\<exists>tests. reported_run henv hits cfg w tests (hr_Results result) \<and>
    hr_Total result = length tests \<and> hr_Passed result + hr_Failed result = hr_Total result \<and>
    hr_Passed result = length (filter res_Passed (hr_Results result))"
  using assms(7)
proof (cases rule: harness_Run_cases)
  case (inner vclPath tests h1 w1 w2)
  from inner(3) show ?thesis
  proof (cases rule: runInDirs_cases)
    case (body addresses bm v1 v2)
    note ptrs = startAll_ptrs[OF assms(3,4) body(1)]
    from body(2) show ?thesis
    proof (cases rule: runWithBackends_cases)
      case (ran p u1 h2 u2 r result0 u3 result1 u4)
      let ?P = "\<lambda>v. length (w_mocks v) = length (w_mocks v1)"
      note k = store_envD(1)[OF assms(5), of "length (w_mocks v1)"]
      have launch: "\<And>m v. ?P v \<Longrightarrow> ?P (hv_launch henv m v)" using store_envD(2)[OF assms(5)] by auto
      have u1: "?P u1" using prepareVCL_keeps[OF k _ ran(1)] by simp
      have u2: "?P u2" using startServices_keeps[OF k u1 launch k store_envD(5)[OF assms(5)] ran(2)] by auto
      note f = startServices_fields[OF ran(2)]
      have r: "h_testRunner h2 = Some r" "mocksOf r = bm" "rn_varnishURL r = ''http://127.0.0.1:'' @ Itoa (h_httpPort h2)"
        "h_mockBackends h2 = Some bm" "\<exists>wa wb. GetHTTPPort (ev_exec (hv_env henv)) wa = (Inr (h_httpPort h2), wb)"
        using f ran(3) by (auto simp: same_run_def)
      have v: "valid_ptrs (mocksOf r) u2" "distinct (map snd (mocksOf r))"
        using ptrs r(2) valid_ptrs_length[of u2 v1] u2 by auto
      have "list_all proper_maps tests" using Load_proper[OF inner(1)] assms(6) by blast
      then have wf: "list_all (\<lambda>t. wf_map (ts_Backends t) \<and> list_all (\<lambda>s. wf_map (st_Backends s)) (ts_Scenario t)) tests"
        by (simp add: proper_maps_def list_all_iff)
      have t: "harness_runTests (hv_env henv) r (mocksOf r) tests u2 = (result0, u3)" using ran(4) r(2,4) by simp
      note verdicts = runTests_spec[OF assms(1,2) v wf t]
      have same: "hr_Results result = hr_Results result0" "hr_Total result = hr_Total result0"
        "hr_Passed result = hr_Passed result0" "hr_Failed result = hr_Failed result0"
        using ran(5,7) by (auto simp: dumpIfEnabled_def split: if_splits prod.splits sum.splits)
      have "tests_ran (hv_env henv) hits r tests u2 (hr_Results result) u3" using verdicts same(1) by simp
      then have "reported_run henv hits cfg w tests (hr_Results result)"
        unfolding reported_run_def using inner(1,2,5) body(1) ran(1,2) r by blast
      with verdicts same show ?thesis by auto
    qed simp_all
  qed simp_all
qed simp_all

text \<open>
  C2. What a finished run says: every test document of the test file is reported, in
  order and under its own name, with correct counts. The results are those of running these
  tests one after the other, right after the start-up of this run: each with its own ban, its own
  backends configured, its own requests sent to the port that varnishd reported, and the calls
  that these requests caused at the mock backends started for the file. Nothing about the mock
  backends has to be assumed.
\<close>

theorem run_reports_every_test:
  assumes "varnish_env (hv_env henv) hits" "cli_env (hv_env henv)" "listen_env (hv_env henv)" "range_order (hv_ord henv)"
    and "store_env henv" "\<forall>data t. Inr t \<in> set (hv_decode henv data) \<longrightarrow> proper_maps t"
    and "harness_Run henv (harness_New cfg) w = (Inr result, h', w')"
  shows "\<exists>tests. reported_run henv hits cfg w tests (hr_Results result) \<and>
    hr_Total result = length tests \<and> hr_Passed result + hr_Failed result = hr_Total result \<and>
    hr_Passed result = length (filter res_Passed (hr_Results result))"
  using run_reports_spec[OF assms] .

text \<open>
  C11. A run never leaves a mock backend serving: on every path through it, also when the
  VCL, varnishd or the recorder fails, every mock backend the run started is stopped at the end
  (except one whose own address could not be parsed), and unless a debug dump was asked for the
  last thing done is to remove the two temporary directories.
\<close>

theorem run_releases_backends:
  assumes "listen_env (hv_env henv)" "range_order (hv_ord henv)" "store_env henv"
    and "\<And>s w d w'. hv_mkdirTemp henv s w = (Inr d, w') \<Longrightarrow> d \<noteq> []"
    and "harness_Run henv (harness_New cfg) w = (out, h', w')"
  shows "(\<forall>p. length (w_mocks w) \<le> p \<and>
       p + (case out of Inl (StartingBackends (ParsingAddress n a)) \<Rightarrow> 1 | _ \<Rightarrow> 0) < length (w_mocks w') \<longrightarrow>
       mb_stopped (w_mocks w' ! p)) \<and>
    (h_varnishDir h' \<noteq> [] \<and> \<not> hc_DebugDump cfg \<longrightarrow>
       (\<exists>w''. w' = ev_removeAll (hv_env henv) (h_varnishDir h') (ev_removeAll (hv_env henv) (h_workDir h') w'')))"
  using assms(5)
proof (cases rule: harness_Run_cases)
  case (input e)
  then show ?thesis by (auto simp: harness_New_def)
next
  case (dirs e)
  have "length (w_mocks w') = length (w_mocks w)"
    using createTempDirs_keeps[OF store_envD(1)[OF assms(3)] refl dirs(1)] .
  moreover have "h_varnishDir h' = []"
    using dirs(1) by (auto simp: createTempDirs_def harness_New_def split: sum.splits prod.splits)
  ultimately show ?thesis by auto
next
  case (inner vclPath tests h1 w1 w2)
  have w1: "length (w_mocks w1) = length (w_mocks w)"
    using createTempDirs_keeps[OF store_envD(1)[OF assms(3)] refl inner(2)] .
  have d1: "h_workDir h1 \<noteq> []" "h_varnishDir h1 \<noteq> []"
    using createTempDirs_fields[OF inner(2)] assms(4) by blast+
  have m: "w_mocks w' = w_mocks w2" using inner(4) cleanup_mocks[OF assms(3)] by simp
  have "(\<forall>p. length (w_mocks w1) \<le> p \<and>
       p + (case out of Inl (StartingBackends (ParsingAddress n a)) \<Rightarrow> 1 | _ \<Rightarrow> 0) < length (w_mocks w2) \<longrightarrow>
       mb_stopped (w_mocks w2 ! p)) \<and> h_workDir h' = h_workDir h1 \<and> h_varnishDir h' = h_varnishDir h1"
    using inner(3)
  proof (cases rule: runInDirs_cases)
    case (backends e)
    then show ?thesis using startAll_stops[OF assms(1,2) backends(1)] by simp
  next
    case (body addresses bm v1 v2)
    note ptrs = startAll_ptrs[OF assms(1,2) body(1)]
    have l: "length (w_mocks v2) = length (w_mocks v1)" "h_workDir h' = h_workDir h1" "h_varnishDir h' = h_varnishDir h1"
      using runWithBackends_length[OF assms(3) body(2)] by simp_all
    have "mb_stopped (w_mocks w2 ! p)" if "length (w_mocks w1) \<le> p" "p < length (w_mocks w2)" for p
      using that ptrs l(1) by (simp add: body(3) stopAll_nth mock_Stop_def Let_def)
    with l show ?thesis by auto
  qed
  with w1 m d1 inner(4) show ?thesis by (auto simp: cleanupTempDirs_def)
qed

section \<open>The services after a run\<close>

text \<open>
  \<open>live\<close>: the context of the background services is not cancelled. Launching the services and
  cancelling them changes it; and when the wait for varnishd ends because that context is done,
  the services are no longer live. The caller's context is otherwise not cancelled (the command
  passes the background context).
\<close>

definition service_env :: "('e, 'u, 'x World_scheme) HarnessEnv \<Rightarrow> ('x World_scheme \<Rightarrow> bool) \<Rightarrow> bool" where
  "service_env henv live \<longleftrightarrow>
     henv_keeps henv live \<and> henv_keeps henv (\<lambda>w. \<not> live w) \<and>
     (\<forall>w ms. live (w\<lparr>w_mocks := ms\<rparr>) = live w) \<and>
     (\<forall>m w. live (hv_launch henv m w)) \<and> (\<forall>w. \<not> live (hv_cancel henv w)) \<and>
     race_keeps henv live (\<lambda>w. \<not> live w)"

fun after_launch :: "'e HarnessError \<Rightarrow> bool" where
  "after_launch (VarnishFailed e) = True"
| "after_launch (PortFailed e) = True"
| "after_launch (CreatingRecorder e) = True"
| "after_launch (StartingRecorder e) = True"
| "after_launch e = False"

lemma startServices_error: "startServices henv v sc h w = (Some e, h', w') \<Longrightarrow>
   after_launch e \<or> e = ContextEnded \<or> (\<exists>c. e = CreatingManager c)"
  by (auto simp: startServices_def waitForVarnishReady_def startRecorder_def Let_def
      split: sum.splits prod.splits option.splits Race.splits)

lemma startAllLoop_live:
  assumes "env_keeps env P" "\<And>w ms. P w \<Longrightarrow> P (w\<lparr>w_mocks := ms\<rparr>)"
  shows "startAllLoop env specs bm addresses w = (out, w') \<Longrightarrow> P w \<Longrightarrow> P w'"
proof (induction specs arbitrary: bm addresses w)
  case (Cons s specs)
  obtain name spec where s: "s = (name, spec)" by (cases s)
  obtain listen w1 where l: "ev_listen env w = (listen, w1)" by fastforce
  have w1: "P w1" using env_keeps_result(1)[OF assms(1) Cons.prems(2) l] .
  have st: "P (stopAll bm v)" if "P v" for v using mocks_keep(1)[OF assms(1) that] .
  show ?case using Cons.prems(1) Cons.IH w1 st assms(2)
    by (auto simp: s l mock_Start_def Let_def split: sum.splits prod.splits)
qed simp

lemma runWithBackends_live:
  assumes "service_env henv live" "\<not> live w" "runWithBackends henv vclPath tests addresses h w = (out, h', w')"
  shows "live w' \<longleftrightarrow> (\<exists>e. out = Inl e \<and> after_launch e)"
proof -
  have k: "henv_keeps henv live" "henv_keeps henv (\<lambda>w. \<not> live w)"
    and launch: "\<And>m v. \<not> live v \<Longrightarrow> live (hv_launch henv m v)" and cancel: "\<And>v. live v \<Longrightarrow> \<not> live (hv_cancel henv v)"
    and race: "race_keeps henv live (\<lambda>w. \<not> live w)"
    using assms(1) by (simp_all add: service_env_def)
  from assms(3) show ?thesis
  proof (cases rule: runWithBackends_cases)
    case (prepare e)
    have "\<not> after_launch e" using prepare(1) by (auto simp: prepareVCL_def Let_def split: sum.splits prod.splits)
    then show ?thesis using prepareVCL_keeps[OF k(2) assms(2) prepare(1)] prepare(2) by simp
  next
    case (services p w1 e)
    have w1: "\<not> live w1" using prepareVCL_keeps[OF k(2) assms(2) services(1)] .
    from startServices_keeps[OF k(2) w1 launch k(1) race services(2)] startServices_error[OF services(2)] w1 services(3)
    show ?thesis by auto
  next
    case (ran p w1 h2 w2 r result w3 result1 w4)
    have w1: "\<not> live w1" using prepareVCL_keeps[OF k(2) assms(2) ran(1)] .
    have w2: "live w2" using startServices_keeps[OF k(2) w1 launch k(1) race ran(2)] by simp
    have w4: "live w4" using dumpIfEnabled_keeps[OF k(1) runTests_keeps[OF k(1) w2 ran(4)] ran(5)] .
    have "h_cancelServices h2" using startServices_fields[OF ran(2)] by simp
    from stopServices_keeps[OF k(1) w4 cancel k(2) this ran(6)] ran(7) show ?thesis by simp
  qed
qed

lemma stopAll_live: "service_env henv live \<Longrightarrow> live (stopAll bm w) = live w"
  using mocks_keep(1)[OF henv_keepsD(1)] unfolding service_env_def by blast

text \<open>
  C12. The background services are left live exactly when the run fails between their launch
  and the end of \<^verbatim>\<open>startServices\<close> for another reason than the end of their context: varnishd
  failed, its port could not be found, or the recorder could not be started. The error is then
  returned with the services' context not cancelled, because the deferred stop is only
  registered after \<^verbatim>\<open>startServices\<close> has returned without an error. On every other path, success
  and the end of the context included, the services are shut down or were never launched.
\<close>

theorem services_left_live:
  assumes "service_env henv live" "\<not> live w" "harness_Run henv (harness_New cfg) w = (out, h', w')"
  shows "live w' \<longleftrightarrow> (\<exists>e. out = Inl e \<and> after_launch e)"
proof -
  have k: "henv_keeps henv live" "henv_keeps henv (\<lambda>w. \<not> live w)" using assms(1) by (simp_all add: service_env_def)
  from assms(3) show ?thesis
  proof (cases rule: harness_Run_cases)
    case (input e)
    then show ?thesis using assms(2) by auto
  next
    case (dirs e)
    have "\<not> after_launch e" using dirs(1) by (auto simp: createTempDirs_def split: sum.splits prod.splits)
    then show ?thesis using createTempDirs_keeps[OF k(2) assms(2) dirs(1)] dirs(2) by simp
  next
    case (inner vclPath tests h1 w1 w2)
    have w1: "\<not> live w1" using createTempDirs_keeps[OF k(2) assms(2) inner(2)] .
    have "live w' = live w2" using inner(4) cleanup_keeps[OF k(1), of w2 h'] cleanup_keeps[OF k(2), of w2 h'] by auto
    moreover have "live w2 \<longleftrightarrow> (\<exists>e. out = Inl e \<and> after_launch e)"
      using inner(3)
    proof (cases rule: runInDirs_cases)
      case (backends e)
      have "\<not> live w2"
        using startAllLoop_live[OF henv_keepsD(1)[OF k(2)] _ _ w1] backends(1) assms(1)
        by (auto simp: startAllBackends_def Let_def service_env_def split: if_splits)
      then show ?thesis using backends(2) by simp
    next
      case (body addresses bm v1 v2)
      have "\<not> live v1"
        using startAllLoop_live[OF henv_keepsD(1)[OF k(2)] _ _ w1] body(1) assms(1)
        by (auto simp: startAllBackends_def Let_def service_env_def split: if_splits)
      from runWithBackends_live[OF assms(1) this body(2)] show ?thesis by (simp add: body(3) stopAll_live[OF assms(1)])
    qed
    ultimately show ?thesis by simp
  qed
qed

section \<open>A run\<close>

text \<open>
  A small installation: one test file with one test, a VCL file with one backend, varnishd on
  port 80. Varnishd can be made to fail before it is ready.
\<close>

record LiveWorld = World +
  lw_live :: bool

definition live_hits :: "Client \<Rightarrow> string HttpRequest \<Rightarrow> LiveWorld \<Rightarrow> nat \<Rightarrow> nat" where
  "live_hits c q w p = (if p = 0 \<and> mb_serving (w_mocks w ! 0) then 1 else 0)"

definition run_env :: "(string, string, LiveWorld) Env" where
  "run_env = demoEnv\<lparr>ev_listen := (\<lambda>w. (Inr ''127.0.0.1:81'', w)),
     ev_exec := (\<lambda>cmd w. (Inr \<lparr>statusCode = 200,
       payload = if cmd = ''debug.listen_address'' then ''a0 0.0.0.0 80'' else []\<rparr>, w)),
     ev_walk := (\<lambda>w. \<lparr>env_cwd = Inr ''/'', env_readFile = (\<lambda>p. Inr []),
       env_parse = (\<lambda>s p. Inr \<lparr>VCLVersion = None, Declarations = [BackendDecl ''api'' []]\<rparr>), env_render = (\<lambda>p. [])\<rparr>)\<rparr>"

definition run_test :: TestSpec where
  "run_test = demo_test\<lparr>ts_Backends := [(''api'', okBackend)]\<rparr>"

definition run_henv :: "bool \<Rightarrow> (string, string, LiveWorld) HarnessEnv" where
  "run_henv crash = \<lparr>hv_env = run_env, hv_ord = rev, hv_exists = (\<lambda>w p. p = ''m.vcl''), hv_readFile = (\<lambda>w p. Inr []),
     hv_decode = (\<lambda>data. [Inr run_test]), hv_mkdirTemp = (\<lambda>s w. (Inr (''/tmp/'' @ s), w)),
     hv_create = (\<lambda>p w. (None, w)), hv_launch = (\<lambda>m w. w\<lparr>lw_live := True\<rparr>),
     hv_early = (\<lambda>w. (if crash then Some ''exit status 2'' else None, w)), hv_race = (\<lambda>w. (PortFirst, w)),
     hv_lookVarnishlog = (\<lambda>w. True), hv_startVarnishlog = (\<lambda>w. ((True, True, True), w)),
     hv_stopVarnishlog = (\<lambda>w. ((True, True, True), w)), hv_cancel = (\<lambda>w. w\<lparr>lw_live := False\<rparr>), hv_close = (\<lambda>w. w),
     hv_copy = (\<lambda>a b w. (None, w)), hv_sync = (\<lambda>p w. (None, w)), hv_open = (\<lambda>p w. None), hv_stat = (\<lambda>p w. None),
     hv_time = (\<lambda>w. []), hv_stamp = (\<lambda>w. [])\<rparr>"

definition run_cfg :: HarnessConfig where
  "run_cfg = \<lparr>hc_TestFile = ''m.yaml'', hc_VCLPath = ''m.vcl'', hc_Verbose = False, hc_DebugDump = False\<rparr>"

definition run_world :: LiveWorld where
  "run_world = \<lparr>w_mocks = [], w_log = None, lw_live = False\<rparr>"

lemma run_varnish_env: "varnish_env run_env live_hits"
proof -
  have "serves (w_mocks w ! p) (live_hits c q w p) (w_mocks (snd (ev_send run_env c q w)) ! p)"
    if "p < length (w_mocks w)" for c q p w
    using that serves_none serves_one
    by (auto simp: run_env_def demoEnv_def live_hits_def updateMock_nth)
  then show ?thesis
    unfolding varnish_env_def by (auto simp: run_env_def demoEnv_def live_hits_def)
qed

lemma run_envs:
  "cli_env run_env" "listen_env run_env" "store_env (run_henv crash)" "service_env (run_henv crash) lw_live"
  by (auto simp: cli_env_def listen_env_def store_env_def service_env_def henv_keeps_def env_keeps_def run_henv_def
      run_env_def demoEnv_def updateMock_def race_keeps_def)

lemma run_order: "range_order (hv_ord (run_henv crash))"
  by (simp add: run_henv_def range_order_rev)

lemma run_succeeds: "\<exists>result h' w'. harness_Run (run_henv False) (harness_New run_cfg) run_world = (Inr result, h', w')"
proof -
  have "\<not> isl (fst (harness_Run (run_henv False) (harness_New run_cfg) run_world))" by code_simp
  then show ?thesis by (cases "harness_Run (run_henv False) (harness_New run_cfg) run_world") (auto split: sum.splits simp: isl_def, metis sum.exhaust)
qed

theorem run_reports_every_test_witness:
  "\<exists>result h' w'. harness_Run (run_henv False) (harness_New run_cfg) run_world = (Inr result, h', w') \<and>
     hr_Total result = 1 \<and> hr_Passed result + hr_Failed result = 1 \<and>
     reported_run (run_henv False) live_hits run_cfg run_world [ApplyDefaults run_test] (hr_Results result)"
proof -
  obtain result h' w' where run: "harness_Run (run_henv False) (harness_New run_cfg) run_world = (Inr result, h', w')"
    using run_succeeds by blast
  have f: "hv_env (run_henv False) = run_env" "hv_decode (run_henv False) data = [Inr run_test]" for data
    by (simp_all add: run_henv_def)
  have p: "\<forall>data t. Inr t \<in> set (hv_decode (run_henv False) data) \<longrightarrow> proper_maps t"
    by (auto simp: f proper_maps_def run_test_def demo_test_def wf_map_def)
  have l: "tests = [ApplyDefaults run_test]" if "reported_run (run_henv False) live_hits run_cfg run_world tests results" for tests results
  proof -
    have "validate run_test = None" by code_simp
    then show ?thesis using that by (auto simp: reported_run_def Load_def run_henv_def)
  qed
  from run_reports_every_test[OF run_varnish_env[folded f(1)] run_envs(1)[folded f(1)] run_envs(2)[folded f(1)]
      run_order run_envs(3) p run]
  obtain tests where t: "reported_run (run_henv False) live_hits run_cfg run_world tests (hr_Results result)"
    "hr_Total result = length tests" "hr_Passed result + hr_Failed result = hr_Total result" by blast
  show ?thesis using run t l[OF t(1)] by simp
qed

theorem run_releases_backends_witness:
  "\<exists>result h' w'. harness_Run (run_henv False) (harness_New run_cfg) run_world = (Inr result, h', w') \<and>
     list_all mb_stopped (w_mocks w')"
proof -
  obtain result h' w' where run: "harness_Run (run_henv False) (harness_New run_cfg) run_world = (Inr result, h', w')"
    using run_succeeds by blast
  have f: "hv_env (run_henv False) = run_env" by (simp add: run_henv_def)
  have d: "d \<noteq> []" if "hv_mkdirTemp (run_henv False) s w = (Inr d, w')" for s w d w'
    using that by (auto simp: run_henv_def)
  from run_releases_backends[OF run_envs(2)[folded f] run_order run_envs(3) d run]
  show ?thesis using run by (auto simp: run_world_def list_all_length)
qed

theorem services_left_live_witness:
  "\<exists>e h' w'. harness_Run (run_henv True) (harness_New run_cfg) run_world = (Inl (VarnishFailed e), h', w') \<and> lw_live w'"
proof -
  have "fst (harness_Run (run_henv True) (harness_New run_cfg) run_world) = Inl (VarnishFailed ''exit status 2'')" by code_simp
  then obtain e h' w' where run: "harness_Run (run_henv True) (harness_New run_cfg) run_world = (Inl (VarnishFailed e), h', w')"
    by (cases "harness_Run (run_henv True) (harness_New run_cfg) run_world") auto
  have "\<not> lw_live run_world" by (simp add: run_world_def)
  from services_left_live[OF run_envs(4) this run] run show ?thesis by auto
qed

end
