(* ===== verification/Formatter.thy ===== *)
theory Formatter
  imports Coverage GoStrings
begin

text \<open>
  Package \<^verbatim>\<open>formatter\<close> (\<^verbatim>\<open>vcl_formatter.go\<close>): the report of a failed test with its VCL
  execution trace, by line or by block, with or without ANSI colours. Whether the output is a
  terminal is decided outside (\<^verbatim>\<open>ShouldUseColor\<close>) and is the argument \<open>useColor\<close>.
\<close>

section \<open>Constants\<close>

abbreviation esc :: char where
  "esc \<equiv> CHR 0x1B"

definition ColorReset :: string where "ColorReset = esc # ''[0m''"

definition ColorGreen :: string where "ColorGreen = esc # ''[32m''"

definition ColorGray :: string where "ColorGray = esc # ''[90m''"

definition ColorRed :: string where "ColorRed = esc # ''[31m''"

definition ColorYellow :: string where "ColorYellow = esc # ''[33m''"

definition ColorBold :: string where "ColorBold = esc # ''[1m''"

text \<open>The UTF-8 encodings of the check mark and of the ballot cross.\<close>

definition checkMark :: string where "checkMark = [CHR 0xE2, CHR 0x9C, CHR 0x93]"

definition crossMark :: string where "crossMark = [CHR 0xE2, CHR 0x9C, CHR 0x97]"

section \<open>Source lines\<close>

text \<open>The lines of a source with their numbers, from 1.\<close>

definition numbered :: "string \<Rightarrow> (int \<times> string) list" where
  "numbered source = map (\<lambda>(i, line). (int i + 1, line)) (enumerate 0 (Split source [newline]))"

definition FormatVCLWithTrace :: "string \<Rightarrow> int list \<Rightarrow> bool \<Rightarrow> string" where
  "FormatVCLWithTrace vclSource executedLines useColor =
     (let executedMap = fold (\<lambda>lineNum. mput lineNum True) executedLines []
      in concat (map (\<lambda>(lineNum, line).
           let executed = mget_or False executedMap lineNum in
           if useColor
           then if executed
                then ColorGreen @ checkMark @ '' '' @ padLeft 3 (Itoa lineNum) @ '' | '' @ line @ ColorReset @ [newline]
                else ColorGray @ ''  '' @ padLeft 3 (Itoa lineNum) @ '' | '' @ line @ ColorReset @ [newline]
           else if executed
                then checkMark @ '' '' @ padLeft 3 (Itoa lineNum) @ '' | '' @ line @ [newline]
                else ''  '' @ padLeft 3 (Itoa lineNum) @ '' | '' @ line @ [newline])
         (numbered vclSource)))"

definition FormatVCLWithBlocks :: "string \<Rightarrow> FileBlocks option \<Rightarrow> bool \<Rightarrow> string" where
  "FormatVCLWithBlocks vclSource blocks useColor =
     (let lineStatus = (case blocks of None \<Rightarrow> [] | Some fb \<Rightarrow> GetLineStatus fb)
      in concat (map (\<lambda>(lineNum, line).
           let inBlock = (mget lineStatus lineNum \<noteq> None);
               entered = mget_or False lineStatus lineNum in
           if useColor
           then if \<not> inBlock
                then ''  '' @ padLeft 4 (Itoa lineNum) @ '' | '' @ line @ [newline]
                else if entered
                then ColorGreen @ ''* '' @ padLeft 4 (Itoa lineNum) @ '' | '' @ line @ ColorReset @ [newline]
                else ColorGray @ ''  '' @ padLeft 4 (Itoa lineNum) @ '' | '' @ line @ ColorReset @ [newline]
           else if inBlock \<and> entered
                then ''* '' @ padLeft 4 (Itoa lineNum) @ '' | '' @ line @ [newline]
                else ''  '' @ padLeft 4 (Itoa lineNum) @ '' | '' @ line @ [newline])
         (numbered vclSource)))"

section \<open>Blocks\<close>

fun blockHasAnyEntered :: "Block \<Rightarrow> bool" where
  "blockHasAnyEntered (Block ty n h op cl e ch) = (if e then True else list_ex blockHasAnyEntered ch)"

text \<open>A block has one of the four types, so the default case of the \<^verbatim>\<open>switch\<close> is never taken.\<close>

definition blockDisplayName :: "Block \<Rightarrow> string" where
  "blockDisplayName block =
     (case blk_Type block of
        BlockTypeSub \<Rightarrow> blk_Name block
      | BlockTypeIf \<Rightarrow> ''if@'' @ Itoa (HeaderLine block)
      | BlockTypeElseIf \<Rightarrow> ''elseif@'' @ Itoa (HeaderLine block)
      | BlockTypeElse \<Rightarrow> ''else@'' @ Itoa (HeaderLine block))"

section \<open>Failure reports\<close>

record FmtFile =
  ff_ConfigID :: int
  ff_Filename :: string
  ff_Source :: string
  ff_ExecutedLines :: "int list"

record FmtFileWithBlocks =
  fw_ConfigID :: int
  fw_Filename :: string
  fw_Source :: string
  fw_Blocks :: "FileBlocks option"

text \<open>
  The pieces the two reports print with the same statements: the name of the test and its
  errors, the name of a file, the number of backend calls.
\<close>

definition failureHead :: "string \<Rightarrow> string list \<Rightarrow> bool \<Rightarrow> string" where
  "failureHead testName errors useColor =
     (if useColor
      then [newline] @ ColorBold @ ColorRed @ ''FAILED:'' @ ColorReset @ '' '' @ testName @ [newline]
      else [newline] @ ''FAILED: '' @ testName @ [newline]) @
     concat (map (\<lambda>err.
       if useColor then ''  '' @ ColorRed @ crossMark @ ColorReset @ '' '' @ err @ [newline]
       else ''  '' @ crossMark @ '' '' @ err @ [newline]) errors)"

definition fileHead :: "string \<Rightarrow> int \<Rightarrow> bool \<Rightarrow> string" where
  "fileHead filename configID useColor =
     (if useColor then ColorBold @ filename @ '' (config '' @ Itoa configID @ ''):'' @ ColorReset @ [newline]
      else filename @ '' (config '' @ Itoa configID @ ''):'' @ [newline])"

definition callsLine :: "nat \<Rightarrow> bool \<Rightarrow> string" where
  "callsLine backendCalls useColor =
     (if useColor then [newline] @ ColorBold @ ''Backend Calls:'' @ ColorReset @ '' '' @ Itoa (int backendCalls) @ [newline]
      else [newline] @ ''Backend Calls: '' @ Itoa (int backendCalls) @ [newline])"

text \<open>An empty line between the texts of the files, none before the first.\<close>

definition separated :: "string list \<Rightarrow> string" where
  "separated texts = concat (map (\<lambda>(i, s). if i > (0::nat) then [newline] @ s else s) (enumerate 0 texts))"

definition FormatTestFailure :: "string \<Rightarrow> string list \<Rightarrow> FmtFile list \<Rightarrow> nat \<Rightarrow> bool \<Rightarrow> string" where
  "FormatTestFailure testName errors files backendCalls useColor =
     failureHead testName errors useColor @
     (if length files > 0
      then
        (if useColor then [newline] @ ColorBold @ ColorYellow @ ''VCL Execution Trace:'' @ ColorReset @ [newline]
         else [newline] @ ''VCL Execution Trace:'' @ [newline]) @
        (if sum_list (map (\<lambda>f. length (ff_ExecutedLines f)) files) = 0
         then
           (if useColor
            then ColorGray @ ''  (No user VCL executed - request handled entirely by built-in VCL)'' @ ColorReset @ [newline]
            else ''  (No user VCL executed - request handled entirely by built-in VCL)'' @ [newline]) @
           [newline] @ fileHead (ff_Filename (files ! 0)) (ff_ConfigID (files ! 0)) useColor @
           FormatVCLWithTrace (ff_Source (files ! 0)) [] useColor
         else separated (map (\<lambda>f. fileHead (ff_Filename f) (ff_ConfigID f) useColor @
                FormatVCLWithTrace (ff_Source f) (ff_ExecutedLines f) useColor) files)) @
        callsLine backendCalls useColor
      else [])"

definition blockSummary :: "FileBlocks \<Rightarrow> bool \<Rightarrow> string" where
  "blockSummary blocks useColor =
     (let entered = GetEnteredBlocks blocks;
          notEntered = GetNotEnteredBlocks blocks in
      if length entered > 0 \<or> length notEntered > 0
      then
        (if useColor then [newline] @ ColorBold @ ''Blocks entered:'' @ ColorReset @ '' ''
         else [newline] @ ''Blocks entered: '') @
        (if length entered > 0 then Join (map blockDisplayName entered) '', '' else ''(none)'') @ [newline] @
        (if length notEntered > 0
         then (if useColor then ColorBold @ ''Blocks not entered:'' @ ColorReset @ '' '' else ''Blocks not entered: '') @
              Join (map blockDisplayName notEntered) '', '' @ [newline]
         else [])
      else [])"

definition anyEntered :: "FmtFileWithBlocks list \<Rightarrow> bool" where
  "anyEntered files = list_ex (\<lambda>f. case fw_Blocks f of None \<Rightarrow> False | Some fb \<Rightarrow> list_ex blockHasAnyEntered (fb_Blocks fb)) files"

definition FormatTestFailureWithBlocks :: "string \<Rightarrow> string list \<Rightarrow> FmtFileWithBlocks list \<Rightarrow> nat \<Rightarrow> bool \<Rightarrow> string" where
  "FormatTestFailureWithBlocks testName errors files backendCalls useColor =
     failureHead testName errors useColor @
     (if length files > 0
      then
        (if useColor then [newline] @ ColorBold @ ColorYellow @ ''VCL Block Coverage:'' @ ColorReset @ [newline]
         else [newline] @ ''VCL Block Coverage:'' @ [newline]) @
        (if \<not> anyEntered files
         then
           (if useColor
            then ColorGray @ ''  (No user VCL blocks entered - request handled entirely by built-in VCL)'' @ ColorReset @ [newline]
            else ''  (No user VCL blocks entered - request handled entirely by built-in VCL)'' @ [newline]) @
           [newline] @ fileHead (fw_Filename (files ! 0)) (fw_ConfigID (files ! 0)) useColor @
           FormatVCLWithBlocks (fw_Source (files ! 0)) None useColor
         else separated (map (\<lambda>f. fileHead (fw_Filename f) (fw_ConfigID f) useColor @
                FormatVCLWithBlocks (fw_Source f) (fw_Blocks f) useColor @
                (case fw_Blocks f of None \<Rightarrow> [] | Some fb \<Rightarrow> blockSummary fb useColor)) files)) @
        callsLine backendCalls useColor
      else [])"

section \<open>Colour codes\<close>

text \<open>The output as a terminal shows it: an escape sequence ends at its first \<^verbatim>\<open>m\<close>.\<close>

function stripColor :: "string \<Rightarrow> string" where
  "stripColor [] = []"
| "stripColor (c # s) = (if c = esc then stripColor (tl (dropWhile (\<lambda>x. x \<noteq> CHR ''m'') s)) else c # stripColor s)"
  by pat_completeness auto

termination
proof (relation "measure length")
  show "wf (measure length)" by simp
next
  fix c :: char and s assume "c = esc"
  have "length (tl (dropWhile (\<lambda>x. x \<noteq> CHR ''m'') s)) \<le> length s"
    using length_dropWhile_le[of "\<lambda>x. x \<noteq> CHR ''m''" s] by simp
  then show "(tl (dropWhile (\<lambda>x. x \<noteq> CHR ''m'') s), c # s) \<in> measure length" by simp
qed simp

text \<open>A text no escape sequence of which is left open; texts without escape sequences.\<close>

definition closed_text :: "string \<Rightarrow> bool" where
  "closed_text a \<longleftrightarrow> (\<forall>b. stripColor (a @ b) = stripColor a @ stripColor b)"

definition no_esc :: "string \<Rightarrow> bool" where
  "no_esc s \<longleftrightarrow> esc \<notin> set s"

lemma no_esc_simps [simp]:
  "no_esc []" "no_esc (c # s) \<longleftrightarrow> c \<noteq> esc \<and> no_esc s" "no_esc (a @ b) \<longleftrightarrow> no_esc a \<and> no_esc b"
  by (auto simp: no_esc_def)

lemma strip_no_esc [simp]: "no_esc a \<Longrightarrow> stripColor a = a"
  by (induction a) auto

lemma strip_no_esc_append: "no_esc a \<Longrightarrow> stripColor (a @ b) = a @ stripColor b"
  by (induction a) auto

lemma strip_code [simp]:
  "stripColor ColorReset = []" "stripColor ColorGreen = []" "stripColor ColorGray = []"
  "stripColor ColorRed = []" "stripColor ColorYellow = []" "stripColor ColorBold = []"
  by (simp_all add: ColorReset_def ColorGreen_def ColorGray_def ColorRed_def ColorYellow_def ColorBold_def)

lemma closed_code [simp]:
  "closed_text ColorReset" "closed_text ColorGreen" "closed_text ColorGray"
  "closed_text ColorRed" "closed_text ColorYellow" "closed_text ColorBold"
  by (simp_all add: closed_text_def ColorReset_def ColorGreen_def ColorGray_def ColorRed_def ColorYellow_def ColorBold_def)

text \<open>\<open>displays a b\<close>: shown on a terminal, \<open>a\<close> reads \<open>b\<close>, whatever is printed after it.\<close>

definition displays :: "string \<Rightarrow> string \<Rightarrow> bool" where
  "displays a b \<longleftrightarrow> closed_text a \<and> stripColor a = b"

lemma displays_plain: "no_esc a \<Longrightarrow> displays a a"
  by (simp add: displays_def closed_text_def strip_no_esc_append)

lemma displays_code:
  "displays ColorReset []" "displays ColorGreen []" "displays ColorGray []"
  "displays ColorRed []" "displays ColorYellow []" "displays ColorBold []"
  by (simp_all add: displays_def)

lemma displays_append: "displays a b \<Longrightarrow> displays c d \<Longrightarrow> displays (a @ c) (b @ d)"
  by (auto simp: displays_def closed_text_def)

lemma displays_code_append: "displays a [] \<Longrightarrow> displays c d \<Longrightarrow> displays (a @ c) d"
  using displays_append[of a "[]" c d] by simp

lemma displays_concat: "list_all2 displays xs ys \<Longrightarrow> displays (concat xs) (concat ys)"
  by (induction rule: list_all2_induct) (auto intro: displays_append displays_plain)

lemma displays_map: "(\<And>x. x \<in> set xs \<Longrightarrow> displays (f x) (g x)) \<Longrightarrow> displays (concat (map f xs)) (concat (map g xs))"
  by (intro displays_concat) (auto simp: list_all2_conv_all_nth)

lemma no_esc_texts [simp]: "no_esc (Itoa i)" "no_esc s \<Longrightarrow> no_esc (padLeft n s)" "no_esc checkMark" "no_esc crossMark"
  using Itoa_no_char[of esc i]
  by (auto simp: no_esc_def padLeft_def checkMark_def crossMark_def is_digit_def byte_def)

lemma closed_append [simp]: "closed_text a \<Longrightarrow> closed_text b \<Longrightarrow> closed_text (a @ b)"
  by (simp add: closed_text_def)

lemma closed_plain [simp]: "no_esc a \<Longrightarrow> closed_text a"
  by (simp add: closed_text_def strip_no_esc_append)

lemma closed_Cons [simp]: "c \<noteq> esc \<Longrightarrow> closed_text (c # s) = closed_text s"
  by (simp add: closed_text_def)

lemma strip_append [simp]: "closed_text a \<Longrightarrow> stripColor (a @ b) = stripColor a @ stripColor b"
  by (simp add: closed_text_def)

lemma Join_set: "x \<in> set xs \<Longrightarrow> set x \<subseteq> set (Join xs sep)"
  by (induction xs sep rule: Join.induct) auto

lemma Split_no_esc: "no_esc s \<Longrightarrow> x \<in> set (Split s sep) \<Longrightarrow> no_esc x"
  using Join_set[of x "Split s sep" sep] by (auto simp: no_esc_def)

lemma numbered_no_esc: "no_esc s \<Longrightarrow> (n, line) \<in> set (numbered s) \<Longrightarrow> no_esc line"
  using Split_no_esc[of s line "[newline]"] by (auto simp: numbered_def in_set_enumerate_eq)

lemma Join_no_esc: "list_all no_esc xs \<Longrightarrow> no_esc sep \<Longrightarrow> no_esc (Join xs sep)"
  by (induction xs sep rule: Join.induct) auto

lemma trace_displays: "no_esc src \<Longrightarrow> displays (FormatVCLWithTrace src ls True) (FormatVCLWithTrace src ls False)"
  unfolding FormatVCLWithTrace_def Let_def
  by (intro displays_map) (auto simp: displays_def dest: numbered_no_esc)

lemma blocks_display: "no_esc src \<Longrightarrow> displays (FormatVCLWithBlocks src fb True) (FormatVCLWithBlocks src fb False)"
  unfolding FormatVCLWithBlocks_def Let_def
  by (intro displays_map) (auto simp: displays_def mget_or_def dest: numbered_no_esc)

lemma head_displays:
  assumes "no_esc name" "list_all no_esc errors"
  shows "displays (failureHead name errors True) (failureHead name errors False)"
  unfolding failureHead_def
proof (intro displays_append displays_map)
  fix err assume "err \<in> set errors"
  then show "displays
      (if True then ''  '' @ ColorRed @ crossMark @ ColorReset @ '' '' @ err @ [newline] else ''  '' @ crossMark @ '' '' @ err @ [newline])
      (if False then ''  '' @ ColorRed @ crossMark @ ColorReset @ '' '' @ err @ [newline] else ''  '' @ crossMark @ '' '' @ err @ [newline])"
    using assms(2) by (auto simp: displays_def list_all_iff)
qed (use assms in \<open>simp add: displays_def\<close>)

lemma lines_display:
  "no_esc f \<Longrightarrow> displays (fileHead f n True) (fileHead f n False)" "displays (callsLine k True) (callsLine k False)"
  by (simp_all add: displays_def fileHead_def callsLine_def)

lemma separated_displays:
  assumes "\<And>x. x \<in> set xs \<Longrightarrow> displays (f x) (g x)"
  shows "displays (separated (map f xs)) (separated (map g xs))"
  unfolding separated_def
proof (rule displays_concat)
  show "list_all2 displays (map (\<lambda>(i, s). if i > (0::nat) then [newline] @ s else s) (enumerate 0 (map f xs)))
      (map (\<lambda>(i, s). if i > 0 then [newline] @ s else s) (enumerate 0 (map g xs)))"
    using assms displays_append[OF displays_plain[of "[newline]"]]
    by (auto simp: list_all2_conv_all_nth nth_enumerate_eq)
qed

lemma FormatTestFailure_displays:
  assumes "no_esc name" "list_all no_esc errors" "list_all (\<lambda>f. no_esc (ff_Filename f) \<and> no_esc (ff_Source f)) files"
  shows "displays (FormatTestFailure name errors files k True) (FormatTestFailure name errors files k False)"
proof -
  have first: "no_esc (ff_Filename (files ! 0))" "no_esc (ff_Source (files ! 0))" if "files \<noteq> []"
    using assms(3) that by (simp_all add: list_all_length)
  have body: "displays (separated (map (\<lambda>f. fileHead (ff_Filename f) (ff_ConfigID f) True @ FormatVCLWithTrace (ff_Source f) (ff_ExecutedLines f) True) files))
      (separated (map (\<lambda>f. fileHead (ff_Filename f) (ff_ConfigID f) False @ FormatVCLWithTrace (ff_Source f) (ff_ExecutedLines f) False) files))"
    using assms(3) by (intro separated_displays displays_append lines_display trace_displays) (auto simp: list_all_iff)
  have empty: "displays (fileHead (ff_Filename (files ! 0)) (ff_ConfigID (files ! 0)) True @ FormatVCLWithTrace (ff_Source (files ! 0)) [] True)
      (fileHead (ff_Filename (files ! 0)) (ff_ConfigID (files ! 0)) False @ FormatVCLWithTrace (ff_Source (files ! 0)) [] False)"
    if "files \<noteq> []" using first[OF that] by (intro displays_append lines_display trace_displays)
  note parts = head_displays[OF assms(1,2)] body empty lines_display(2)[of k]
  show ?thesis using parts unfolding FormatTestFailure_def by (simp add: displays_def)
qed

definition block_names_plain :: "FileBlocks \<Rightarrow> bool" where
  "block_names_plain fb \<longleftrightarrow> (\<forall>b \<in> set (concat (map AllBlocks (fb_Blocks fb))). no_esc (blk_Name b))"

lemma reported_blocks:
  "set (GetEnteredBlocks fb) = {b \<in> set (concat (map AllBlocks (fb_Blocks fb))). Entered b}"
  "set (GetNotEnteredBlocks fb) = {b \<in> set (concat (map AllBlocks (fb_Blocks fb))). \<not> Entered b}"
  by (auto simp: GetEnteredBlocks_def GetNotEnteredBlocks_def getEntered_set getNotEntered_set)

lemma display_name_plain: "no_esc (blk_Name b) \<Longrightarrow> no_esc (blockDisplayName b)"
  by (simp add: blockDisplayName_def split: BlockType.split)

lemma summary_displays:
  assumes "block_names_plain fb"
  shows "displays (blockSummary fb True) (blockSummary fb False)"
proof -
  have "list_all no_esc (map blockDisplayName (GetEnteredBlocks fb))" "list_all no_esc (map blockDisplayName (GetNotEnteredBlocks fb))"
    using assms reported_blocks[of fb] display_name_plain by (auto simp: list_all_iff block_names_plain_def)
  then have "no_esc (Join (map blockDisplayName (GetEnteredBlocks fb)) '', '')"
    "no_esc (Join (map blockDisplayName (GetNotEnteredBlocks fb)) '', '')"
    by (simp_all add: Join_no_esc)
  then show ?thesis by (simp add: blockSummary_def displays_def Let_def)
qed

definition plain_file :: "FmtFileWithBlocks \<Rightarrow> bool" where
  "plain_file f \<longleftrightarrow> no_esc (fw_Filename f) \<and> no_esc (fw_Source f) \<and>
     (case fw_Blocks f of None \<Rightarrow> True | Some fb \<Rightarrow> block_names_plain fb)"

lemma FormatTestFailureWithBlocks_displays:
  assumes "no_esc name" "list_all no_esc errors" "list_all plain_file files"
  shows "displays (FormatTestFailureWithBlocks name errors files k True) (FormatTestFailureWithBlocks name errors files k False)"
proof -
  let ?text = "\<lambda>c f. fileHead (fw_Filename f) (fw_ConfigID f) c @ FormatVCLWithBlocks (fw_Source f) (fw_Blocks f) c @
      (case fw_Blocks f of None \<Rightarrow> [] | Some fb \<Rightarrow> blockSummary fb c)"
  let ?none = "\<lambda>c f. fileHead (fw_Filename f) (fw_ConfigID f) c @ FormatVCLWithBlocks (fw_Source f) None c"
  have f: "displays (?text True f) (?text False f)" "displays (?none True f) (?none False f)" if "plain_file f" for f
    using that by (auto simp: plain_file_def intro!: displays_append lines_display blocks_display summary_displays
        displays_plain[of "[]"] split: option.split)
  have body: "displays (separated (map (?text True) files)) (separated (map (?text False) files))"
    using assms(3) f(1) by (intro separated_displays) (auto simp: list_all_iff)
  have "plain_file (files ! 0)" if "files \<noteq> []" using assms(3) that by (simp add: list_all_length)
  note parts = head_displays[OF assms(1,2)] body f(2)[OF this] lines_display(2)[of k]
  show ?thesis using parts unfolding FormatTestFailureWithBlocks_def by (simp add: displays_def)
qed

section \<open>What the coverage report shows\<close>

lemma Split_terminated:
  "list_all (\<lambda>r. c \<notin> set r) rows \<Longrightarrow> Split (concat (map (\<lambda>r. r @ [c]) rows)) [c] = rows @ [[]]"
  by (induction rows) (simp_all add: Split_char_sep Split_char_nosep)

lemma newline_free: "newline \<notin> set (padLeft n (Itoa i))" "newline \<notin> set ''* ''" "newline \<notin> set ''  ''" "newline \<notin> set '' | ''"
  using Itoa_no_char[of newline i] by (auto simp: padLeft_def is_digit_def byte_def)

definition marker :: "FileBlocks \<Rightarrow> int \<Rightarrow> string" where
  "marker fb n = (if mget (GetLineStatus fb) n = Some True then ''* '' else ''  '')"

lemma FormatVCLWithBlocks_lines:
  "Split (FormatVCLWithBlocks src (Some fb) False) [newline] =
     map (\<lambda>(n, line). marker fb n @ padLeft 4 (Itoa n) @ '' | '' @ line) (numbered src) @ [[]]"
proof -
  let ?row = "\<lambda>(n, line). marker fb n @ padLeft 4 (Itoa n) @ '' | '' @ line"
  have "FormatVCLWithBlocks src (Some fb) False = concat (map (\<lambda>r. r @ [newline]) (map ?row (numbered src)))"
    unfolding FormatVCLWithBlocks_def Let_def map_map
    by (rule arg_cong[of _ _ concat], rule map_cong) (auto simp: marker_def mget_or_def split: option.split)
  moreover have "list_all (\<lambda>r. newline \<notin> set r) (map ?row (numbered src))"
    using newline_free Split_pieces_char[of _ src newline]
    by (auto simp: list_all_iff marker_def numbered_def in_set_enumerate_eq)
  ultimately show ?thesis by (simp only: Split_terminated)
qed

lemma reached_fresh: "\<forall>d \<in> set (AllBlocks b). \<not> Entered d \<Longrightarrow> reached T b \<longleftrightarrow> (\<exists>d \<in> set (AllBlocks b). traceHit T d)"
  by (auto simp: reached_def)

lemma anyEntered_iff: "list_ex blockHasAnyEntered (fb_Blocks fb) \<longleftrightarrow> GetEnteredBlocks fb \<noteq> []"
proof -
  have "blockHasAnyEntered b \<longleftrightarrow> (\<exists>d \<in> set (AllBlocks b). Entered d)" for b
    by (induction b) (auto simp: list_ex_iff)
  then have "list_ex blockHasAnyEntered (fb_Blocks fb) \<longleftrightarrow> (\<exists>b \<in> set (GetEnteredBlocks fb). True)"
    unfolding reported_blocks by (auto simp: list_ex_iff)
  then show ?thesis by (cases "GetEnteredBlocks fb") auto
qed

section \<open>Properties\<close>

text \<open>
  C13. The coverage report of any VCL file that parses: the source comes back line by line,
  each line with its number. A line that no block contains is never marked. A line that some
  block contains is marked with a star exactly when an executed line hits the innermost block
  around it, or a descendant of that block; where several blocks of the tree are innermost around
  the line (blocks that share a line, or a subroutine the parser has merged from several
  declarations) the last of them in the order of the tree counts.
\<close>

theorem coverage_report_markers:
  assumes "AnalyzeVCL parse src path = Inr fb" "MatchTracesToBlocks (Some fb) executed = Some fb'"
  shows "\<exists>markers. length markers = length (Split src [newline]) \<and>
    Split (FormatVCLWithBlocks src (Some fb') False) [newline] =
      map (\<lambda>(mark, n, line). mark @ padLeft 4 (Itoa n) @ '' | '' @ line) (zip markers (numbered src)) @ [[]] \<and>
    (\<forall>i < length markers.
       if list_ex (\<lambda>b. LineInBlock b (int i + 1)) (concat (map AllBlocks (fb_Blocks fb)))
       then \<exists>d. deepestAt (fb_Blocks fb) (int i + 1) d \<and>
         d = last (filter (\<lambda>b. LineInBlock b (int i + 1)) (concat (map AllBlocks (fb_Blocks fb)))) \<and>
         markers ! i = (if \<exists>e \<in> set (AllBlocks d). traceHit (set executed) e then ''* '' else ''  '')
       else markers ! i = ''  '')"
proof -
  let ?T = "set executed" and ?ms = "map (\<lambda>(n, line). marker fb' n) (numbered src)"
  have fb': "fb_Blocks fb' = map (markReached ?T) (fb_Blocks fb)"
    using assms(2) unfolding MatchTracesToBlocks_mark by auto
  have row: "if list_ex (\<lambda>b. LineInBlock b n) (concat (map AllBlocks (fb_Blocks fb)))
       then \<exists>d. deepestAt (fb_Blocks fb) n d \<and> d = last (filter (\<lambda>b. LineInBlock b n) (concat (map AllBlocks (fb_Blocks fb)))) \<and>
         marker fb' n = (if \<exists>e \<in> set (AllBlocks d). traceHit ?T e then ''* '' else ''  '')
       else marker fb' n = ''  ''" for n
  proof (cases "blocksAround (fb_Blocks fb) n = []")
    case False
    let ?d = "last (blocksAround (fb_Blocks fb) n)"
    have deep: "deepestAt (fb_Blocks fb) n ?d" using last_around_deepest[OF False] .
    then have "\<forall>e \<in> set (AllBlocks ?d). \<not> Entered e"
      using AnalyzeVCL_fresh[OF assms(1)] by (auto simp: deepestAt_def dest: AllBlocks_trans)
    moreover have "mget (GetLineStatus fb') n = Some (reached ?T ?d)"
      using False by (simp add: line_status_around status_around_def fb' blocksAround_mark last_map)
    ultimately have "marker fb' n = (if \<exists>e \<in> set (AllBlocks ?d). traceHit ?T e then ''* '' else ''  '')"
      by (simp add: marker_def reached_fresh)
    moreover have "list_ex (\<lambda>b. LineInBlock b n) (concat (map AllBlocks (fb_Blocks fb)))"
      using False by (auto simp: blocksAround_def list_ex_iff filter_empty_conv)
    ultimately show ?thesis using deep by (auto simp: blocksAround_def)
  next
    case True
    then have "\<not> list_ex (\<lambda>b. LineInBlock b n) (concat (map AllBlocks (fb_Blocks fb)))"
      by (auto simp: blocksAround_def list_ex_iff filter_empty_conv)
    moreover have "mget (GetLineStatus fb') n = None"
      using True unfolding line_status_around status_around_def fb' blocksAround_mark by (simp add: mget_def)
    ultimately show ?thesis by (simp add: marker_def)
  qed
  have len: "length (numbered src) = length (Split src [newline])" by (simp add: numbered_def)
  have nth: "?ms ! i = marker fb' (int i + 1)" if "i < length ?ms" for i
    using that by (simp add: numbered_def nth_enumerate_eq)
  have "zip ?ms (numbered src) = map (\<lambda>(n, line). (marker fb' n, n, line)) (numbered src)"
    by (induction "numbered src") (auto simp: zip_map1 zip_same_conv_map)
  then have "map (\<lambda>(mark, n, line). mark @ padLeft 4 (Itoa n) @ '' | '' @ line) (zip ?ms (numbered src)) =
      map (\<lambda>(n, line). marker fb' n @ padLeft 4 (Itoa n) @ '' | '' @ line) (numbered src)"
    by (simp add: case_prod_unfold)
  then show ?thesis using row nth len FormatVCLWithBlocks_lines[of src fb'] by (intro exI[of _ ?ms]) auto
qed

theorem coverage_report_markers_witness:
  "\<exists>markers fb'. MatchTracesToBlocks (Some \<lparr>fb_ConfigID = 0, fb_Filename = ''main.vcl'', fb_Blocks = sample_blocks\<rparr>) [4] = Some fb' \<and>
     Split (FormatVCLWithBlocks (Join (replicate 4 ''x'') [newline]) (Some fb') False) [newline] =
      map (\<lambda>(mark, n, line). mark @ padLeft 4 (Itoa n) @ '' | '' @ line)
        (zip markers (numbered (Join (replicate 4 ''x'') [newline]))) @ [[]] \<and>
     markers ! 0 = ''  '' \<and> markers ! 3 = ''* ''"
proof -
  let ?src = "Join (replicate 4 ''x'') [newline]"
  obtain fb' where m: "MatchTracesToBlocks (Some \<lparr>fb_ConfigID = 0, fb_Filename = ''main.vcl'', fb_Blocks = sample_blocks\<rparr>) [4] = Some fb'"
    by (simp add: MatchTracesToBlocks_def)
  have a: "AnalyzeVCL (\<lambda>s p. Inr sample_program) ?src ''main.vcl'' =
      Inr \<lparr>fb_ConfigID = 0, fb_Filename = ''main.vcl'', fb_Blocks = sample_blocks\<rparr>"
    using sample_analyzed by (simp add: AnalyzeVCL_def)
  have l: "length (Split ?src [newline]) = 4" by code_simp
  let ?all = "concat (map AllBlocks sample_blocks)"
  have b: "\<not> list_ex (\<lambda>b. LineInBlock b 1) ?all" "list_ex (\<lambda>b. LineInBlock b 4) ?all"
    by (simp_all add: sample_blocks_def LineInBlock_def)
  have d: "\<exists>e \<in> set (AllBlocks d). traceHit {4} e" if "deepestAt sample_blocks 4 d" for d
    using that by (auto simp: sample_blocks_def deepestAt_def LineInBlock_def traceHit_def)
  have s: "set [4::int] = {4}" by simp
  from coverage_report_markers[OF a m, unfolded l s FileBlocks.simps] obtain markers where k: "length markers = 4"
    "Split (FormatVCLWithBlocks ?src (Some fb') False) [newline] =
      map (\<lambda>(mark, n, line). mark @ padLeft 4 (Itoa n) @ '' | '' @ line) (zip markers (numbered ?src)) @ [[]]"
    "\<forall>i < length markers.
       if list_ex (\<lambda>b. LineInBlock b (int i + 1)) ?all
       then \<exists>d. deepestAt sample_blocks (int i + 1) d \<and> d = last (filter (\<lambda>b. LineInBlock b (int i + 1)) ?all) \<and>
         markers ! i = (if \<exists>e \<in> set (AllBlocks d). traceHit {4} e then ''* '' else ''  '')
       else markers ! i = ''  ''" by (elim exE conjE) (rule that)
  from k(3)[rule_format, of 0] k(1) b(1) have "markers ! 0 = ''  ''" by simp
  moreover from k(3)[rule_format, of 3] k(1) b(2) d have "markers ! 3 = ''* ''" by (auto split: if_splits)
  ultimately show ?thesis using m k(2) by blast
qed

end
