(* ===== verification/CmdMain.thy ===== *)
theory CmdMain
  imports HarnessRun Formatter
begin

text \<open>
  Command \<^verbatim>\<open>vcltest\<close> (\<^verbatim>\<open>cmd/vcltest/main.go\<close>, \<^verbatim>\<open>test_main.go\<close>): the command line, the
  display of the results and the exit status. The version file and the generated JSON schema are
  arguments, and so is the text of an error value, whose constructors correspond to the format
  strings of the code. What is printed on standard output is a string; log lines are left out.
\<close>

section \<open>The flag package\<close>

text \<open>\<^verbatim>\<open>strconv.ParseBool\<close>\<close>

definition ParseBool :: "string \<Rightarrow> bool option" where
  "ParseBool s =
     (if s \<in> set [''1'', ''t'', ''T'', ''TRUE'', ''true'', ''True''] then Some True
      else if s \<in> set [''0'', ''f'', ''F'', ''FALSE'', ''false'', ''False''] then Some False
      else None)"

text \<open>The variables the flags of \<^verbatim>\<open>run\<close> set.\<close>

record Flags =
  fl_verbose :: bool
  fl_showVersion :: bool
  fl_vclFile :: string
  fl_debugDump :: bool
  fl_generateSchema :: bool

definition defaultFlags :: Flags where
  "defaultFlags = \<lparr>fl_verbose = False, fl_showVersion = False, fl_vclFile = [], fl_debugDump = False, fl_generateSchema = False\<rparr>"

datatype FlagKind = BoolFlag "bool \<Rightarrow> Flags \<Rightarrow> Flags" | StringFlag "string \<Rightarrow> Flags \<Rightarrow> Flags"

definition formal :: "string \<Rightarrow> FlagKind option" where
  "formal name =
     (if name = ''verbose'' \<or> name = ''v'' then Some (BoolFlag (\<lambda>b f. f\<lparr>fl_verbose := b\<rparr>))
      else if name = ''version'' then Some (BoolFlag (\<lambda>b f. f\<lparr>fl_showVersion := b\<rparr>))
      else if name = ''vcl'' then Some (StringFlag (\<lambda>s f. f\<lparr>fl_vclFile := s\<rparr>))
      else if name = ''debug-dump'' then Some (BoolFlag (\<lambda>b f. f\<lparr>fl_debugDump := b\<rparr>))
      else if name = ''generate-schema'' then Some (BoolFlag (\<lambda>b f. f\<lparr>fl_generateSchema := b\<rparr>))
      else None)"

datatype ArgError =
    BadSyntax string
  | HelpRequested
  | NotDefined string
  | InvalidBool string string
  | NeedsArgument string

text \<open>
  \<^verbatim>\<open>FlagSet.parseOne\<close>: another flag was read, the flags end, or an error. The equals sign of
  a value cannot be the first character of the name.
\<close>

datatype ParseStep = Seen Flags "string list" | NoMore "string list" | ParseError ArgError

definition splitValue :: "string \<Rightarrow> string \<times> string option" where
  "splitValue name =
     (let key = take 1 name @ takeWhile (\<lambda>c. c \<noteq> CHR ''='') (drop 1 name)
      in if length key < length name then (key, Some (drop (length key + 1) name)) else (name, None))"

definition setFlag :: "string \<Rightarrow> string option \<Rightarrow> string list \<Rightarrow> Flags \<Rightarrow> ParseStep" where
  "setFlag name val args flags =
     (case formal name of
        None \<Rightarrow> ParseError (if name = ''help'' \<or> name = ''h'' then HelpRequested else NotDefined name)
      | Some (BoolFlag assign) \<Rightarrow>
          (case val of
             None \<Rightarrow> Seen (assign True flags) args
           | Some v \<Rightarrow> (case ParseBool v of None \<Rightarrow> ParseError (InvalidBool v name) | Some b \<Rightarrow> Seen (assign b flags) args))
      | Some (StringFlag assign) \<Rightarrow>
          (case val of
             Some v \<Rightarrow> Seen (assign v flags) args
           | None \<Rightarrow> (case args of [] \<Rightarrow> ParseError (NeedsArgument name) | v # rest \<Rightarrow> Seen (assign v flags) rest)))"

definition parseOne :: "string list \<Rightarrow> Flags \<Rightarrow> ParseStep" where
  "parseOne args flags =
     (case args of
        [] \<Rightarrow> NoMore []
      | s # rest \<Rightarrow>
          if length s < 2 \<or> s ! 0 \<noteq> CHR ''-'' then NoMore args
          else if s = ''--'' then NoMore rest
          else
            let name = drop (if s ! 1 = CHR ''-'' then 2 else 1) s in
            if length name = 0 \<or> name ! 0 = CHR ''-'' \<or> name ! 0 = CHR ''='' then ParseError (BadSyntax s)
            else let (key, val) = splitValue name in setFlag key val rest flags)"

lemma parseOne_shorter: "parseOne args flags = Seen flags' rest \<Longrightarrow> length rest < length args"
  by (auto simp: parseOne_def setFlag_def Let_def split: list.splits if_splits prod.splits option.splits FlagKind.splits)

function flags_Parse :: "string list \<Rightarrow> Flags \<Rightarrow> (ArgError, Flags \<times> string list) result" where
  "flags_Parse args flags =
     (case parseOne args flags of
        Seen flags' rest \<Rightarrow> flags_Parse rest flags'
      | NoMore rest \<Rightarrow> Inr (flags, rest)
      | ParseError err \<Rightarrow> Inl err)"
  by pat_completeness auto

termination
  by (relation "measure (length \<circ> fst)") (auto dest: parseOne_shorter)

declare flags_Parse.simps [simp del]

section \<open>Results\<close>

text \<open>The text of an error string of a result.\<close>

fun errorText :: "(AssertError \<Rightarrow> string) \<Rightarrow> ('e \<Rightarrow> string) \<Rightarrow> ('e RunnerError \<Rightarrow> string) \<Rightarrow> 'e TestError \<Rightarrow> string" where
  "errorText assertText errText runText (Failure e) = assertText e"
| "errorText assertText errText runText (StepFailure i at e) = ''Step '' @ Itoa (int i) @ '' (at '' @ at @ ''): '' @ assertText e"
| "errorText assertText errText runText (NukeFailed e) = ''failed to nuke cache: '' @ errText e"
| "errorText assertText errText runText (RunFailed e) = runText e"

definition displaySimple :: "bool \<Rightarrow> ('e TestError \<Rightarrow> string) \<Rightarrow> 'e TestResult \<Rightarrow> string" where
  "displaySimple useColor txt tr =
     (if useColor then ''  '' @ ColorRed @ crossMark @ '' FAILED'' @ ColorReset @ [newline]
      else ''  '' @ crossMark @ '' FAILED'' @ [newline]) @
     concat (map (\<lambda>e. ''    - '' @ txt e @ [newline]) (res_Errors tr))"

definition displayFailed :: "bool \<Rightarrow> ('e TestError \<Rightarrow> string) \<Rightarrow> 'e TestResult \<Rightarrow> string" where
  "displayFailed useColor txt tr =
     (case res_VCLTrace tr of
        Some trace \<Rightarrow>
          if length (ti_Files trace) > 0
          then if list_ex (\<lambda>f. vf_Blocks f \<noteq> None) (ti_Files trace)
               then FormatTestFailureWithBlocks (res_TestName tr) (map txt (res_Errors tr))
                      (map (\<lambda>f. \<lparr>fw_ConfigID = vf_ConfigID f, fw_Filename = vf_Filename f, fw_Source = vf_Source f,
                                  fw_Blocks = vf_Blocks f\<rparr>) (ti_Files trace)) (ti_BackendCalls trace) useColor
               else FormatTestFailure (res_TestName tr) (map txt (res_Errors tr))
                      (map (\<lambda>f. \<lparr>ff_ConfigID = vf_ConfigID f, ff_Filename = vf_Filename f, ff_Source = vf_Source f,
                                  ff_ExecutedLines = vf_ExecutedLines f\<rparr>) (ti_Files trace)) (ti_BackendCalls trace) useColor
          else displaySimple useColor txt tr
      | None \<Rightarrow> displaySimple useColor txt tr)"

definition displayResult :: "bool \<Rightarrow> ('e TestError \<Rightarrow> string) \<Rightarrow> nat \<Rightarrow> 'e TestResult \<Rightarrow> string" where
  "displayResult useColor txt i tr =
     [newline] @ ''Test '' @ Itoa (int i + 1) @ '': '' @ res_TestName tr @ [newline] @
     (if res_Passed tr
      then if useColor then ''  '' @ ColorGreen @ checkMark @ '' PASSED'' @ ColorReset @ [newline]
           else ''  '' @ checkMark @ '' PASSED'' @ [newline]
      else displayFailed useColor txt tr)"

definition displaySummary :: "'e HarnessResult \<Rightarrow> string" where
  "displaySummary result =
     [newline] @ ''===================='' @ [newline] @
     ''Tests passed: '' @ Itoa (int (hr_Passed result)) @ ''/'' @ Itoa (int (hr_Total result)) @ [newline] @
     (if hr_Failed result > 0
      then ''Tests failed: '' @ Itoa (int (hr_Failed result)) @ ''/'' @ Itoa (int (hr_Total result)) @ [newline]
      else [])"

definition displayResults :: "bool \<Rightarrow> ('e TestError \<Rightarrow> string) \<Rightarrow> 'e HarnessResult \<Rightarrow> string" where
  "displayResults useColor txt result =
     concat (map (\<lambda>(i, tr). displayResult useColor txt i tr) (enumerate 0 (hr_Results result))) @ displaySummary result"

section \<open>Running\<close>

datatype 'e MainError =
    MissingArgument
  | MarshalingSchema 'e
  | HarnessFailed "'e HarnessError"
  | SomeTestsFailed

text \<open>
  What the command is given besides its arguments: the environment of the harness, the
  embedded version, the reflected JSON schema, whether standard output is a terminal, and the
  texts of the error values.
\<close>

record ('e, 'u, 'w) MainEnv =
  mv_henv :: "('e, 'u, 'w) HarnessEnv"
  mv_version :: string
  mv_schema :: "('e, string) result"
  mv_isTerminal :: bool
  mv_text :: "'e TestError \<Rightarrow> string"

definition main_runTests ::
  "('e, 'u, 'x World_scheme) MainEnv \<Rightarrow> string \<Rightarrow> bool \<Rightarrow> string \<Rightarrow> bool \<Rightarrow> 'x World_scheme \<Rightarrow>
   'e MainError option \<times> string \<times> 'x World_scheme" where
  "main_runTests menv testFile verbose cliVCL debugDump w =
     (let cfg = \<lparr>hc_TestFile = testFile, hc_VCLPath = cliVCL, hc_Verbose = verbose, hc_DebugDump = debugDump\<rparr> in
      case harness_Run (mv_henv menv) (harness_New cfg) w of
        (Inl err, h, w1) \<Rightarrow> (Some (HarnessFailed err), [], w1)
      | (Inr result, h, w1) \<Rightarrow>
          (if hr_Failed result > 0 then Some SomeTestsFailed else None,
           displayResults (mv_isTerminal menv) (mv_text menv) result @
           (if hr_DebugDumpPath result \<noteq> []
            then [newline] @ ''Debug artifacts saved to: '' @ hr_DebugDumpPath result @ [newline] else []),
           w1))"

definition generateJSONSchema :: "('e, string) result \<Rightarrow> 'e MainError option \<times> string" where
  "generateJSONSchema schema =
     (case schema of Inl err \<Rightarrow> (Some (MarshalingSchema err), []) | Inr out \<Rightarrow> (None, out @ [newline]))"

text \<open>
  \<^verbatim>\<open>run\<close>: the flag set exits the process on an error, with status 0 when help was asked for
  and 2 otherwise (\<open>Inl\<close>).
\<close>

definition main_run ::
  "('e, 'u, 'x World_scheme) MainEnv \<Rightarrow> string list \<Rightarrow> 'x World_scheme \<Rightarrow>
   (nat, 'e MainError option) result \<times> string \<times> 'x World_scheme" where
  "main_run menv args w =
     (case flags_Parse args defaultFlags of
        Inl err \<Rightarrow> (Inl (if err = HelpRequested then 0 else 2), [], w)
      | Inr (flags, rest) \<Rightarrow>
          if fl_showVersion flags then (Inr None, ''vcltest version '' @ mv_version menv @ [newline], w)
          else if fl_generateSchema flags then (case generateJSONSchema (mv_schema menv) of (err, out) \<Rightarrow> (Inr err, out, w))
          else if length rest = 0 then (Inr (Some MissingArgument), [], w)
          else (case main_runTests menv (rest ! 0) (fl_verbose flags) (fl_vclFile flags) (fl_debugDump flags) w of
                  (err, out, w1) \<Rightarrow> (Inr err, out, w1)))"

text \<open>\<^verbatim>\<open>main\<close>: the exit status, the standard output and the world at the end.\<close>

definition cmd_main ::
  "('e, 'u, 'x World_scheme) MainEnv \<Rightarrow> string list \<Rightarrow> 'x World_scheme \<Rightarrow> nat \<times> string \<times> 'x World_scheme" where
  "cmd_main menv args w =
     (case main_run menv args w of
        (Inl status, out, w1) \<Rightarrow> (status, out, w1)
      | (Inr (Some err), out, w1) \<Rightarrow> (1, out, w1)
      | (Inr None, out, w1) \<Rightarrow> (0, out, w1))"

section \<open>The counts of a run\<close>

lemma runTestsLoop_extends:
  "runTestsLoop env r bm tests result w = (result', w') \<Longrightarrow> \<exists>new. extends result new result'"
proof (induction tests arbitrary: result w)
  case Nil
  then show ?case by (auto simp: extends_def)
next
  case (Cons test tests)
  have f: "\<not> res_Passed (failedResult test e)" for e by (simp add: failedResult_def)
  show ?case using Cons.prems Cons.IH
    by (auto split: prod.splits sum.splits) (meson extends_add f)+
qed

lemma harness_Run_counts:
  assumes "harness_Run henv (harness_New cfg) w = (Inr result, h', w')"
  shows "hr_Failed result = fails (hr_Results result) \<and> hr_Passed result = passes (hr_Results result)"
  using assms
proof (cases rule: harness_Run_cases)
  case (inner vclPath tests h1 w1 w2)
  from inner(3) show ?thesis
  proof (cases rule: runInDirs_cases)
    case (body addresses bm v1 v2)
    from body(2) show ?thesis
    proof (cases rule: runWithBackends_cases)
      case (ran p u1 h2 u2 r result0 u3 result1 u4)
      obtain new where "extends \<lparr>hr_Passed = 0, hr_Failed = 0, hr_Total = length tests, hr_Results = [], hr_DebugDumpPath = []\<rparr> new result0"
        using runTestsLoop_extends ran(4) unfolding harness_runTests_def by blast
      moreover have "hr_Results result = hr_Results result0" "hr_Passed result = hr_Passed result0" "hr_Failed result = hr_Failed result0"
        using ran(5,7) by (auto simp: dumpIfEnabled_def split: if_splits prod.splits sum.splits)
      ultimately show ?thesis by (simp add: extends_def)
    qed simp_all
  qed simp_all
qed simp_all

lemma fails_none: "fails rs = 0 \<longleftrightarrow> list_all res_Passed rs"
  by (induction rs) auto

section \<open>Colours\<close>

definition plain_vcl :: "VCLFileInfo \<Rightarrow> bool" where
  "plain_vcl f \<longleftrightarrow> no_esc (vf_Filename f) \<and> no_esc (vf_Source f) \<and>
     (case vf_Blocks f of None \<Rightarrow> True | Some fb \<Rightarrow> block_names_plain fb)"

definition plain_result :: "('e TestError \<Rightarrow> string) \<Rightarrow> 'e TestResult \<Rightarrow> bool" where
  "plain_result txt tr \<longleftrightarrow> no_esc (res_TestName tr) \<and> list_all (no_esc \<circ> txt) (res_Errors tr) \<and>
     (case res_VCLTrace tr of None \<Rightarrow> True | Some trace \<Rightarrow> list_all plain_vcl (ti_Files trace))"

lemma displaySimple_displays:
  assumes "list_all (no_esc \<circ> txt) (res_Errors tr)"
  shows "displays (displaySimple True txt tr) (displaySimple False txt tr)"
  unfolding displaySimple_def
proof (rule displays_append)
  show "displays (concat (map (\<lambda>e. ''    - '' @ txt e @ [newline]) (res_Errors tr)))
      (concat (map (\<lambda>e. ''    - '' @ txt e @ [newline]) (res_Errors tr)))"
    using assms by (intro displays_map displays_plain) (auto simp: list_all_iff)
qed (simp add: displays_def)

lemma displayFailed_displays:
  assumes "plain_result txt tr"
  shows "displays (displayFailed True txt tr) (displayFailed False txt tr)"
proof -
  have e: "no_esc (res_TestName tr)" "list_all no_esc (map txt (res_Errors tr))" "list_all (no_esc \<circ> txt) (res_Errors tr)"
    using assms by (simp_all add: plain_result_def list.pred_map)
  show ?thesis
  proof (cases "res_VCLTrace tr")
    case None
    then show ?thesis by (simp add: displayFailed_def displaySimple_displays e(3))
  next
    case (Some trace)
    then have "list_all plain_vcl (ti_Files trace)" using assms by (simp add: plain_result_def)
    then have f: "list_all plain_file (map (\<lambda>f. \<lparr>fw_ConfigID = vf_ConfigID f, fw_Filename = vf_Filename f, fw_Source = vf_Source f,
                                  fw_Blocks = vf_Blocks f\<rparr>) (ti_Files trace))"
      "list_all (\<lambda>f. no_esc (ff_Filename f) \<and> no_esc (ff_Source f)) (map (\<lambda>f. \<lparr>ff_ConfigID = vf_ConfigID f, ff_Filename = vf_Filename f,
         ff_Source = vf_Source f, ff_ExecutedLines = vf_ExecutedLines f\<rparr>) (ti_Files trace))"
      by (auto simp: list_all_iff plain_vcl_def plain_file_def)
    show ?thesis unfolding displayFailed_def
      using displaySimple_displays[OF e(3)] FormatTestFailureWithBlocks_displays[OF e(1,2) f(1)] FormatTestFailure_displays[OF e(1,2) f(2)]
      by (simp add: Some)
  qed
qed

lemma displayResult_displays:
  assumes "plain_result txt tr"
  shows "displays (displayResult True txt i tr) (displayResult False txt i tr)"
  using displayFailed_displays[OF assms] assms
  by (cases "res_Passed tr") (simp_all add: displayResult_def displays_def plain_result_def)

section \<open>Properties\<close>

text \<open>
  C1. The exit status and the end of the output of a run on a test file. When the harness
  ends with an error the status is 1 and nothing is displayed. Otherwise the results are those of
  running the tests of the file as the harness reports them (each by the verdict on the responses
  to its own requests); the status is 0 iff all of them passed and 1 if one did not, and the
  output ends with the number of passed tests out of the tests of the file, the number of failed
  ones when there are any, and the place of the debug dump when there is one.
\<close>

theorem exit_status_verdict:
  assumes "varnish_env (hv_env (mv_henv menv)) hits" "cli_env (hv_env (mv_henv menv))" "listen_env (hv_env (mv_henv menv))"
    and "range_order (hv_ord (mv_henv menv))" "store_env (mv_henv menv)"
    and "\<forall>data t. Inr t \<in> set (hv_decode (mv_henv menv) data) \<longrightarrow> proper_maps t"
    and "flags_Parse args defaultFlags = Inr (flags, file # others)" "\<not> fl_showVersion flags" "\<not> fl_generateSchema flags"
    and "cfg = \<lparr>hc_TestFile = file, hc_VCLPath = fl_vclFile flags, hc_Verbose = fl_verbose flags, hc_DebugDump = fl_debugDump flags\<rparr>"
    and "cmd_main menv args w = (status, out, w')"
  shows "\<exists>run h'. harness_Run (mv_henv menv) (harness_New cfg) w = (run, h', w') \<and>
    (case run of
       Inl err \<Rightarrow> status = 1 \<and> out = []
     | Inr result \<Rightarrow>
         (\<exists>tests pre. reported_run (mv_henv menv) hits cfg w tests (hr_Results result) \<and>
            status = (if list_all res_Passed (hr_Results result) then 0 else 1) \<and>
            out = pre @ ''Tests passed: '' @ Itoa (int (passes (hr_Results result))) @ ''/'' @ Itoa (int (length tests)) @ [newline] @
              (if list_all res_Passed (hr_Results result) then []
               else ''Tests failed: '' @ Itoa (int (fails (hr_Results result))) @ ''/'' @ Itoa (int (length tests)) @ [newline]) @
              (if hr_DebugDumpPath result = [] then []
               else [newline] @ ''Debug artifacts saved to: '' @ hr_DebugDumpPath result @ [newline])))"
proof -
  obtain o1 h' w1 where run: "harness_Run (mv_henv menv) (harness_New cfg) w = (o1, h', w1)" by (rule prod_cases3)
  note main = cmd_main_def main_run_def main_runTests_def Let_def
  show ?thesis
  proof (cases o1)
    case (Inl err)
    then have "status = 1 \<and> out = [] \<and> w' = w1" using assms(7-9,11) run
      by (simp add: main assms(10))
    then show ?thesis using run Inl by simp
  next
    case (Inr result)
    let ?dump = "if hr_DebugDumpPath result = [] then [] else [newline] @ ''Debug artifacts saved to: '' @ hr_DebugDumpPath result @ [newline]"
    have s: "status = (if hr_Failed result > 0 then 1 else 0)" "w' = w1"
      "out = displayResults (mv_isTerminal menv) (mv_text menv) result @ ?dump"
      using assms(7-9,11) run Inr by (auto simp: main assms(10) split: if_splits)
    note c = harness_Run_counts[OF run[unfolded Inr]]
    from run_reports_spec[OF assms(1-6) run[unfolded Inr]] obtain tests where
      t: "reported_run (mv_henv menv) hits cfg w tests (hr_Results result)" "hr_Total result = length tests" by blast
    have v: "hr_Failed result > 0 \<longleftrightarrow> \<not> list_all res_Passed (hr_Results result)"
      using c fails_none[of "hr_Results result"] by auto
    let ?pre = "concat (map (\<lambda>(i, tr). displayResult (mv_isTerminal menv) (mv_text menv) i tr) (enumerate 0 (hr_Results result))) @
        [newline] @ ''===================='' @ [newline]"
    have "out = ?pre @ ''Tests passed: '' @ Itoa (int (passes (hr_Results result))) @ ''/'' @ Itoa (int (length tests)) @ [newline] @
        (if list_all res_Passed (hr_Results result) then []
         else ''Tests failed: '' @ Itoa (int (fails (hr_Results result))) @ ''/'' @ Itoa (int (length tests)) @ [newline]) @ ?dump"
      using c v by (simp add: s(3) displayResults_def displaySummary_def t(2))
    moreover have "status = (if list_all res_Passed (hr_Results result) then 0 else 1)" using s(1) v by simp
    ultimately show ?thesis using run s(2) t(1) unfolding Inr by (intro exI[of _ "Inr result"] exI[of _ h']) auto
  qed
qed

definition bool_names :: "string list" where
  "bool_names = [''verbose'', ''v'', ''version'', ''debug-dump'', ''generate-schema'']"

text \<open>
  A setting of a flag on the command line, with one or two minus signs: a boolean flag alone or
  with a value, \<^verbatim>\<open>-vcl\<close> with its value in the same or in the next argument.
\<close>

datatype Setting = SetBool bool string "string option" | SetVCL bool string | SetVCLNext bool string

fun settingArgs :: "Setting \<Rightarrow> string list" where
  "settingArgs (SetBool two name val) =
     [(if two then ''--'' else ''-'') @ name @ (case val of None \<Rightarrow> [] | Some v \<Rightarrow> ''='' @ v)]"
| "settingArgs (SetVCL two v) = [(if two then ''--vcl='' else ''-vcl='') @ v]"
| "settingArgs (SetVCLNext two v) = [if two then ''--vcl'' else ''-vcl'', v]"

fun valid_setting :: "Setting \<Rightarrow> bool" where
  "valid_setting (SetBool two name val) \<longleftrightarrow>
     name \<in> set bool_names \<and> (case val of None \<Rightarrow> True | Some v \<Rightarrow> ParseBool v \<noteq> None)"
| "valid_setting s \<longleftrightarrow> True"

text \<open>The values given to a flag that has the names \<open>names\<close>, and those given to \<^verbatim>\<open>-vcl\<close>, in order.\<close>

fun bool_given :: "string list \<Rightarrow> Setting \<Rightarrow> bool list" where
  "bool_given names (SetBool two name val) =
     (if name \<in> set names then [case val of None \<Rightarrow> True | Some v \<Rightarrow> ParseBool v = Some True] else [])"
| "bool_given names s = []"

fun vcl_given :: "Setting \<Rightarrow> string list" where
  "vcl_given (SetBool two name val) = []"
| "vcl_given (SetVCL two v) = [v]"
| "vcl_given (SetVCLNext two v) = [v]"

definition bool_of :: "string list \<Rightarrow> Setting list \<Rightarrow> bool" where
  "bool_of names settings = last (False # concat (map (bool_given names) settings))"

definition vcl_of :: "Setting list \<Rightarrow> string" where
  "vcl_of settings = last ([] # concat (map vcl_given settings))"

definition setOne :: "Setting \<Rightarrow> Flags \<Rightarrow> Flags" where
  "setOne s f =
     \<lparr>fl_verbose = last (fl_verbose f # bool_given [''v'', ''verbose''] s),
      fl_showVersion = last (fl_showVersion f # bool_given [''version''] s),
      fl_vclFile = last (fl_vclFile f # vcl_given s),
      fl_debugDump = last (fl_debugDump f # bool_given [''debug-dump''] s),
      fl_generateSchema = last (fl_generateSchema f # bool_given [''generate-schema''] s)\<rparr>"

lemma parse_seen: "parseOne args flags = Seen flags' rest \<Longrightarrow> flags_Parse args flags = flags_Parse rest flags'"
  by (simp add: flags_Parse.simps[of args])

lemma setBool_flags:
  "setOne (SetBool two ''verbose'' val) f = f\<lparr>fl_verbose := (case val of None \<Rightarrow> True | Some v \<Rightarrow> ParseBool v = Some True)\<rparr>"
  "setOne (SetBool two ''v'' val) f = f\<lparr>fl_verbose := (case val of None \<Rightarrow> True | Some v \<Rightarrow> ParseBool v = Some True)\<rparr>"
  "setOne (SetBool two ''version'' val) f = f\<lparr>fl_showVersion := (case val of None \<Rightarrow> True | Some v \<Rightarrow> ParseBool v = Some True)\<rparr>"
  "setOne (SetBool two ''debug-dump'' val) f = f\<lparr>fl_debugDump := (case val of None \<Rightarrow> True | Some v \<Rightarrow> ParseBool v = Some True)\<rparr>"
  "setOne (SetBool two ''generate-schema'' val) f = f\<lparr>fl_generateSchema := (case val of None \<Rightarrow> True | Some v \<Rightarrow> ParseBool v = Some True)\<rparr>"
  by (simp_all add: setOne_def)

lemma parse_bool_setting:
  assumes "valid_setting (SetBool two name val)"
  shows "parseOne (settingArgs (SetBool two name val) @ rest) flags = Seen (setOne (SetBool two name val) flags) rest"
proof -
  have n: "name = ''verbose'' \<or> name = ''v'' \<or> name = ''version'' \<or> name = ''debug-dump'' \<or> name = ''generate-schema''"
    using assms by (simp add: bool_names_def)
  show ?thesis
  proof (cases val)
    case None
    with n show ?thesis
      by (elim disjE) (simp_all add: parseOne_def splitValue_def setFlag_def formal_def setBool_flags)
  next
    case (Some v)
    then obtain b where "ParseBool v = Some b" using assms by auto
    with n Some show ?thesis
      by (elim disjE) (simp_all add: parseOne_def splitValue_def setFlag_def formal_def setBool_flags)
  qed
qed

lemma parse_vcl_setting:
  "parseOne (settingArgs (SetVCL two v) @ rest) flags = Seen (setOne (SetVCL two v) flags) rest"
  "parseOne (settingArgs (SetVCLNext two v) @ rest) flags = Seen (setOne (SetVCLNext two v) flags) rest"
  by (simp_all add: parseOne_def splitValue_def setFlag_def formal_def setOne_def)

lemma parse_setting:
  "valid_setting s \<Longrightarrow> flags_Parse (settingArgs s @ rest) flags = flags_Parse rest (setOne s flags)"
  by (rule parse_seen, cases s) (simp_all only: parse_bool_setting parse_vcl_setting)

lemma parse_settings:
  assumes "list_all valid_setting settings" "length file < 2 \<or> file ! 0 \<noteq> CHR ''-''"
  shows "flags_Parse (concat (map settingArgs settings) @ file # others) flags = Inr (fold setOne settings flags, file # others)"
  using assms(1)
proof (induction settings arbitrary: flags)
  case Nil
  then show ?case using assms(2) by (simp add: flags_Parse.simps parseOne_def)
next
  case (Cons s settings)
  then show ?case using parse_setting[of s "concat (map settingArgs settings) @ file # others" flags] by simp
qed

lemma last_given: "last (last (x # xs) # ys) = last (x # xs @ ys)"
  by (cases ys) auto

lemma settings_flags:
  "fold setOne settings f =
     \<lparr>fl_verbose = last (fl_verbose f # concat (map (bool_given [''v'', ''verbose'']) settings)),
      fl_showVersion = last (fl_showVersion f # concat (map (bool_given [''version'']) settings)),
      fl_vclFile = last (fl_vclFile f # concat (map vcl_given settings)),
      fl_debugDump = last (fl_debugDump f # concat (map (bool_given [''debug-dump'']) settings)),
      fl_generateSchema = last (fl_generateSchema f # concat (map (bool_given [''generate-schema'']) settings))\<rparr>"
proof (induction settings arbitrary: f)
  case (Cons s settings)
  show ?case unfolding fold_simps(2) Cons.IH by (simp only: setOne_def Flags.select_convs list.map concat.simps last_given)
qed simp

text \<open>
  C21. What a command line does: after any settings of the defined flags, in any order, with
  repetitions and in every form the flag package takes (one or two minus signs; a boolean flag
  alone or with a value; the value of \<^verbatim>\<open>-vcl\<close> attached or as the next argument), the value given
  last to a flag, under either of its names, is the one that counts. If the version is asked for
  it is printed and nothing is run; otherwise, if the schema is asked for, it is printed; otherwise
  the tests of the first argument after the settings are run with the verbosity, the VCL file and
  the debug dump so given. Whatever follows the file name is ignored, flags included.
\<close>

theorem command_line_settings:
  assumes "list_all valid_setting settings" "length file < 2 \<or> file ! 0 \<noteq> CHR ''-''"
  shows "cmd_main menv (concat (map settingArgs settings) @ file # others) w =
    (if bool_of [''version''] settings then (0, ''vcltest version '' @ mv_version menv @ [newline], w)
     else if bool_of [''generate-schema''] settings then
       (case mv_schema menv of Inl err \<Rightarrow> (1, [], w) | Inr schema \<Rightarrow> (0, schema @ [newline], w))
     else case main_runTests menv file (bool_of [''v'', ''verbose''] settings) (vcl_of settings)
                 (bool_of [''debug-dump''] settings) w of
            (None, out, w') \<Rightarrow> (0, out, w')
          | (Some err, out, w') \<Rightarrow> (1, out, w'))"
  unfolding cmd_main_def main_run_def parse_settings[OF assms]
  by (simp add: settings_flags bool_of_def vcl_of_def defaultFlags_def generateJSONSchema_def del: last.simps
      split: sum.split prod.split option.split)

text \<open>
  C20. Colours are decoration only: what a terminal shows of the coloured report of a run,
  its escape sequences removed, is the report printed without colours, for names, errors and
  VCL sources that contain no escape character themselves.
\<close>

theorem colour_is_decoration:
  assumes "list_all (plain_result txt) (hr_Results result)"
  shows "stripColor (displayResults True txt result) = displayResults False txt result"
proof -
  have "displays (concat (map (\<lambda>(i, tr). displayResult True txt i tr) (enumerate 0 (hr_Results result))))
      (concat (map (\<lambda>(i, tr). displayResult False txt i tr) (enumerate 0 (hr_Results result))))"
  proof (intro displays_map)
    fix x assume "x \<in> set (enumerate 0 (hr_Results result))"
    then have "plain_result txt (snd x)" using assms by (auto simp: in_set_enumerate_eq list_all_length)
    then show "displays (case x of (i, tr) \<Rightarrow> displayResult True txt i tr) (case x of (i, tr) \<Rightarrow> displayResult False txt i tr)"
      by (simp add: case_prod_unfold displayResult_displays)
  qed
  moreover have "displays (displaySummary result) (displaySummary result)"
    by (intro displays_plain) (simp add: displaySummary_def)
  ultimately show ?thesis unfolding displayResults_def using displays_append displays_def by metis
qed

section \<open>A command line\<close>

definition demo_menv :: "(string, string, LiveWorld) MainEnv" where
  "demo_menv = \<lparr>mv_henv = run_henv False, mv_version = ''1'', mv_schema = Inl ''none'', mv_isTerminal = False, mv_text = (\<lambda>e. [])\<rparr>"

lemma demo_load:
  "Load (hv_readFile (run_henv crash) w) (hv_decode (run_henv crash)) name = Inr tests \<longleftrightarrow> tests = [ApplyDefaults run_test]"
proof -
  have "validate run_test = None" by code_simp
  then show ?thesis by (auto simp: Load_def run_henv_def)
qed

theorem exit_status_verdict_witness:
  "\<exists>out w' result h'. cmd_main demo_menv [''-v'', ''-vcl'', ''m.vcl'', ''m.yaml''] run_world = (0, out, w') \<and>
     harness_Run (run_henv False) (harness_New (run_cfg\<lparr>hc_Verbose := True\<rparr>)) run_world = (Inr result, h', w') \<and>
     reported_run (run_henv False) live_hits (run_cfg\<lparr>hc_Verbose := True\<rparr>) run_world [ApplyDefaults run_test] (hr_Results result) \<and>
     list_all res_Passed (hr_Results result)"
proof -
  let ?args = "[''-v'', ''-vcl'', ''m.vcl'', ''m.yaml'']"
  let ?flags = "defaultFlags\<lparr>fl_verbose := True, fl_vclFile := ''m.vcl''\<rparr>"
  have p: "flags_Parse ?args defaultFlags = Inr (?flags, [''m.yaml''])"
    by code_simp
  have "fst (cmd_main demo_menv ?args run_world) = 0" by code_simp
  then obtain out w' where run: "cmd_main demo_menv ?args run_world = (0, out, w')"
    by (cases "cmd_main demo_menv ?args run_world") auto
  have f: "hv_env (run_henv False) = run_env" "mv_henv demo_menv = run_henv False" by (simp_all add: run_henv_def demo_menv_def)
  have m: "\<forall>data t. Inr t \<in> set (hv_decode (run_henv False) data) \<longrightarrow> proper_maps t"
    by (auto simp: run_henv_def proper_maps_def run_test_def demo_test_def wf_map_def)
  have d: "\<not> fl_showVersion ?flags" "\<not> fl_generateSchema ?flags" by (simp_all add: defaultFlags_def)
  have cfg: "run_cfg\<lparr>hc_Verbose := True\<rparr> = \<lparr>hc_TestFile = ''m.yaml'', hc_VCLPath = fl_vclFile ?flags,
      hc_Verbose = fl_verbose ?flags, hc_DebugDump = fl_debugDump ?flags\<rparr>" by (simp add: run_cfg_def defaultFlags_def)
  obtain o1 h1 w1 where h: "harness_Run (run_henv False) (harness_New (run_cfg\<lparr>hc_Verbose := True\<rparr>)) run_world = (o1, h1, w1)"
    by (rule prod_cases3)
  note v = exit_status_verdict[of demo_menv, unfolded f, OF run_varnish_env run_envs(1,2) run_order run_envs(3) m p d cfg run,
      unfolded h prod.inject]
  have w1: "w1 = w'" using v by blast
  obtain result where o1: "o1 = Inr result" using v by (cases o1) (elim exE conjE, simp, blast)
  have l: "list_all res_Passed (hr_Results result)" using v[unfolded o1] by (elim exE conjE) (hypsubst, simp only: sum.case, elim exE conjE, rule ccontr, simp)
  obtain tests where t: "reported_run (run_henv False) live_hits (run_cfg\<lparr>hc_Verbose := True\<rparr>) run_world tests (hr_Results result)"
    using v[unfolded o1] by (elim exE conjE) (hypsubst, simp only: sum.case, elim exE conjE, rule that)
  have "tests = [ApplyDefaults run_test]" using t demo_load unfolding reported_run_def by blast
  with run h o1 w1 l t show ?thesis by blast
qed

theorem command_line_settings_witness:
  "cmd_main demo_menv [''--debug-dump'', ''-v=f'', ''-vcl'', ''a.vcl'', ''-verbose'', ''-vcl=m.vcl'', ''t.yaml'', ''-version''] run_world =
     (case main_runTests demo_menv ''t.yaml'' True ''m.vcl'' True run_world of
        (None, out, w') \<Rightarrow> (0, out, w') | (Some err, out, w') \<Rightarrow> (1, out, w'))"
proof -
  let ?settings = "[SetBool True ''debug-dump'' None, SetBool False ''v'' (Some ''f''), SetVCLNext False ''a.vcl'',
     SetBool False ''verbose'' None, SetVCL False ''m.vcl'']"
  have "list_all valid_setting ?settings" "length ''t.yaml'' < 2 \<or> ''t.yaml'' ! 0 \<noteq> CHR ''-''"
    by (simp_all add: bool_names_def ParseBool_def)
  note run = command_line_settings[OF this, of demo_menv "[''-version'']" run_world]
  have "bool_of [''v'', ''verbose''] ?settings" "vcl_of ?settings = ''m.vcl''" "bool_of [''debug-dump''] ?settings"
    "\<not> bool_of [''version''] ?settings" "\<not> bool_of [''generate-schema''] ?settings"
    by (simp_all add: bool_of_def vcl_of_def ParseBool_def)
  with run show ?thesis by simp
qed

theorem colour_is_decoration_witness:
  "stripColor (displayResults True (\<lambda>e. ''status'')
       \<lparr>hr_Passed = 0, hr_Failed = 1, hr_Total = 1, hr_Results = [failedResult demo_test (NukeFailed ''x'')], hr_DebugDumpPath = []\<rparr>) =
   displayResults False (\<lambda>e. ''status'')
       \<lparr>hr_Passed = 0, hr_Failed = 1, hr_Total = 1, hr_Results = [failedResult demo_test (NukeFailed ''x'')], hr_DebugDumpPath = []\<rparr>"
  by (rule colour_is_decoration) (simp add: plain_result_def failedResult_def demo_test_def)

end
