(* ===== verification/Startup.thy ===== *)
theory Startup
  imports AdmCommands GoPaths "HOL-Library.Multiset"
begin

text \<open>
  Packages \<^verbatim>\<open>events\<close>, \<^verbatim>\<open>vclloader\<close> (\<^verbatim>\<open>loader.go\<close>) and \<^verbatim>\<open>cache\<close> (\<^verbatim>\<open>starter.go\<close>): the
  event-driven start-up. Two subscribers of the stream \<^verbatim>\<open>/process\<close> each handle the events
  they receive in the order of publication, independently of each other. The broker is a
  dependency: a publication may fail and a delivery may be dropped, so each subscriber may
  miss any event.
\<close>

section \<open>Events\<close>

datatype 'e LoadError =
    ResolvePath 'e
  | FileMissing string
  | GetDirectory 'e
  | ChangeDirectory string 'e
  | LoadCommand 'e
  | LoadRejected int string
  | UseCommand 'e
  | UseRejected int string
  | GetMapping "'e CmdError"

datatype 'e CacheError = StartCommand 'e | StartRejected int string

datatype 'e ComponentError = LoaderError "'e LoadError" | StarterError "'e CacheError"

datatype 'e Event =
    EventVarnishadmListening nat
  | EventVarnishdStarted string "string list"
  | EventVarnishdConnected string
  | EventVCLLoaded string string VCLShowResult
  | EventCacheStarted
  | EventReady
  | EventProcessError string "'e ComponentError"

text \<open>
  What the two components call: varnishadm, the working directory, the test that a file does
  not exist, and the broker's publish operation, whose error the code ignores.
\<close>

record ('e, 'w) StartEnv =
  le_exec :: "('e, 'w) executor"
  le_getwd :: "'w \<Rightarrow> ('e, string) result"
  le_chdir :: "string \<Rightarrow> 'w \<Rightarrow> 'e option \<times> 'w"
  le_missing :: "string \<Rightarrow> 'w \<Rightarrow> bool"
  le_publish :: "'e Event \<Rightarrow> 'w \<Rightarrow> 'w"

section \<open>The VCL loader\<close>

record Loader =
  ld_vclPath :: string
  ld_vclName :: string

definition loader_New :: "string \<Rightarrow> Loader" where
  "loader_New vclPath = \<lparr>ld_vclPath = vclPath, ld_vclName = ''boot''\<rparr>"

definition activate :: "('e, 'w) StartEnv \<Rightarrow> Loader \<Rightarrow> string \<Rightarrow> 'w \<Rightarrow> 'e LoadError option \<times> 'w" where
  "activate env l absPath w =
     (case VCLUse (le_exec env) (ld_vclName l) w of
        (Inl err, w1) \<Rightarrow> (Some (UseCommand err), w1)
      | (Inr resp, w1) \<Rightarrow>
          if statusCode resp \<noteq> ClisOk then (Some (UseRejected (statusCode resp) (payload resp)), w1)
          else (case VCLShowStructured (le_exec env) (ld_vclName l) w1 of
                  (Inl err, w2) \<Rightarrow> (Some (GetMapping err), w2)
                | (Inr mapping, w2) \<Rightarrow> (None, le_publish env (EventVCLLoaded (ld_vclName l) absPath mapping) w2)))"

definition loadUnlessBoot :: "('e, 'w) StartEnv \<Rightarrow> Loader \<Rightarrow> string \<Rightarrow> 'w \<Rightarrow> 'e LoadError option \<times> 'w" where
  "loadUnlessBoot env l absPath w =
     (if ld_vclName l \<noteq> ''boot''
      then (case VCLLoad (le_exec env) (ld_vclName l) absPath w of
              (Inl err, w1) \<Rightarrow> (Some (LoadCommand err), w1)
            | (Inr resp, w1) \<Rightarrow>
                if statusCode resp \<noteq> ClisOk then (Some (LoadRejected (statusCode resp) (payload resp)), w1)
                else (None, w1))
      else (None, w))"

text \<open>The directory is restored on every path after it was changed; a failure is only logged.\<close>

definition loadVCL :: "('e, 'w) StartEnv \<Rightarrow> Loader \<Rightarrow> 'w \<Rightarrow> 'e LoadError option \<times> 'w" where
  "loadVCL env l w =
     (case Abs (le_getwd env w) (ld_vclPath l) of
        Inl err \<Rightarrow> (Some (ResolvePath err), w)
      | Inr absPath \<Rightarrow>
          if le_missing env absPath w then (Some (FileMissing absPath), w)
          else
            let vclDir = Dir absPath in
            (case le_getwd env w of
               Inl err \<Rightarrow> (Some (GetDirectory err), w)
             | Inr originalDir \<Rightarrow>
                 (case le_chdir env vclDir w of
                    (Some err, w1) \<Rightarrow> (Some (ChangeDirectory vclDir err), w1)
                  | (None, w1) \<Rightarrow>
                      apsnd (\<lambda>w. snd (le_chdir env originalDir w))
                        (case loadUnlessBoot env l absPath w1 of
                           (Some err, w2) \<Rightarrow> (Some err, w2)
                         | (None, w2) \<Rightarrow> activate env l absPath w2))))"

definition onLoader :: "('e, 'w) StartEnv \<Rightarrow> Loader \<Rightarrow> 'e Event \<Rightarrow> 'w \<Rightarrow> 'w" where
  "onLoader env l msg w =
     (case msg of
        EventVarnishdConnected remoteAddr \<Rightarrow>
          (case loadVCL env l w of
             (None, w1) \<Rightarrow> w1
           | (Some err, w1) \<Rightarrow> le_publish env (EventProcessError ''vcl-loader'' (LoaderError err)) w1)
      | _ \<Rightarrow> w)"

section \<open>The cache starter\<close>

record Starter =
  st_vclMapping :: "VCLShowResult option"

definition starter_New :: Starter where
  "starter_New = \<lparr>st_vclMapping = None\<rparr>"

definition GetVCLMapping :: "Starter \<Rightarrow> VCLShowResult option" where
  "GetVCLMapping st = st_vclMapping st"

definition startCache :: "('e, 'w) StartEnv \<Rightarrow> 'w \<Rightarrow> 'e CacheError option \<times> 'w" where
  "startCache env w =
     (case Start (le_exec env) w of
        (Inl err, w1) \<Rightarrow> (Some (StartCommand err), w1)
      | (Inr resp, w1) \<Rightarrow>
          if statusCode resp \<noteq> 300 \<and> statusCode resp \<noteq> ClisOk
          then (Some (StartRejected (statusCode resp) (payload resp)), w1)
          else (None, le_publish env EventReady (le_publish env EventCacheStarted w1)))"

definition onStarter :: "('e, 'w) StartEnv \<Rightarrow> 'e Event \<Rightarrow> Starter \<times> 'w \<Rightarrow> Starter \<times> 'w" where
  "onStarter env msg stw =
     (case msg of
        EventVCLLoaded name path mapping \<Rightarrow>
          ((fst stw)\<lparr>st_vclMapping := Some mapping\<rparr>,
           (case startCache env (snd stw) of
              (None, w1) \<Rightarrow> w1
            | (Some err, w1) \<Rightarrow> le_publish env (EventProcessError ''cache-starter'' (StarterError err)) w1))
      | _ \<Rightarrow> stw)"

section \<open>The two subscribers\<close>

text \<open>
  \<open>published\<close> is the sequence of the publications made on the stream, those included that the
  broker refuses (timeout, closed) or does not deliver; a subscriber has gone through a prefix
  of it, having handled or missed each event. A component whose subscription failed has no
  goroutine and handles nothing. A new connection of varnishd is published by the varnishadm
  server. One handler call is one step. \<open>su_lost\<close> records the events that were missed by
  the component that acts on them.
\<close>

record ('e, 'w) Startup =
  su_world :: 'w
  su_loaderOn :: bool
  su_loader :: nat
  su_starterOn :: bool
  su_starterPos :: nat
  su_starter :: Starter
  su_lost :: "'e Event list"

datatype StartupEvent = Connects string | LoaderHandles | LoaderMisses | StarterHandles | StarterMisses

fun connection :: "'e Event \<Rightarrow> bool" where
  "connection (EventVarnishdConnected a) = True"
| "connection e = False"

fun vcl_loaded :: "'e Event \<Rightarrow> bool" where
  "vcl_loaded (EventVCLLoaded n p m) = True"
| "vcl_loaded e = False"

inductive startup_step ::
  "('e, 'w) StartEnv \<Rightarrow> ('w \<Rightarrow> 'e Event list) \<Rightarrow> Loader \<Rightarrow> ('e, 'w) Startup \<Rightarrow> StartupEvent \<Rightarrow>
   ('e, 'w) Startup \<Rightarrow> bool"
  for env published l where
  connects: "startup_step env published l s (Connects addr)
    (s\<lparr>su_world := le_publish env (EventVarnishdConnected addr) (su_world s)\<rparr>)"
| loader: "su_loaderOn s \<Longrightarrow> su_loader s < length (published (su_world s)) \<Longrightarrow>
    startup_step env published l s LoaderHandles
      (s\<lparr>su_loader := su_loader s + 1,
         su_world := onLoader env l (published (su_world s) ! su_loader s) (su_world s)\<rparr>)"
| loader_misses: "su_loader s < length (published (su_world s)) \<Longrightarrow>
    startup_step env published l s LoaderMisses
      (s\<lparr>su_loader := su_loader s + 1,
         su_lost := su_lost s @ filter connection [published (su_world s) ! su_loader s]\<rparr>)"
| starter: "su_starterOn s \<Longrightarrow> su_starterPos s < length (published (su_world s)) \<Longrightarrow>
    onStarter env (published (su_world s) ! su_starterPos s) (su_starter s, su_world s) = (st, w) \<Longrightarrow>
    startup_step env published l s StarterHandles
      (s\<lparr>su_starterPos := su_starterPos s + 1, su_starter := st, su_world := w\<rparr>)"
| starter_misses: "su_starterPos s < length (published (su_world s)) \<Longrightarrow>
    startup_step env published l s StarterMisses
      (s\<lparr>su_starterPos := su_starterPos s + 1,
         su_lost := su_lost s @ filter vcl_loaded [published (su_world s) ! su_starterPos s]\<rparr>)"

inductive startup_run ::
  "('e, 'w) StartEnv \<Rightarrow> ('w \<Rightarrow> 'e Event list) \<Rightarrow> Loader \<Rightarrow> ('e, 'w) Startup \<Rightarrow> StartupEvent list \<Rightarrow>
   ('e, 'w) Startup \<Rightarrow> bool"
  for env published l where
  startup_nil: "startup_run env published l s [] s"
| startup_snoc: "startup_run env published l s es t \<Longrightarrow> startup_step env published l t e u \<Longrightarrow>
    startup_run env published l s (es @ [e]) u"

text \<open>
  \<open>loaderSub\<close> and \<open>starterSub\<close> are the errors of the two calls of \<^verbatim>\<open>Subscribe\<close>, which \<^verbatim>\<open>Start\<close>
  only logs.
\<close>

definition startup_init :: "'e option \<Rightarrow> 'e option \<Rightarrow> 'w \<Rightarrow> ('e, 'w) Startup" where
  "startup_init loaderSub starterSub w =
     \<lparr>su_world = w, su_loaderOn = (loaderSub = None), su_loader = 0,
      su_starterOn = (starterSub = None), su_starterPos = 0, su_starter = starter_New, su_lost = []\<rparr>"

definition settled :: "('w \<Rightarrow> 'e Event list) \<Rightarrow> ('e, 'w) Startup \<Rightarrow> bool" where
  "settled published s \<longleftrightarrow>
     su_loader s = length (published (su_world s)) \<and> su_starterPos s = length (published (su_world s))"

section \<open>Laws of the environment\<close>

text \<open>
  A call of publish is one more publication, whatever becomes of it, and the other operations
  publish nothing; changing into a
  directory changes the working directory to it, the directory the process was in can be
  entered again, and commands and events leave it alone.
\<close>

definition bus_laws :: "('e, 'w) StartEnv \<Rightarrow> ('w \<Rightarrow> 'e Event list) \<Rightarrow> bool" where
  "bus_laws env published \<longleftrightarrow>
     (\<forall>e w. published (le_publish env e w) = published w @ [e]) \<and>
     (\<forall>cmd w. published (snd (le_exec env cmd w)) = published w) \<and>
     (\<forall>d w. published (snd (le_chdir env d w)) = published w)"

definition cwd_laws :: "('e, 'w) StartEnv \<Rightarrow> string \<Rightarrow> bool" where
  "cwd_laws env home \<longleftrightarrow>
     (\<forall>e w. le_getwd env (le_publish env e w) = le_getwd env w) \<and>
     (\<forall>cmd w. le_getwd env (snd (le_exec env cmd w)) = le_getwd env w) \<and>
     (\<forall>d w. le_getwd env (snd (le_chdir env d w)) =
        (if fst (le_chdir env d w) = None then Inr d else le_getwd env w)) \<and>
     (\<forall>w. fst (le_chdir env home w) = None)"

section \<open>What a handler publishes\<close>

fun failure_of :: "string \<Rightarrow> 'e Event \<Rightarrow> bool" where
  "failure_of c (EventProcessError d err) = (c = d)"
| "failure_of c e = False"

abbreviation number :: "('a \<Rightarrow> bool) \<Rightarrow> 'a list \<Rightarrow> nat" where
  "number P evs \<equiv> length (filter P evs)"

lemma vcl_loaded_iff: "vcl_loaded e \<longleftrightarrow> (\<exists>n p m. e = EventVCLLoaded n p m)"
  by (cases e) auto

lemma connection_iff: "connection e \<longleftrightarrow> (\<exists>a. e = EventVarnishdConnected a)"
  by (cases e) auto

lemma structured_world: "snd (structured cmd parse x) = snd x"
  by (cases x) (simp add: structured_def split: sum.split)

text \<open>The operations that send a command, as facts for both laws.\<close>

lemma command_worlds:
  "snd (VCLUse exec n w) = snd (exec (''vcl.use '' @ n) w)"
  "snd (VCLLoad exec n p w) = snd (exec (''vcl.load '' @ n @ '' '' @ p) w)"
  "snd (VCLShowStructured exec n w) = snd (exec (''vcl.show -v '' @ n) w)"
  "snd (Start exec w) = snd (exec ''start'' w)"
  by (simp_all add: VCLUse_def VCLLoad_def VCLShowStructured_def VCLShow_def structured_world Start_def)

lemma activate_publishes:
  assumes "bus_laws env published" "activate env l p w = (err, w')"
  shows "if err = None then \<exists>m. published w' = published w @ [EventVCLLoaded (ld_vclName l) p m] else published w' = published w"
proof -
  have d: "published (snd (VCLUse (le_exec env) n v)) = published v"
    "published (snd (VCLShowStructured (le_exec env) n v)) = published v" for n v
    using assms(1) by (simp_all add: bus_laws_def command_worlds)
  obtain r1 w1 where u: "VCLUse (le_exec env) (ld_vclName l) w = (r1, w1)" by fastforce
  obtain r2 w2 where s: "VCLShowStructured (le_exec env) (ld_vclName l) w1 = (r2, w2)" by fastforce
  have "published w1 = published w" "published w2 = published w1"
    using d(1)[of "ld_vclName l" w] d(2)[of "ld_vclName l" w1] by (simp_all add: u s)
  with assms show ?thesis by (auto simp: activate_def u s bus_laws_def split: sum.splits if_splits)
qed

lemma loadVCL_publishes:
  assumes "bus_laws env published" "loadVCL env l w = (err, w')"
  shows "if err = None then \<exists>p m. published w' = published w @ [EventVCLLoaded (ld_vclName l) p m] else published w' = published w"
proof (cases "\<exists>p home w1. Abs (le_getwd env w) (ld_vclPath l) = Inr p \<and> \<not> le_missing env p w \<and>
    le_getwd env w = Inr home \<and> le_chdir env (Dir p) w = (None, w1)")
  case False
  then show ?thesis using assms
    by (auto simp: loadVCL_def bus_laws_def Let_def split: sum.splits prod.splits option.splits if_splits) (metis snd_conv)+
next
  case True
  then obtain p home w1 where o: "Abs (le_getwd env w) (ld_vclPath l) = Inr p" "\<not> le_missing env p w"
    "le_getwd env w = Inr home" "le_chdir env (Dir p) w = (None, w1)" by blast
  note abs = o(1)[unfolded o(3)]
  obtain e2 w2 where u: "loadUnlessBoot env l p w1 = (e2, w2)" by fastforce
  obtain e3 w3 where a: "activate env l p w2 = (e3, w3)" by fastforce
  have "published w1 = published w" using assms(1) o(4) unfolding bus_laws_def by (metis snd_conv)
  moreover have "published w2 = published w1"
  proof -
    have "published (snd (VCLLoad (le_exec env) (ld_vclName l) p w1)) = published w1"
      using assms(1) by (simp add: bus_laws_def command_worlds)
    then show ?thesis using u by (auto simp: loadUnlessBoot_def split: if_splits prod.splits sum.splits)
  qed
  moreover have "published (snd (le_chdir env home v)) = published v" for v using assms(1) by (simp add: bus_laws_def)
  ultimately show ?thesis using activate_publishes[OF assms(1) a] assms(2)
    by (cases e2) (auto simp: loadVCL_def Let_def o(2-4) abs u a split: if_splits)
qed

lemma onLoader_publishes:
  assumes "bus_laws env published"
  shows "if connection msg
    then \<exists>e. published (onLoader env l msg w) = published w @ [e] \<and> \<not> connection e \<and>
      (vcl_loaded e \<noteq> failure_of ''vcl-loader'' e) \<and> \<not> failure_of ''cache-starter'' e \<and> e \<noteq> EventReady \<and> e \<noteq> EventCacheStarted
    else published (onLoader env l msg w) = published w"
proof (cases "connection msg")
  case True
  obtain err w' where r: "loadVCL env l w = (err, w')" by fastforce
  have "published (le_publish env e w') = published w' @ [e]" for e using assms by (simp add: bus_laws_def)
  with True loadVCL_publishes[OF assms r] show ?thesis
    by (cases err) (auto simp: connection_iff onLoader_def r)
next
  case False
  then show ?thesis by (cases msg) (auto simp: onLoader_def)
qed

lemma onStarter_publishes:
  assumes "bus_laws env published" "onStarter env msg (st, w) = (st', w')"
  shows "if vcl_loaded msg
    then published w' = published w @ [EventCacheStarted, EventReady] \<or>
      (\<exists>err. published w' = published w @ [EventProcessError ''cache-starter'' err])
    else published w' = published w"
proof (cases "vcl_loaded msg")
  case True
  obtain r w1 where s: "Start (le_exec env) w = (r, w1)" by fastforce
  have "published w1 = published w" using assms(1) command_worlds(4)[of "le_exec env" w] s by (auto simp: bus_laws_def)
  moreover have "published (le_publish env e v) = published v @ [e]" for e v using assms(1) by (simp add: bus_laws_def)
  ultimately show ?thesis using True assms(2)
    by (auto simp: vcl_loaded_iff onStarter_def startCache_def s split: sum.splits if_splits)
next
  case False
  then show ?thesis using assms(2) by (cases msg) (auto simp: onStarter_def)
qed

section \<open>The ledger of events\<close>

definition ledger :: "('w \<Rightarrow> 'e Event list) \<Rightarrow> ('e, 'w) Startup \<Rightarrow> bool" where
  "ledger published s \<longleftrightarrow> (let evs = published (su_world s) in
     su_loader s \<le> length evs \<and> su_starterPos s \<le> length evs \<and>
     number vcl_loaded evs + number (failure_of ''vcl-loader'') evs + number connection (su_lost s) =
       number connection (take (su_loader s) evs) \<and>
     number (\<lambda>e. e = EventReady) evs + number (failure_of ''cache-starter'') evs + number vcl_loaded (su_lost s) =
       number vcl_loaded (take (su_starterPos s) evs) \<and>
     number (\<lambda>e. e = EventCacheStarted) evs = number (\<lambda>e. e = EventReady) evs \<and>
     length (su_lost s) = number connection (su_lost s) + number vcl_loaded (su_lost s))"

lemma not_both: "connection e \<Longrightarrow> \<not> vcl_loaded e"
  by (cases e) auto

lemma ledger_init: "published w = [] \<Longrightarrow> ledger published (startup_init subL subS w)"
  by (simp add: ledger_def startup_init_def)

lemma ledger_step:
  assumes laws: "bus_laws env published" and led: "ledger published s" and step: "startup_step env published l s e t"
  shows "ledger published t"
  using step
proof cases
  case (connects addr)
  then show ?thesis using led laws by (simp add: ledger_def bus_laws_def Let_def)
next
  case loader
  let ?evs = "published (su_world s)" and ?p = "su_loader s"
  have tk: "take (Suc ?p) ?evs = take ?p ?evs @ [?evs ! ?p]" using loader(4) by (rule take_Suc_conv_app_nth)
  note pub = onLoader_publishes[OF laws, of "?evs ! ?p" l "su_world s"]
  show ?thesis
  proof (cases "connection (?evs ! ?p)")
    case True
    with pub obtain e where e: "published (onLoader env l (?evs ! ?p) (su_world s)) = ?evs @ [e]" "\<not> connection e"
      "vcl_loaded e \<noteq> failure_of ''vcl-loader'' e" "\<not> failure_of ''cache-starter'' e" "e \<noteq> EventReady" "e \<noteq> EventCacheStarted"
      by auto
    show ?thesis using led loader e tk True by (auto simp: ledger_def Let_def)
  next
    case False
    then show ?thesis using led loader pub tk by (auto simp: ledger_def Let_def)
  qed
next
  case (starter st w)
  let ?evs = "published (su_world s)" and ?p = "su_starterPos s"
  have tk: "take (Suc ?p) ?evs = take ?p ?evs @ [?evs ! ?p]" using starter(4) by (rule take_Suc_conv_app_nth)
  note pub = onStarter_publishes[OF laws starter(5)]
  show ?thesis
  proof (cases "vcl_loaded (?evs ! ?p)")
    case True
    with pub have "published w = ?evs @ [EventCacheStarted, EventReady] \<or>
      (\<exists>err. published w = ?evs @ [EventProcessError ''cache-starter'' err])" by simp
    then show ?thesis using led starter tk True by (auto simp: ledger_def Let_def)
  next
    case False
    then show ?thesis using led starter pub tk by (auto simp: ledger_def Let_def)
  qed
next
  case loader_misses
  let ?evs = "published (su_world s)" and ?p = "su_loader s"
  have tk: "take (Suc ?p) ?evs = take ?p ?evs @ [?evs ! ?p]" using loader_misses(3) by (rule take_Suc_conv_app_nth)
  show ?thesis using led loader_misses tk not_both[of "?evs ! ?p"] by (auto simp: ledger_def Let_def)
next
  case starter_misses
  let ?evs = "published (su_world s)" and ?p = "su_starterPos s"
  have tk: "take (Suc ?p) ?evs = take ?p ?evs @ [?evs ! ?p]" using starter_misses(3) by (rule take_Suc_conv_app_nth)
  show ?thesis using led starter_misses tk not_both[of "?evs ! ?p"] by (auto simp: ledger_def Let_def)
qed

lemma ledger_run: "startup_run env published l s es t \<Longrightarrow> bus_laws env published \<Longrightarrow> ledger published s \<Longrightarrow> ledger published t"
  by (induction rule: startup_run.induct) (auto intro: ledger_step)

section \<open>The working directory\<close>

lemma loadVCL_restores:
  assumes "cwd_laws env home" "le_getwd env w = Inr home"
  shows "le_getwd env (snd (loadVCL env l w)) = Inr home"
proof -
  have restored: "le_getwd env (snd (le_chdir env home v)) = Inr home" for v using assms(1) by (simp add: cwd_laws_def)
  have "\<And>d err w1. le_chdir env d w = (Some err, w1) \<Longrightarrow> le_getwd env w1 = Inr home"
    using assms unfolding cwd_laws_def by (metis fst_conv snd_conv option.distinct(1))
  then show ?thesis using assms(2) restored
    by (auto simp: loadVCL_def Let_def split: sum.splits prod.splits option.splits)
qed

lemma handlers_keep_cwd:
  assumes "cwd_laws env home" "le_getwd env w = Inr home"
  shows "le_getwd env (onLoader env l msg w) = Inr home"
    and "onStarter env msg (st, w) = (st', w') \<Longrightarrow> le_getwd env w' = Inr home"
proof -
  have pub: "le_getwd env (le_publish env e v) = le_getwd env v" for e v using assms(1) by (simp add: cwd_laws_def)
  show "le_getwd env (onLoader env l msg w) = Inr home"
    using loadVCL_restores[OF assms, of l] assms(2) pub
    by (cases msg) (auto simp: onLoader_def split: prod.splits option.splits)
  have "le_getwd env (snd (Start (le_exec env) w)) = Inr home"
    using assms by (simp add: cwd_laws_def command_worlds)
  then show "onStarter env msg (st, w) = (st', w') \<Longrightarrow> le_getwd env w' = Inr home"
    using assms(2) pub
    by (cases msg) (auto simp: onStarter_def startCache_def split: prod.splits sum.splits option.splits if_splits)
qed

lemma run_keeps_cwd:
  "startup_run env published l s es t \<Longrightarrow> cwd_laws env home \<Longrightarrow> le_getwd env (su_world s) = Inr home \<Longrightarrow>
   le_getwd env (su_world t) = Inr home"
proof (induction rule: startup_run.induct)
  case (startup_snoc s es t e u)
  note t = startup_snoc.IH[OF startup_snoc.prems]
  from startup_snoc.hyps(2) show ?case
  proof cases
    case (connects addr)
    with t startup_snoc.prems(1) show ?thesis by (simp add: cwd_laws_def)
  next
    case loader
    with handlers_keep_cwd(1)[OF startup_snoc.prems(1) t] show ?thesis by simp
  next
    case (starter st w)
    with handlers_keep_cwd(2)[OF startup_snoc.prems(1) t starter(5)] show ?thesis by simp
  qed (use t in simp_all)
qed simp

section \<open>Settling\<close>

text \<open>Every handler call uses up more than it publishes.\<close>

definition loader_weight :: "'e Event \<Rightarrow> nat" where
  "loader_weight e = (if connection e then 7 else 1)"

definition starter_weight :: "'e Event \<Rightarrow> nat" where
  "starter_weight e = (if vcl_loaded e then 5 else 1)"

definition potential :: "('w \<Rightarrow> 'e Event list) \<Rightarrow> ('e, 'w) Startup \<Rightarrow> nat" where
  "potential published s =
     sum_list (map loader_weight (drop (su_loader s) (published (su_world s)))) +
     sum_list (map starter_weight (drop (su_starterPos s) (published (su_world s))))"

lemma handled_decreases:
  assumes laws: "bus_laws env published" and led: "ledger published s"
    and step: "startup_step env published l s e t" and e: "e = LoaderHandles \<or> e = StarterHandles"
  shows "potential published t < potential published s"
  using step
proof cases
  case loader
  let ?evs = "published (su_world s)" and ?p = "su_loader s"
  have dr: "drop ?p ?evs = ?evs ! ?p # drop (Suc ?p) ?evs" using loader(4) by (simp add: Cons_nth_drop_Suc)
  have "Suc ?p \<le> length ?evs" "su_starterPos s \<le> length ?evs" using loader(4) led by (auto simp: ledger_def Let_def)
  with onLoader_publishes[OF laws, of "?evs ! ?p" l "su_world s"] dr loader show ?thesis
    by (auto simp: potential_def loader_weight_def starter_weight_def split: if_splits)
next
  case (starter st w)
  let ?evs = "published (su_world s)" and ?p = "su_starterPos s"
  have dr: "drop ?p ?evs = ?evs ! ?p # drop (Suc ?p) ?evs" using starter(4) by (simp add: Cons_nth_drop_Suc)
  have "Suc ?p \<le> length ?evs" "su_loader s \<le> length ?evs" using starter(4) led by (auto simp: ledger_def Let_def)
  with onStarter_publishes[OF laws starter(5)] dr starter show ?thesis
    by (auto simp: potential_def loader_weight_def starter_weight_def split: if_splits)
qed (use e in simp_all)

text \<open>With both subscriptions in place a handler can run as long as there is an event left.\<close>

definition both_on :: "('e, 'w) Startup \<Rightarrow> bool" where
  "both_on s \<longleftrightarrow> su_loaderOn s \<and> su_starterOn s"

lemma unsettled_step:
  assumes "ledger published s" "\<not> settled published s" "both_on s"
  obtains e t where "startup_step env published l s e t" "e = LoaderHandles \<or> e = StarterHandles"
    "both_on t" "su_lost t = su_lost s"
proof (cases "su_loader s < length (published (su_world s))")
  case True
  with assms(3) show ?thesis
    by (intro that[OF startup_step.loader]) (simp_all add: both_on_def)
next
  case False
  then have "su_starterPos s < length (published (su_world s))"
    using assms by (auto simp: ledger_def settled_def Let_def)
  moreover obtain st w where "onStarter env (published (su_world s) ! su_starterPos s) (su_starter s, su_world s) = (st, w)"
    by fastforce
  ultimately show ?thesis using assms(3)
    by (intro that[OF startup_step.starter]) (simp_all add: both_on_def)
qed

lemma startup_cons:
  "startup_run env published l t es u \<Longrightarrow> startup_step env published l s e t \<Longrightarrow> startup_run env published l s (e # es) u"
proof (induction rule: startup_run.induct)
  case (startup_nil t)
  then show ?case using startup_run.startup_snoc[OF startup_run.startup_nil startup_nil] by simp
next
  case (startup_snoc t es u f v)
  then show ?case using startup_run.startup_snoc[of env published l s "e # es" u f v] by simp
qed

lemma can_settle:
  assumes "bus_laws env published" "ledger published s" "both_on s"
  shows "\<exists>es t. startup_run env published l s es t \<and> settled published t \<and> su_lost t = su_lost s \<and>
    set es \<subseteq> {LoaderHandles, StarterHandles}"
  using assms(2,3)
proof (induction "potential published s" arbitrary: s rule: less_induct)
  case less
  show ?case
  proof (cases "settled published s")
    case True
    then show ?thesis using startup_nil by (metis empty_subsetI list.set(1))
  next
    case False
    then obtain e t where e: "startup_step env published l s e t" "e = LoaderHandles \<or> e = StarterHandles"
      "both_on t" "su_lost t = su_lost s"
      using unsettled_step[OF less.prems(1) _ less.prems(2)] by blast
    then obtain es u where "startup_run env published l t es u" "settled published u" "su_lost u = su_lost t"
        "set es \<subseteq> {LoaderHandles, StarterHandles}"
      using less.hyps[OF handled_decreases[OF assms(1) less.prems(1) e(1)]] ledger_step[OF assms(1) less.prems(1) e(1)] by blast
    then show ?thesis using startup_cons[OF _ e(1)] e(2,4)
      by (intro exI[of _ "e # es"] exI[of _ u]) auto
  qed
qed

lemma run_keeps_subscriptions:
  "startup_run env published l s es t \<Longrightarrow> su_loaderOn t = su_loaderOn s \<and> su_starterOn t = su_starterOn s"
  by (induction rule: startup_run.induct) (auto elim!: startup_step.cases)

lemma run_loses:
  "startup_run env published l s es t \<Longrightarrow> LoaderMisses \<notin> set es \<Longrightarrow> StarterMisses \<notin> set es \<Longrightarrow> su_lost t = su_lost s"
  by (induction rule: startup_run.induct) (auto elim!: startup_step.cases)

section \<open>Properties\<close>

text \<open>
  C15. Start-up answers a connection of varnishd at most once, and exactly once unless an
  event is lost on the way: whatever varnishd replies and however the two subscribers
  interleave, once they have gone through the publications the connections are as many as the
  ready events, the error events and the lost events together, where an event is lost when the
  broker refuses or drops it, or the subscription had failed, and its handler so misses it
  (the code ignores these errors). Nothing is lost in a run without a miss, and when both
  subscriptions are in place the handlers can catch up without a further loss. A ready event
  comes with a cache-started event, and the working directory is the one the process had before.
\<close>

theorem each_connection_settles:
  assumes "bus_laws env published" "cwd_laws env home" "le_getwd env w = Inr home" "published w = []"
    and "startup_run env published l (startup_init subL subS w) es s"
  shows "number (\<lambda>e. e = EventReady) (published (su_world s)) +
      number (\<lambda>e. failure_of ''vcl-loader'' e \<or> failure_of ''cache-starter'' e) (published (su_world s)) +
      length (su_lost s) \<le> number connection (published (su_world s)) \<and>
    (settled published s \<longrightarrow>
      number (\<lambda>e. e = EventReady) (published (su_world s)) +
      number (\<lambda>e. failure_of ''vcl-loader'' e \<or> failure_of ''cache-starter'' e) (published (su_world s)) +
      length (su_lost s) = number connection (published (su_world s))) \<and>
    (LoaderMisses \<notin> set es \<and> StarterMisses \<notin> set es \<longrightarrow> su_lost s = []) \<and>
    (subL = None \<and> subS = None \<longrightarrow>
      (\<exists>es' t. startup_run env published l s es' t \<and> settled published t \<and> su_lost t = su_lost s \<and>
         set es' \<subseteq> {LoaderHandles, StarterHandles})) \<and>
    number (\<lambda>e. e = EventCacheStarted) (published (su_world s)) = number (\<lambda>e. e = EventReady) (published (su_world s)) \<and>
    le_getwd env (su_world s) = Inr home"
proof -
  let ?evs = "published (su_world s)"
  have led: "ledger published s" using ledger_run[OF assms(5,1) ledger_init[of published, OF assms(4)]] .
  have "\<not> (failure_of ''vcl-loader'' e \<and> failure_of ''cache-starter'' e)" for e by (cases e) auto
  then have f: "number (\<lambda>e. failure_of ''vcl-loader'' e \<or> failure_of ''cache-starter'' e) evs =
      number (failure_of ''vcl-loader'') evs + number (failure_of ''cache-starter'') evs" for evs
    by (induction evs) auto
  have le: "number P (take n evs) \<le> number P evs" for P n and evs :: "'a Event list"
    by (metis append_take_drop_id filter_append le_add1 length_append)
  have "le_getwd env (su_world s) = Inr home"
    using run_keeps_cwd[OF assms(5,2)] assms(3) by (simp add: startup_init_def)
  moreover have "both_on s" if "subL = None" "subS = None"
    using run_keeps_subscriptions[OF assms(5)] that by (simp add: both_on_def startup_init_def)
  moreover have "LoaderMisses \<notin> set es \<and> StarterMisses \<notin> set es \<longrightarrow> su_lost s = []"
    using run_loses[OF assms(5)] by (simp add: startup_init_def)
  moreover have "settled published s \<longrightarrow> number (\<lambda>e. e = EventReady) ?evs +
      number (\<lambda>e. failure_of ''vcl-loader'' e \<or> failure_of ''cache-starter'' e) ?evs +
      length (su_lost s) = number connection ?evs"
    using led by (auto simp: f ledger_def settled_def Let_def)
  moreover have "number (\<lambda>e. e = EventReady) ?evs +
      number (\<lambda>e. failure_of ''vcl-loader'' e \<or> failure_of ''cache-starter'' e) ?evs +
      length (su_lost s) \<le> number connection ?evs"
    using led le[of connection "su_loader s" ?evs] le[of vcl_loaded "su_starterPos s" ?evs]
    by (simp add: f ledger_def Let_def)
  moreover have "number (\<lambda>e. e = EventCacheStarted) ?evs = number (\<lambda>e. e = EventReady) ?evs"
    using led by (simp add: ledger_def Let_def)
  ultimately show ?thesis using can_settle[OF assms(1) led] by simp
qed

record demo_startup =
  ds_cwd :: string
  ds_bus :: "nat Event list"

definition demo_start_env :: "(nat, demo_startup) StartEnv" where
  "demo_start_env =
     \<lparr>le_exec = (\<lambda>cmd w. (if cmd = ''start'' then Inr \<lparr>statusCode = 300, payload = ''Child already running''\<rparr>
                          else Inr \<lparr>statusCode = 200, payload = []\<rparr>, w)),
      le_getwd = (\<lambda>w. Inr (ds_cwd w)),
      le_chdir = (\<lambda>d w. (None, w\<lparr>ds_cwd := d\<rparr>)),
      le_missing = (\<lambda>p w. False),
      le_publish = (\<lambda>e w. w\<lparr>ds_bus := ds_bus w @ [e]\<rparr>)\<rparr>"

lemma demo_show: "parseVCLShow [] = Inr \<lparr>vs_Entries = [], vs_ConfigMap = [], vs_VCLSource = []\<rparr>"
  by code_simp

theorem each_connection_settles_witness:
  "\<exists>s. startup_run demo_start_env ds_bus (loader_New ''/x/m.vcl'') (startup_init None None \<lparr>ds_cwd = ''/home'', ds_bus = []\<rparr>)
       [Connects ''a'', LoaderHandles, StarterHandles, StarterHandles] s \<and>
     ds_cwd (su_world s) = ''/home'' \<and> EventReady \<in> set (ds_bus (su_world s)) \<and>
     (\<exists>es' t. startup_run demo_start_env ds_bus (loader_New ''/x/m.vcl'') s es' t \<and> settled ds_bus t)"
proof -
  let ?w0 = "\<lparr>ds_cwd = ''/home'', ds_bus = []\<rparr>" and ?l = "loader_New ''/x/m.vcl''"
  have b: "bus_laws demo_start_env ds_bus" by (simp add: bus_laws_def demo_start_env_def)
  have c: "cwd_laws demo_start_env ''/home''" by (simp add: cwd_laws_def demo_start_env_def)
  let ?run = "\<lambda>es t. startup_run demo_start_env ds_bus ?l (startup_init None None ?w0) es t"
  have abs: "Abs (Inr ''/home'') ''/x/m.vcl'' = (Inr ''/x/m.vcl'' :: (nat, string) result)" by code_simp
  let ?loaded = "EventVCLLoaded ''boot'' ''/x/m.vcl'' \<lparr>vs_Entries = [], vs_ConfigMap = [], vs_VCLSource = []\<rparr>"
  let ?s1 = "(startup_init None None ?w0)\<lparr>su_world := ?w0\<lparr>ds_bus := [EventVarnishdConnected ''a'']\<rparr>\<rparr>"
  have r1: "?run ([] @ [Connects ''a'']) ?s1"
    using startup_snoc[OF startup_nil startup_step.connects, of demo_start_env ds_bus ?l "startup_init None None ?w0" "''a''"]
    by (simp add: startup_init_def demo_start_env_def)
  let ?s2 = "?s1\<lparr>su_loader := 1, su_world := ?w0\<lparr>ds_bus := [EventVarnishdConnected ''a'', ?loaded]\<rparr>\<rparr>"
  have "onLoader demo_start_env ?l (EventVarnishdConnected ''a'') (su_world ?s1) = su_world ?s2"
    by (simp add: onLoader_def loadVCL_def loadUnlessBoot_def activate_def loader_New_def demo_start_env_def abs
        VCLUse_def VCLShowStructured_def VCLShow_def structured_def ClisOk_def demo_show)
  then have r2: "?run (([] @ [Connects ''a'']) @ [LoaderHandles]) ?s2"
    using startup_snoc[OF r1 startup_step.loader] by (simp add: startup_init_def)
  let ?s3 = "?s2\<lparr>su_starterPos := 1\<rparr>"
  have r3: "?run ((([] @ [Connects ''a'']) @ [LoaderHandles]) @ [StarterHandles]) ?s3"
    using startup_snoc[OF r2 startup_step.starter, of "su_starter ?s2" "su_world ?s2"] by (simp add: startup_init_def onStarter_def)
  let ?st = "\<lparr>st_vclMapping = Some \<lparr>vs_Entries = [], vs_ConfigMap = [], vs_VCLSource = []\<rparr>\<rparr>"
  let ?w4 = "?w0\<lparr>ds_bus := [EventVarnishdConnected ''a'', ?loaded, EventCacheStarted, EventReady]\<rparr>"
  let ?s4 = "?s3\<lparr>su_starterPos := 2, su_starter := ?st, su_world := ?w4\<rparr>"
  have "onStarter demo_start_env ?loaded (starter_New, su_world ?s3) = (?st, ?w4)"
    by (simp add: onStarter_def startCache_def Start_def demo_start_env_def starter_New_def)
  then have r4: "?run (((([] @ [Connects ''a'']) @ [LoaderHandles]) @ [StarterHandles]) @ [StarterHandles]) ?s4"
    using startup_snoc[OF r3 startup_step.starter, of ?st ?w4] by (simp add: startup_init_def numeral_2_eq_2)
  have g: "le_getwd demo_start_env ?w0 = Inr ''/home''" "ds_bus ?w0 = []" by (simp_all add: demo_start_env_def)
  have "\<exists>es' t. startup_run demo_start_env ds_bus ?l ?s4 es' t \<and> settled ds_bus t"
    using each_connection_settles[OF b c g(1) g(2) r4] by auto
  with r4 show ?thesis by (intro exI[of _ ?s4]) simp
qed

end
