(* ===== verification/AdmMock.thy ===== *)
theory AdmMock
  imports AdmCommands
begin

text \<open>
  Package \<^verbatim>\<open>varnishadm\<close>, the mock (\<^verbatim>\<open>mock.go\<close>): predefined responses, the history of executed
  commands, and the transactions on TLS certificates. Every method holds the lock for its
  whole body, so a method is one step. Times are of type \<open>'t\<close>: \<open>expiry\<close> is the time a
  loaded certificate gets, \<open>formatTime\<close> the formatting of a time.
\<close>

section \<open>State\<close>

record 't MockVarnishadm =
  mv_Port :: int
  mv_Secret :: string
  mv_running :: bool
  mv_responses :: "(string, VarnishResponse) gomap"
  mv_callHistory :: "string list"
  mv_simulateDelay :: int
  mv_committed :: "(string, 't TLSCertEntry) gomap"
  mv_staged :: "(string, 't TLSCertEntry) gomap"
  mv_transaction :: bool

definition okResponse :: "string \<Rightarrow> VarnishResponse" where
  "okResponse p = \<lparr>statusCode = ClisOk, payload = p\<rparr>"

definition defaultResponses :: "(string \<times> VarnishResponse) list" where
  "defaultResponses =
     [(''ping'', okResponse ''PONG''),
      (''status'', okResponse ''Child in state running''),
      (''banner'', okResponse ''varnish-7.5.0 revision b14a3d38eb4d7887bce7fb98ffa6d4bd3b1b2e4e''),
      (''vcl.list'', okResponse (Join
         [''active      auto/warm          - vcl-api-orig (1 label)'',
          ''available   auto/warm          - vcl-catz-orig (1 label)'',
          ''available  label/warm          - label-api -> vcl-api-orig (1 return(vcl))'',
          ''available  label/warm          - label-catz -> vcl-catz-orig (1 return(vcl))'',
          ''available   auto/warm          - vcl-root-orig''] [newline])),
      (''tls.cert.list'', okResponse (Join
         [''Frontend State   Hostname         Certificate ID  Expiration date           OCSP stapling'',
          ''main     active  example.com      cert-001        2024-12-31 23:59:59       enabled'',
          ''api      active  api.example.com  cert-002        2024-11-30 12:00:00       disabled''] [newline])),
      (''backend.list'', okResponse (Join
         [''Backend name                   Admin      Probe      Health     Last change'',
          ''boot.default                   probe      Healthy    5/5        Wed, 22 Aug 2024 10:30:00 GMT''] [newline])),
      (''debug.listen_address'', okResponse (''a0 127.0.0.1 8080'' @ [newline]))]"

definition setDefaultResponses :: "'t MockVarnishadm \<Rightarrow> 't MockVarnishadm" where
  "setDefaultResponses m =
     m\<lparr>mv_responses := fold (\<lambda>(cmd, resp). mput cmd resp) defaultResponses (mv_responses m)\<rparr>"

definition NewMock :: "int \<Rightarrow> string \<Rightarrow> 't MockVarnishadm" where
  "NewMock port secret =
     setDefaultResponses \<lparr>mv_Port = port, mv_Secret = secret, mv_running = False, mv_responses = [],
       mv_callHistory = [], mv_simulateDelay = 0, mv_committed = [], mv_staged = [], mv_transaction = False\<rparr>"

definition mock_Listen :: "'t MockVarnishadm \<Rightarrow> int \<times> 't MockVarnishadm" where
  "mock_Listen m =
     (let m1 = (if mv_Port m = 0 then m\<lparr>mv_Port := 54321\<rparr> else m) in (mv_Port m1 mod 2 ^ 16, m1))"

definition mock_GetPort :: "'t MockVarnishadm \<Rightarrow> int" where
  "mock_GetPort m = mv_Port m mod 2 ^ 16"

text \<open>\<^verbatim>\<open>Run\<close>: running until the context is cancelled.\<close>

definition mock_RunBegin :: "'t MockVarnishadm \<Rightarrow> 't MockVarnishadm" where
  "mock_RunBegin m = m\<lparr>mv_running := True\<rparr>"

definition mock_RunEnd :: "'t MockVarnishadm \<Rightarrow> 't MockVarnishadm" where
  "mock_RunEnd m = m\<lparr>mv_running := False\<rparr>"

section \<open>TLS transactions\<close>

definition beginTransaction :: "'t MockVarnishadm \<Rightarrow> 't MockVarnishadm" where
  "beginTransaction m =
     (if \<not> mv_transaction m then m\<lparr>mv_staged := mv_committed m, mv_transaction := True\<rparr> else m)"

definition handleTLSCertLoad :: "'t \<Rightarrow> string \<Rightarrow> 't MockVarnishadm \<Rightarrow> VarnishResponse \<times> 't MockVarnishadm" where
  "handleTLSCertLoad expiry cmd m =
     (let parts = Fields cmd in
      if length parts < 3
      then (\<lparr>statusCode = ClisUnknown, payload = ''Usage: tls.cert.load <id> <path>''\<rparr>, m)
      else
        let certID = parts ! 1; m1 = beginTransaction m in
        if mget (mv_staged m1) certID \<noteq> None
        then (\<lparr>statusCode = 300, payload = ''Id: '' @ [quote_char] @ certID @ [quote_char] @ '' already exists''\<rparr>, m1)
        else
          (okResponse (''Certificate '' @ certID @ '' loaded''),
           m1\<lparr>mv_staged := mput certID
              \<lparr>tc_Frontend = ''main'', tc_State = ''active'', tc_Hostname = certID, tc_CertificateID = certID,
               tc_Expiration = Some expiry, tc_OCSPStapling = False\<rparr> (mv_staged m1)\<rparr>))"

definition handleTLSCertDiscard :: "string \<Rightarrow> 't MockVarnishadm \<Rightarrow> VarnishResponse \<times> 't MockVarnishadm" where
  "handleTLSCertDiscard cmd m =
     (let parts = Fields cmd in
      if length parts < 2
      then (\<lparr>statusCode = ClisUnknown, payload = ''Usage: tls.cert.discard <id>''\<rparr>, m)
      else
        let certID = parts ! 1; m1 = beginTransaction m in
        if mget (mv_staged m1) certID = None
        then (\<lparr>statusCode = 300,
               payload = ''Certificate '' @ [quote_char] @ certID @ [quote_char] @ '' not found''\<rparr>, m1)
        else (okResponse (''Certificate '' @ certID @ '' discarded''),
              m1\<lparr>mv_staged := mdel certID (mv_staged m1)\<rparr>))"

definition handleTLSCertCommit :: "'t MockVarnishadm \<Rightarrow> VarnishResponse \<times> 't MockVarnishadm" where
  "handleTLSCertCommit m =
     (if \<not> mv_transaction m then (okResponse ''No changes to commit'', m)
      else (okResponse ''TLS certificates committed'',
            m\<lparr>mv_committed := mv_staged m, mv_staged := [], mv_transaction := False\<rparr>))"

definition handleTLSCertRollback :: "'t MockVarnishadm \<Rightarrow> VarnishResponse \<times> 't MockVarnishadm" where
  "handleTLSCertRollback m =
     (if \<not> mv_transaction m then (okResponse ''No changes to rollback'', m)
      else (okResponse ''TLS certificate changes rolled back'',
            m\<lparr>mv_staged := [], mv_transaction := False\<rparr>))"

text \<open>\<open>zeroTime\<close> is the formatted zero time, for an entry without an expiration.\<close>

definition certLine :: "('t \<Rightarrow> string) \<Rightarrow> string \<Rightarrow> 't TLSCertEntry \<Rightarrow> string" where
  "certLine formatTime zeroTime cert =
     Join [padRight 8 (if tc_Frontend cert = [] then ''default'' else tc_Frontend cert),
           padRight 7 (tc_State cert), padRight 16 (tc_Hostname cert), padRight 15 (tc_CertificateID cert),
           padRight 25 (case tc_Expiration cert of None \<Rightarrow> zeroTime | Some t \<Rightarrow> formatTime t),
           if tc_OCSPStapling cert then ''true'' else ''false''] '' ''"

definition handleTLSCertList ::
  "('t \<Rightarrow> string) \<Rightarrow> string \<Rightarrow> 't MockVarnishadm \<Rightarrow> VarnishResponse \<times> 't MockVarnishadm" where
  "handleTLSCertList formatTime zeroTime m =
     (okResponse (Join
        (''Frontend State   Hostname         Certificate ID  Expiration date           OCSP stapling'' #
         map (\<lambda>(cid, cert). certLine formatTime zeroTime cert) (mv_committed m)) [newline]), m)"

definition SetTLSState :: "'t TLSCertEntry list \<Rightarrow> 't MockVarnishadm \<Rightarrow> 't MockVarnishadm" where
  "SetTLSState certs m =
     m\<lparr>mv_committed := fold (\<lambda>cert. mput (tc_CertificateID cert) cert) certs [],
       mv_staged := [], mv_transaction := False\<rparr>"

definition GetTLSState :: "'t MockVarnishadm \<Rightarrow> 't TLSCertEntry list" where
  "GetTLSState m = map snd (mv_committed m)"

section \<open>Executing a command\<close>

definition mock_respond ::
  "'t \<Rightarrow> ('t \<Rightarrow> string) \<Rightarrow> string \<Rightarrow> string \<Rightarrow> 't MockVarnishadm \<Rightarrow> VarnishResponse \<times> 't MockVarnishadm" where
  "mock_respond expiry formatTime zeroTime cmd m =
     (case (case mget (mv_responses m) cmd of
              Some resp \<Rightarrow> if statusCode resp \<noteq> ClisOk then Some resp else None
            | None \<Rightarrow> None) of
        Some resp \<Rightarrow> (resp, m)
      | None \<Rightarrow>
          if HasPrefix cmd ''tls.cert.load '' then handleTLSCertLoad expiry cmd m
          else if HasPrefix cmd ''tls.cert.discard '' then handleTLSCertDiscard cmd m
          else if cmd = ''tls.cert.commit'' then handleTLSCertCommit m
          else if cmd = ''tls.cert.rollback'' then handleTLSCertRollback m
          else if cmd = ''tls.cert.list'' then handleTLSCertList formatTime zeroTime m
          else
            (case mget (mv_responses m) cmd of
               Some resp \<Rightarrow> (resp, m)
             | None \<Rightarrow>
                 if HasPrefix cmd ''vcl.load'' then (okResponse ''VCL compiled'', m)
                 else if HasPrefix cmd ''vcl.use'' then
                   (okResponse (''VCL '' @ [CHR 0x27] @ TrimPrefix cmd ''vcl.use '' @ [CHR 0x27] @ '' now active''), m)
                 else (\<lparr>statusCode = ClisUnknown, payload = ''Unknown request: '' @ cmd\<rparr>, m)))"

definition mock_Exec ::
  "'t \<Rightarrow> ('t \<Rightarrow> string) \<Rightarrow> string \<Rightarrow> (string, 't MockVarnishadm) executor" where
  "mock_Exec expiry formatTime zeroTime cmd m =
     (let m1 = m\<lparr>mv_callHistory := mv_callHistory m @ [cmd]\<rparr>;
          (resp, m2) = mock_respond expiry formatTime zeroTime cmd m1
      in (Inr resp, m2))"

definition SetResponse :: "string \<Rightarrow> VarnishResponse \<Rightarrow> 't MockVarnishadm \<Rightarrow> 't MockVarnishadm" where
  "SetResponse cmd response m = m\<lparr>mv_responses := mput cmd response (mv_responses m)\<rparr>"

definition GetCallHistory :: "'t MockVarnishadm \<Rightarrow> string list" where
  "GetCallHistory m = mv_callHistory m"

definition ClearCallHistory :: "'t MockVarnishadm \<Rightarrow> 't MockVarnishadm" where
  "ClearCallHistory m = m\<lparr>mv_callHistory := []\<rparr>"

definition SetDelay :: "int \<Rightarrow> 't MockVarnishadm \<Rightarrow> 't MockVarnishadm" where
  "SetDelay delay m = m\<lparr>mv_simulateDelay := delay\<rparr>"

definition mock_IsRunning :: "'t MockVarnishadm \<Rightarrow> bool" where
  "mock_IsRunning m = mv_running m"

definition mock_BanNukeCache :: "('e, 's) executor \<Rightarrow> 's \<Rightarrow> ('e, VarnishResponse) result \<times> 's" where
  "mock_BanNukeCache exec s = exec ''ban.nuke'' s"

text \<open>
  The command methods of the mock, each over its own executor. They are written out once more in
  \<^verbatim>\<open>mock.go\<close>; apart from \<^verbatim>\<open>BanNukeCache\<close> they send the commands of the server.
\<close>

definition mock_Ping :: "('e, 's) executor \<Rightarrow> 's \<Rightarrow> ('e, VarnishResponse) result \<times> 's" where
  "mock_Ping exec s = exec ''ping'' s"

definition mock_Status :: "('e, 's) executor \<Rightarrow> 's \<Rightarrow> ('e, VarnishResponse) result \<times> 's" where
  "mock_Status exec s = exec ''status'' s"

definition mock_Start :: "('e, 's) executor \<Rightarrow> 's \<Rightarrow> ('e, VarnishResponse) result \<times> 's" where
  "mock_Start exec s = exec ''start'' s"

definition mock_StopCmd :: "('e, 's) executor \<Rightarrow> 's \<Rightarrow> ('e, VarnishResponse) result \<times> 's" where
  "mock_StopCmd exec s = exec ''stop'' s"

definition mock_PanicShow :: "('e, 's) executor \<Rightarrow> 's \<Rightarrow> ('e, VarnishResponse) result \<times> 's" where
  "mock_PanicShow exec s = exec ''panic.show'' s"

definition mock_PanicClear :: "('e, 's) executor \<Rightarrow> 's \<Rightarrow> ('e, VarnishResponse) result \<times> 's" where
  "mock_PanicClear exec s = exec ''panic.clear'' s"

definition mock_VCLList :: "('e, 's) executor \<Rightarrow> 's \<Rightarrow> ('e, VarnishResponse) result \<times> 's" where
  "mock_VCLList exec s = exec ''vcl.list'' s"

definition mock_TLSCertList :: "('e, 's) executor \<Rightarrow> 's \<Rightarrow> ('e, VarnishResponse) result \<times> 's" where
  "mock_TLSCertList exec s = exec ''tls.cert.list'' s"

definition mock_TLSCertCommit :: "('e, 's) executor \<Rightarrow> 's \<Rightarrow> ('e, VarnishResponse) result \<times> 's" where
  "mock_TLSCertCommit exec s = exec ''tls.cert.commit'' s"

definition mock_TLSCertRollback :: "('e, 's) executor \<Rightarrow> 's \<Rightarrow> ('e, VarnishResponse) result \<times> 's" where
  "mock_TLSCertRollback exec s = exec ''tls.cert.rollback'' s"

definition mock_TLSCertReload :: "('e, 's) executor \<Rightarrow> 's \<Rightarrow> ('e, VarnishResponse) result \<times> 's" where
  "mock_TLSCertReload exec s = exec ''tls.cert.reload'' s"

definition mock_DebugListenAddress :: "('e, 's) executor \<Rightarrow> 's \<Rightarrow> ('e, VarnishResponse) result \<times> 's" where
  "mock_DebugListenAddress exec s = exec ''debug.listen_address'' s"

definition mock_VCLUse :: "('e, 's) executor \<Rightarrow> string \<Rightarrow> 's \<Rightarrow> ('e, VarnishResponse) result \<times> 's" where
  "mock_VCLUse exec name s = exec (''vcl.use '' @ name) s"

definition mock_VCLDiscard :: "('e, 's) executor \<Rightarrow> string \<Rightarrow> 's \<Rightarrow> ('e, VarnishResponse) result \<times> 's" where
  "mock_VCLDiscard exec name s = exec (''vcl.discard '' @ name) s"

definition mock_VCLShow :: "('e, 's) executor \<Rightarrow> string \<Rightarrow> 's \<Rightarrow> ('e, VarnishResponse) result \<times> 's" where
  "mock_VCLShow exec name s = exec (''vcl.show -v '' @ name) s"

definition mock_TLSCertDiscard :: "('e, 's) executor \<Rightarrow> string \<Rightarrow> 's \<Rightarrow> ('e, VarnishResponse) result \<times> 's" where
  "mock_TLSCertDiscard exec cid s = exec (''tls.cert.discard '' @ cid) s"

definition mock_VCLLoad :: "('e, 's) executor \<Rightarrow> string \<Rightarrow> string \<Rightarrow> 's \<Rightarrow> ('e, VarnishResponse) result \<times> 's" where
  "mock_VCLLoad exec name path s = exec (''vcl.load '' @ name @ '' '' @ path) s"

definition mock_TLSCertLoad :: "('e, 's) executor \<Rightarrow> string \<Rightarrow> string \<Rightarrow> 's \<Rightarrow> ('e, VarnishResponse) result \<times> 's" where
  "mock_TLSCertLoad exec name certFile s = exec (''tls.cert.load '' @ name @ '' '' @ certFile) s"

definition mock_VCLListStructured :: "('e, 's) executor \<Rightarrow> 's \<Rightarrow> ('e CmdError, VCLEntry list) result \<times> 's" where
  "mock_VCLListStructured exec s =
     (case exec ''vcl.list'' s of
        (Inl err, s1) \<Rightarrow> (Inl (ExecError err), s1)
      | (Inr resp, s1) \<Rightarrow>
          if statusCode resp \<noteq> ClisOk then (Inl (CommandFailed ''vcl.list'' (statusCode resp) (payload resp)), s1)
          else (map_sum OutputError id (parseVCLList (payload resp)), s1))"

definition mock_VCLShowStructured ::
  "('e, 's) executor \<Rightarrow> string \<Rightarrow> 's \<Rightarrow> ('e CmdError, VCLShowResult) result \<times> 's" where
  "mock_VCLShowStructured exec name s =
     (case mock_VCLShow exec name s of
        (Inl err, s1) \<Rightarrow> (Inl (ExecError err), s1)
      | (Inr resp, s1) \<Rightarrow>
          if statusCode resp \<noteq> ClisOk then (Inl (CommandFailed ''vcl.show -v'' (statusCode resp) (payload resp)), s1)
          else (map_sum ShowOutputError id (parseVCLShow (payload resp)), s1))"

definition mock_ParamShow :: "('e, 's) executor \<Rightarrow> string \<Rightarrow> 's \<Rightarrow> ('e, VarnishResponse) result \<times> 's" where
  "mock_ParamShow exec name s =
     (if name = [] then exec ''param.show'' s else exec (''param.show '' @ name) s)"

definition mock_ParamSet ::
  "('e, 's) executor \<Rightarrow> string \<Rightarrow> string \<Rightarrow> 's \<Rightarrow>
   ('e CmdError \<times> VarnishResponse option, VarnishResponse) result \<times> 's" where
  "mock_ParamSet exec name value s =
     (case exec (''param.set '' @ name @ '' '' @ value) s of
        (Inl err, s1) \<Rightarrow> (Inl (ExecError err, None), s1)
      | (Inr resp, s1) \<Rightarrow>
          if statusCode resp \<noteq> ClisOk
          then (Inl (CommandFailed (''param.set '' @ name) (statusCode resp) (payload resp), Some resp), s1)
          else (Inr resp, s1))"

definition mock_TLSCertListStructured ::
  "(string \<Rightarrow> string) \<Rightarrow> (string \<Rightarrow> 't option) \<Rightarrow> ('e, 's) executor \<Rightarrow> 's \<Rightarrow>
   ('e CmdError, 't TLSCertEntry list) result \<times> 's" where
  "mock_TLSCertListStructured uni parseTime exec s =
     (case exec ''tls.cert.list'' s of
        (Inl err, s1) \<Rightarrow> (Inl (ExecError err), s1)
      | (Inr resp, s1) \<Rightarrow>
          if statusCode resp \<noteq> ClisOk then (Inl (CommandFailed ''tls.cert.list'' (statusCode resp) (payload resp)), s1)
          else (map_sum OutputError id (parseTLSCertList uni parseTime (payload resp)), s1))"

definition mock_DebugListenAddressStructured ::
  "('e, 's) executor \<Rightarrow> 's \<Rightarrow> ('e CmdError, ListenAddress list) result \<times> 's" where
  "mock_DebugListenAddressStructured exec s =
     (case mock_DebugListenAddress exec s of
        (Inl err, s1) \<Rightarrow> (Inl (ExecError err), s1)
      | (Inr resp, s1) \<Rightarrow>
          if statusCode resp \<noteq> ClisOk then (Inl (CommandFailed ''debug.listen_address'' (statusCode resp) (payload resp)), s1)
          else (map_sum OutputError id (parseListenAddresses (payload resp)), s1))"

lemmas mock_command_defs =
  mock_Ping_def Ping_def mock_Status_def Status_def mock_Start_def Start_def mock_StopCmd_def StopCmd_def mock_PanicShow_def PanicShow_def mock_PanicClear_def PanicClear_def mock_VCLList_def VCLList_def mock_TLSCertList_def TLSCertList_def mock_TLSCertCommit_def TLSCertCommit_def mock_TLSCertRollback_def TLSCertRollback_def mock_TLSCertReload_def TLSCertReload_def mock_DebugListenAddress_def DebugListenAddress_def mock_VCLUse_def VCLUse_def mock_VCLDiscard_def VCLDiscard_def mock_VCLShow_def VCLShow_def mock_TLSCertDiscard_def TLSCertDiscard_def mock_VCLLoad_def VCLLoad_def mock_TLSCertLoad_def TLSCertLoad_def mock_ParamShow_def ParamShow_def mock_ParamSet_def ParamSet_def

lemma mock_commands_as_server:
  "mock_Ping = Ping"
  "mock_Status = Status"
  "mock_Start = Start"
  "mock_StopCmd = StopCmd"
  "mock_PanicShow = PanicShow"
  "mock_PanicClear = PanicClear"
  "mock_VCLList = VCLList"
  "mock_TLSCertList = TLSCertList"
  "mock_TLSCertCommit = TLSCertCommit"
  "mock_TLSCertRollback = TLSCertRollback"
  "mock_TLSCertReload = TLSCertReload"
  "mock_DebugListenAddress = DebugListenAddress"
  "mock_VCLUse = VCLUse"
  "mock_VCLDiscard = VCLDiscard"
  "mock_VCLShow = VCLShow"
  "mock_TLSCertDiscard = TLSCertDiscard"
  "mock_VCLLoad = VCLLoad"
  "mock_TLSCertLoad = TLSCertLoad"
  "mock_ParamShow = ParamShow"
  "mock_ParamSet = ParamSet"
  "mock_VCLListStructured = VCLListStructured"
  "mock_VCLShowStructured = VCLShowStructured"
  "mock_DebugListenAddressStructured = DebugListenAddressStructured"
  "mock_TLSCertListStructured uni parseTime = TLSCertListStructured uni parseTime"
  by (auto simp: fun_eq_iff mock_command_defs structured_def mock_VCLListStructured_def VCLListStructured_def
      mock_VCLShowStructured_def VCLShowStructured_def mock_DebugListenAddressStructured_def DebugListenAddressStructured_def
      mock_TLSCertListStructured_def TLSCertListStructured_def split: sum.split)

section \<open>The mock implements the interface\<close>

lemma begin_history [simp]: "mv_callHistory (beginTransaction m) = mv_callHistory m"
  by (simp add: beginTransaction_def)

lemma handler_history [simp]:
  "mv_callHistory (snd (handleTLSCertLoad expiry cmd m)) = mv_callHistory m"
  "mv_callHistory (snd (handleTLSCertDiscard cmd m)) = mv_callHistory m"
  "mv_callHistory (snd (handleTLSCertCommit m)) = mv_callHistory m"
  "mv_callHistory (snd (handleTLSCertRollback m)) = mv_callHistory m"
  "mv_callHistory (snd (handleTLSCertList ft zt m)) = mv_callHistory m"
  by (simp_all add: handleTLSCertLoad_def handleTLSCertDiscard_def handleTLSCertCommit_def
      handleTLSCertRollback_def handleTLSCertList_def Let_def)

text \<open>A response is either predefined, a static one, or that of a handler.\<close>

lemma mock_respond_cases:
  "snd (mock_respond expiry ft zt cmd m) \<in>
     {m, snd (handleTLSCertLoad expiry cmd m), snd (handleTLSCertDiscard cmd m),
      snd (handleTLSCertCommit m), snd (handleTLSCertRollback m), snd (handleTLSCertList ft zt m)}"
proof -
  have "snd (case x of None \<Rightarrow> if b then (r1, m) else if c then (r2, m) else (r3, m) | Some r \<Rightarrow> (r, m)) = m"
    for x :: "VarnishResponse option" and b c r1 r2 r3 by (simp split: option.split)
  then show ?thesis
    unfolding mock_respond_def
    by (cases "mget (mv_responses m) cmd") (simp_all only: option.case if_split insert_iff split: if_split, auto)
qed

lemma mock_respond_history:
  "mv_callHistory (snd (mock_respond expiry ft zt cmd m)) = mv_callHistory m"
  using mock_respond_cases[of expiry ft zt cmd m] by auto

interpretation mk: cli_log "mock_Exec expiry formatTime zeroTime" mv_callHistory "\<lambda>m. True"
  for expiry formatTime zeroTime
  by unfold_locales
     (auto simp: mock_Exec_def Let_def case_prod_beta mock_respond_history)

section \<open>The certificate store as a specification\<close>

text \<open>
  The certificates in use, and while a transaction is open the ones it would leave.
\<close>

record 't CertStore =
  live :: "string \<Rightarrow> 't TLSCertEntry option"
  pending :: "(string \<Rightarrow> 't TLSCertEntry option) option"

datatype TLSCmd = LoadCert string string | DiscardCert string | CommitCerts | RollbackCerts

definition working :: "'t CertStore \<Rightarrow> string \<Rightarrow> 't TLSCertEntry option" where
  "working s = (case pending s of Some p \<Rightarrow> p | None \<Rightarrow> live s)"

definition newCert :: "'t \<Rightarrow> string \<Rightarrow> 't TLSCertEntry" where
  "newCert expiry cid = \<lparr>tc_Frontend = ''main'', tc_State = ''active'', tc_Hostname = cid,
     tc_CertificateID = cid, tc_Expiration = Some expiry, tc_OCSPStapling = False\<rparr>"

fun tls_spec :: "'t \<Rightarrow> TLSCmd \<Rightarrow> 't CertStore \<Rightarrow> int \<times> 't CertStore" where
  "tls_spec expiry (LoadCert cid file) s =
     (if working s cid \<noteq> None then (300, s\<lparr>pending := Some (working s)\<rparr>)
      else (200, s\<lparr>pending := Some ((working s)(cid := Some (newCert expiry cid)))\<rparr>))"
| "tls_spec expiry (DiscardCert cid) s =
     (if working s cid = None then (300, s\<lparr>pending := Some (working s)\<rparr>)
      else (200, s\<lparr>pending := Some ((working s)(cid := None))\<rparr>))"
| "tls_spec expiry CommitCerts s = (200, \<lparr>live = working s, pending = None\<rparr>)"
| "tls_spec expiry RollbackCerts s = (200, s\<lparr>pending := None\<rparr>)"

fun tls_line :: "TLSCmd \<Rightarrow> string" where
  "tls_line (LoadCert cid file) = ''tls.cert.load '' @ cid @ '' '' @ file"
| "tls_line (DiscardCert cid) = ''tls.cert.discard '' @ cid"
| "tls_line CommitCerts = ''tls.cert.commit''"
| "tls_line RollbackCerts = ''tls.cert.rollback''"

fun tls_words :: "TLSCmd \<Rightarrow> bool" where
  "tls_words (LoadCert cid file) \<longleftrightarrow> list_all is_graph cid \<and> cid \<noteq> [] \<and> list_all is_graph file \<and> file \<noteq> []"
| "tls_words (DiscardCert cid) \<longleftrightarrow> list_all is_graph cid \<and> cid \<noteq> []"
| "tls_words c \<longleftrightarrow> True"

definition abs_certs :: "'t MockVarnishadm \<Rightarrow> 't CertStore" where
  "abs_certs m = \<lparr>live = mget (mv_committed m),
     pending = (if mv_transaction m then Some (mget (mv_staged m)) else None)\<rparr>"

definition tls_inv :: "'t MockVarnishadm \<Rightarrow> bool" where
  "tls_inv m \<longleftrightarrow> wf_map (mv_committed m) \<and> wf_map (mv_staged m) \<and>
     (\<forall>cmd r. mget (mv_responses m) cmd = Some r \<longrightarrow> statusCode r = ClisOk)"

lemma graph_literals:
  "list_all is_graph ''tls.cert.load''" "list_all is_graph ''tls.cert.discard''"
  by (simp_all add: is_graph_def byte_def)

lemma load_fields:
  assumes "tls_words (LoadCert cid file)"
  shows "Fields (tls_line (LoadCert cid file)) = [''tls.cert.load'', cid, file]"
proof -
  have ws: "list_all is_graph w \<and> w \<noteq> []" if "w \<in> set [''tls.cert.load'', cid, file]" for w
  proof -
    from that consider "w = ''tls.cert.load''" | "w = cid" | "w = file" by auto
    then show ?thesis using assms graph_literals(1) by cases auto
  qed
  from Fields_Join_words[of "[''tls.cert.load'', cid, file]", OF ws] show ?thesis by simp
qed

lemma discard_fields:
  assumes "tls_words (DiscardCert cid)"
  shows "Fields (tls_line (DiscardCert cid)) = [''tls.cert.discard'', cid]"
proof -
  have ws: "list_all is_graph w \<and> w \<noteq> []" if "w \<in> set [''tls.cert.discard'', cid]" for w
  proof -
    from that consider "w = ''tls.cert.discard''" | "w = cid" by auto
    then show ?thesis using assms graph_literals(2) by cases auto
  qed
  from Fields_Join_words[of "[''tls.cert.discard'', cid]", OF ws] show ?thesis by simp
qed

lemma begin_abs:
  "abs_certs (beginTransaction m) = (abs_certs m)\<lparr>pending := Some (working (abs_certs m))\<rparr>"
  "mget (mv_staged (beginTransaction m)) = working (abs_certs m)"
  "mv_transaction (beginTransaction m)"
  "mv_responses (beginTransaction m) = mv_responses m"
  "tls_inv m \<Longrightarrow> tls_inv (beginTransaction m)"
  by (simp_all add: beginTransaction_def abs_certs_def working_def tls_inv_def)

text \<open>Which handler a TLS command reaches.\<close>

lemma dispatch_tls:
  assumes "tls_inv m"
  shows "mock_respond expiry ft zt (tls_line (LoadCert cid file)) m = handleTLSCertLoad expiry (tls_line (LoadCert cid file)) m"
    "mock_respond expiry ft zt (tls_line (DiscardCert cid)) m = handleTLSCertDiscard (tls_line (DiscardCert cid)) m"
    "mock_respond expiry ft zt (tls_line CommitCerts) m = handleTLSCertCommit m"
    "mock_respond expiry ft zt (tls_line RollbackCerts) m = handleTLSCertRollback m"
proof -
  have no: "(case mget (mv_responses m) cmd of
              Some resp \<Rightarrow> if statusCode resp \<noteq> ClisOk then Some resp else None
            | None \<Rightarrow> None) = None" for cmd
    using assms by (auto simp: tls_inv_def split: option.split)
  show "mock_respond expiry ft zt (tls_line (LoadCert cid file)) m = handleTLSCertLoad expiry (tls_line (LoadCert cid file)) m"
    "mock_respond expiry ft zt (tls_line (DiscardCert cid)) m = handleTLSCertDiscard (tls_line (DiscardCert cid)) m"
    "mock_respond expiry ft zt (tls_line CommitCerts) m = handleTLSCertCommit m"
    "mock_respond expiry ft zt (tls_line RollbackCerts) m = handleTLSCertRollback m"
    unfolding mock_respond_def no option.case by (simp_all add: HasPrefix_def)
qed

lemma load_refines:
  assumes "tls_inv m" "tls_words (LoadCert cid file)"
    and "handleTLSCertLoad expiry (tls_line (LoadCert cid file)) m = (resp, m')"
  shows "tls_spec expiry (LoadCert cid file) (abs_certs m) = (statusCode resp, abs_certs m') \<and> tls_inv m'"
proof -
  let ?m1 = "beginTransaction m"
  have st: "mget (mv_staged ?m1) cid = working (abs_certs m) cid" by (simp add: begin_abs)
  show ?thesis
  proof (cases "working (abs_certs m) cid = None")
    case True
    then have "m' = ?m1\<lparr>mv_staged := mput cid (newCert expiry cid) (mv_staged ?m1)\<rparr>" "statusCode resp = 200"
      using assms(3) st
      by (auto simp: handleTLSCertLoad_def load_fields[OF assms(2)] Let_def newCert_def okResponse_def ClisOk_def
          simp del: tls_line.simps)
    moreover have "mget (mput cid (newCert expiry cid) (mv_staged ?m1)) = (working (abs_certs m))(cid := Some (newCert expiry cid))"
      by (auto simp: fun_eq_iff begin_abs(2))
    ultimately show ?thesis
      using True begin_abs(1,3,5)[of m] assms(1) by (auto simp: abs_certs_def tls_inv_def)
  next
    case False
    then have "m' = ?m1" "statusCode resp = 300"
      using assms(3) st
      by (auto simp: handleTLSCertLoad_def load_fields[OF assms(2)] Let_def simp del: tls_line.simps)
    with False show ?thesis using assms(1) by (simp add: begin_abs)
  qed
qed

lemma discard_refines:
  assumes "tls_inv m" "tls_words (DiscardCert cid)"
    and "handleTLSCertDiscard (tls_line (DiscardCert cid)) m = (resp, m')"
  shows "tls_spec expiry (DiscardCert cid) (abs_certs m) = (statusCode resp, abs_certs m') \<and> tls_inv m'"
proof -
  let ?m1 = "beginTransaction m"
  have st: "mget (mv_staged ?m1) cid = working (abs_certs m) cid" by (simp add: begin_abs)
  show ?thesis
  proof (cases "working (abs_certs m) cid = None")
    case True
    then have "m' = ?m1" "statusCode resp = 300"
      using assms(3) st
      by (auto simp: handleTLSCertDiscard_def discard_fields[OF assms(2)] Let_def simp del: tls_line.simps)
    with True show ?thesis using assms(1) by (simp add: begin_abs)
  next
    case False
    then have "m' = ?m1\<lparr>mv_staged := mdel cid (mv_staged ?m1)\<rparr>" "statusCode resp = 200"
      using assms(3) st
      by (auto simp: handleTLSCertDiscard_def discard_fields[OF assms(2)] Let_def okResponse_def ClisOk_def
          simp del: tls_line.simps)
    moreover have "wf_map (mv_staged ?m1)" using begin_abs(5)[OF assms(1)] by (simp add: tls_inv_def)
    moreover from this have "mget (mdel cid (mv_staged ?m1)) = (working (abs_certs m))(cid := None)"
      by (auto simp: fun_eq_iff begin_abs(2))
    ultimately show ?thesis
      using False begin_abs(1,3,5)[of m] assms(1) by (auto simp: abs_certs_def tls_inv_def)
  qed
qed

lemma tls_refines_step:
  assumes "tls_inv m" "tls_words c" "mock_Exec expiry ft zt (tls_line c) m = (Inr resp, m')"
  shows "tls_spec expiry c (abs_certs m) = (statusCode resp, abs_certs m') \<and> tls_inv m'"
proof -
  let ?m = "m\<lparr>mv_callHistory := mv_callHistory m @ [tls_line c]\<rparr>"
  have inv: "tls_inv ?m" and abs: "abs_certs ?m = abs_certs m" using assms(1) by (simp_all add: tls_inv_def abs_certs_def)
  have r: "mock_respond expiry ft zt (tls_line c) ?m = (resp, m')"
    using assms(3) by (simp add: mock_Exec_def Let_def split: prod.splits)
  show ?thesis
  proof (cases c)
    case (LoadCert cid f)
    with r have "handleTLSCertLoad expiry (tls_line (LoadCert cid f)) ?m = (resp, m')"
      using dispatch_tls(1)[OF inv] by metis
    from load_refines[OF inv _ this] assms(2) show ?thesis unfolding LoadCert abs[unfolded LoadCert] by blast
  next
    case (DiscardCert cid)
    with r have "handleTLSCertDiscard (tls_line (DiscardCert cid)) ?m = (resp, m')"
      using dispatch_tls(2)[OF inv] by metis
    from discard_refines[OF inv _ this] assms(2) show ?thesis unfolding DiscardCert abs[unfolded DiscardCert] by blast
  next
    case CommitCerts
    with r have "handleTLSCertCommit ?m = (resp, m')" using dispatch_tls(3)[OF inv] by metis
    with CommitCerts inv show ?thesis
      by (auto simp: handleTLSCertCommit_def abs_certs_def working_def okResponse_def ClisOk_def tls_inv_def split: if_splits)
  next
    case RollbackCerts
    with r have "handleTLSCertRollback ?m = (resp, m')" using dispatch_tls(4)[OF inv] by metis
    with RollbackCerts inv show ?thesis
      by (auto simp: handleTLSCertRollback_def abs_certs_def okResponse_def ClisOk_def tls_inv_def split: if_splits)
  qed
qed

lemma mock_Exec_total: "\<exists>resp m'. mock_Exec expiry ft zt cmd m = (Inr resp, m')"
  by (simp add: mock_Exec_def Let_def case_prod_beta)

text \<open>Executing a list of TLS commands, and the same on the specification.\<close>

fun exec_tls :: "'t \<Rightarrow> ('t \<Rightarrow> string) \<Rightarrow> string \<Rightarrow> TLSCmd list \<Rightarrow> 't MockVarnishadm \<Rightarrow> 't MockVarnishadm" where
  "exec_tls expiry ft zt [] m = m"
| "exec_tls expiry ft zt (c # cs) m = exec_tls expiry ft zt cs (snd (mock_Exec expiry ft zt (tls_line c) m))"

definition spec_tls :: "'t \<Rightarrow> TLSCmd list \<Rightarrow> 't CertStore \<Rightarrow> 't CertStore" where
  "spec_tls expiry cs s = fold (\<lambda>c s. snd (tls_spec expiry c s)) cs s"

lemma exec_tls_refines:
  "tls_inv m \<Longrightarrow> list_all tls_words cs \<Longrightarrow>
   abs_certs (exec_tls expiry ft zt cs m) = spec_tls expiry cs (abs_certs m) \<and> tls_inv (exec_tls expiry ft zt cs m)"
proof (induction cs arbitrary: m)
  case Nil
  then show ?case by (simp add: spec_tls_def)
next
  case (Cons c cs)
  obtain resp m' where e: "mock_Exec expiry ft zt (tls_line c) m = (Inr resp, m')"
    by (metis mock_Exec_total)
  have "tls_spec expiry c (abs_certs m) = (statusCode resp, abs_certs m')" "tls_inv m'"
    using tls_refines_step[OF Cons.prems(1) _ e] Cons.prems(2) by auto
  with Cons.IH[of m'] Cons.prems(2) e show ?case by (simp add: spec_tls_def)
qed

lemma spec_keeps_live:
  "CommitCerts \<notin> set cs \<Longrightarrow> live (spec_tls expiry cs s) = live s"
proof (induction cs arbitrary: s)
  case (Cons c cs)
  have "live (snd (tls_spec expiry c s)) = live s" using Cons.prems by (cases c) auto
  with Cons show ?case by (simp add: spec_tls_def)
qed (simp add: spec_tls_def)

section \<open>Properties\<close>

text \<open>
  C31. The mock's TLS commands implement a transactional certificate store: status and
  state after each command are those of the specification, in which loads and discards work
  on a pending copy, commit makes it live and rollback drops it. The invariant on the
  mock's maps is kept.
\<close>

theorem tls_mock_refines_store:
  assumes "tls_inv m" "tls_words c" "mock_Exec expiry ft zt (tls_line c) m = (Inr resp, m')"
  shows "tls_spec expiry c (abs_certs m) = (statusCode resp, abs_certs m') \<and> tls_inv m'"
  using assms by (rule tls_refines_step)

lemma NewMock_inv: "tls_inv (NewMock port secret)"
proof -
  have "mget (fold (\<lambda>(cmd, resp). mput cmd resp) rs m0) cmd = Some r \<Longrightarrow>
      r \<in> snd ` set rs \<or> mget m0 cmd = Some r" for rs m0 cmd r
    by (induction rs arbitrary: m0) (force split: if_splits)+
  from this[of defaultResponses "[]"]
  show ?thesis by (fastforce simp: tls_inv_def NewMock_def setDefaultResponses_def defaultResponses_def okResponse_def)
qed

theorem tls_mock_refines_store_witness:
  "tls_inv (NewMock 0 ''s'' :: nat MockVarnishadm) \<and>
   (\<exists>resp m'. mock_Exec (9 :: nat) (\<lambda>t. ''t'') ''z'' (tls_line (LoadCert ''c1'' ''/c.pem'')) (NewMock 0 ''s'') = (Inr resp, m') \<and>
      statusCode resp = 200 \<and> pending (abs_certs m') = Some [''c1'' \<mapsto> newCert 9 ''c1''])"
proof -
  obtain resp m' where e: "mock_Exec (9 :: nat) (\<lambda>t. ''t'') ''z'' (tls_line (LoadCert ''c1'' ''/c.pem'')) (NewMock 0 ''s'') = (Inr resp, m')"
    by (metis mock_Exec_total)
  have w: "tls_words (LoadCert ''c1'' ''/c.pem'')" by (simp add: is_graph_def byte_def)
  have "abs_certs (NewMock 0 ''s'' :: nat MockVarnishadm) = \<lparr>live = Map.empty, pending = None\<rparr>"
    by (simp add: NewMock_def setDefaultResponses_def abs_certs_def mget_def)
  with tls_mock_refines_store[OF NewMock_inv w e] have "statusCode resp = 200"
    "pending (abs_certs m') = Some [''c1'' \<mapsto> newCert 9 ''c1'']"
    by (auto simp: working_def dest: sym)
  with e NewMock_inv show ?thesis by blast
qed

text \<open>
  Transactions are atomic: until a commit, no sequence of loads, discards and
  rollbacks changes the certificates in use; a rollback undoes everything since the last
  commit, and a commit makes exactly the pending certificates the ones in use.
\<close>

lemma tls_transactions_atomic:
  assumes "tls_inv m" "list_all tls_words cs" "CommitCerts \<notin> set cs"
  shows "live (abs_certs (exec_tls expiry ft zt cs m)) = live (abs_certs m) \<and>
    abs_certs (exec_tls expiry ft zt (cs @ [RollbackCerts]) m) = \<lparr>live = live (abs_certs m), pending = None\<rparr> \<and>
    abs_certs (exec_tls expiry ft zt (cs @ [CommitCerts]) m) =
      \<lparr>live = working (abs_certs (exec_tls expiry ft zt cs m)), pending = None\<rparr>"
proof -
  have r: "abs_certs (exec_tls expiry ft zt ds m) = spec_tls expiry ds (abs_certs m)" if "list_all tls_words ds" for ds
    using exec_tls_refines[OF assms(1) that] by blast
  have "list_all tls_words (cs @ [RollbackCerts])" "list_all tls_words (cs @ [CommitCerts])"
    using assms(2) by simp_all
  then show ?thesis
    using r assms(2) spec_keeps_live[OF assms(3), of expiry "abs_certs m"]
    by (simp add: spec_tls_def)
qed

end
